(* ===== verification/Prelude.thy ===== *)
theory Prelude
  imports Main "HOL-Library.Word" "HOL-Library.Multiset" "HOL-Library.AList"
begin

text \<open>
  Prelude of the NullBox development: what every component of the repository uses.
  Fallible code returns a \<open>result\<close> (a sum whose left side is the error), Rust strings are byte
  lists, durations and instants are nanosecond counts, a \<open>HashMap\<close> is an association list with
  distinct keys whose iteration order is an explicit argument, and machine integers are words.
  The lemmas on lists, maps and saturating words that the component theories share live here.
\<close>

unbundle bit_operations_syntax

section \<open>Named collections\<close>

named_theorems map_simps \<open>lookups in association-list models of HashMap\<close>
named_theorems string_defs \<open>definitions of the string operations of the standard library\<close>

section \<open>Names of the model's types\<close>

type_synonym u8 = "8 word"
type_synonym u16 = "16 word"
type_synonym u32 = "32 word"
type_synonym u64 = "64 word"
type_synonym io_error = string
type_synonym instant = nat
type_synonym duration = nat
type_synonym ('k, 'v) hashmap = "('k \<times> 'v) list"

section \<open>Results\<close>

definition res_bind :: "'e + 'a \<Rightarrow> ('a \<Rightarrow> 'e + 'b) \<Rightarrow> 'e + 'b" where
  "res_bind r f = (case r of Inl e \<Rightarrow> Inl e | Inr x \<Rightarrow> f x)"

definition map_err :: "('e \<Rightarrow> 'f) \<Rightarrow> 'e + 'a \<Rightarrow> 'f + 'a" where
  "map_err g r = (case r of Inl e \<Rightarrow> Inl (g e) | Inr x \<Rightarrow> Inr x)"

lemma res_bind_simps [simp]:
  "res_bind (Inl e) f = Inl e"
  "res_bind (Inr x) f = f x"
  by (simp_all add: res_bind_def)

lemma map_err_simps [simp]:
  "map_err g (Inl e) = Inl (g e)"
  "map_err g (Inr x) = Inr x"
  by (simp_all add: map_err_def)

lemma res_bind_eq_Inr: "res_bind r f = Inr y \<longleftrightarrow> (\<exists>x. r = Inr x \<and> f x = Inr y)"
  by (cases r) simp_all

lemma map_err_eq_Inr [simp]: "map_err g r = Inr y \<longleftrightarrow> r = Inr y"
  by (cases r) simp_all

section \<open>Time\<close>

definition secs :: "nat \<Rightarrow> duration" where
  "secs n = n * 1000000000"

definition millis :: "nat \<Rightarrow> duration" where
  "millis n = n * 1000000"

section \<open>Hash maps\<close>

text \<open>
  \<open>map_of m k\<close> is \<open>get\<close>, \<open>AList.update k v m\<close> is \<open>insert\<close>, \<open>AList.delete k m\<close> is \<open>remove\<close>.
  Iteration visits every entry once in an order the hasher picks, so a function that iterates takes
  the order as an argument \<open>it\<close>, of which it knows no more than \<open>is_iter it\<close>.
\<close>

definition is_iter :: "('a list \<Rightarrow> 'a list) \<Rightarrow> bool" where
  "is_iter it \<longleftrightarrow> (\<forall>xs. mset (it xs) = mset xs)"

definition hm_ok :: "('k, 'v) hashmap \<Rightarrow> bool" where
  "hm_ok m \<longleftrightarrow> distinct (map fst m)"

definition hm_keys :: "('k, 'v) hashmap \<Rightarrow> 'k set" where
  "hm_keys m = fst ` set m"

definition hm_or_insert :: "'k \<Rightarrow> 'v \<Rightarrow> ('k, 'v) hashmap \<Rightarrow> ('k, 'v) hashmap" where
  "hm_or_insert k v m = (case map_of m k of None \<Rightarrow> AList.update k v m | Some _ \<Rightarrow> m)"

lemma is_iter_id [simp]: "is_iter id" "is_iter (\<lambda>xs. xs)"
  by (simp_all add: is_iter_def)

lemma is_iter_rev [simp]: "is_iter rev"
  by (simp add: is_iter_def)

lemma is_iter_set: "is_iter it \<Longrightarrow> set (it xs) = set xs"
  by (metis is_iter_def set_mset_mset)

lemma is_iter_distinct: "is_iter it \<Longrightarrow> distinct (it xs) = distinct xs"
  by (metis is_iter_def mset_eq_imp_distinct_iff)

lemma is_iter_length: "is_iter it \<Longrightarrow> length (it xs) = length xs"
  by (metis is_iter_def mset_eq_length)

lemma is_iter_distinct_map: "is_iter it \<Longrightarrow> distinct (map f (it xs)) = distinct (map f xs)"
  by (metis is_iter_def mset_eq_imp_distinct_iff mset_map)

lemma hm_ok_update [simp]: "hm_ok m \<Longrightarrow> hm_ok (AList.update k v m)"
  by (simp add: hm_ok_def distinct_update)

lemma hm_ok_delete [simp]: "hm_ok m \<Longrightarrow> hm_ok (AList.delete k m)"
  by (simp add: hm_ok_def distinct_delete)

lemma hm_ok_Nil [simp]: "hm_ok []"
  by (simp add: hm_ok_def)

lemma hm_keys_dom: "hm_keys m = dom (map_of m)"
  by (simp add: hm_keys_def dom_map_of_conv_image_fst)

lemma map_of_hm_update [map_simps, simp]: "map_of (AList.update k v m) = (map_of m)(k \<mapsto> v)"
  by (rule update_conv')

lemma map_of_hm_delete [map_simps, simp]: "map_of (AList.delete k m) = (map_of m)(k := None)"
  by (rule delete_conv')

lemma hm_ok_or_insert [simp]: "hm_ok m \<Longrightarrow> hm_ok (hm_or_insert k v m)"
  by (simp add: hm_or_insert_def split: option.split)

lemma map_of_or_insert [map_simps, simp]:
  "map_of (hm_or_insert k v m) =
     (map_of m)(k \<mapsto> (case map_of m k of None \<Rightarrow> v | Some u \<Rightarrow> u))"
  by (auto simp: hm_or_insert_def fun_eq_iff split: option.split)

lemma hm_keys_update [map_simps, simp]: "hm_keys (AList.update k v m) = insert k (hm_keys m)"
  by (simp add: hm_keys_dom)

lemma hm_keys_delete [map_simps, simp]: "hm_keys (AList.delete k m) = hm_keys m - {k}"
  by (simp add: hm_keys_dom)

lemma hm_keys_or_insert [map_simps, simp]: "hm_keys (hm_or_insert k v m) = insert k (hm_keys m)"
  by (auto simp: hm_or_insert_def hm_keys_dom split: option.split)

lemma hm_ok_mem_iff: "hm_ok m \<Longrightarrow> (k, v) \<in> set m \<longleftrightarrow> map_of m k = Some v"
  by (simp add: hm_ok_def map_of_eq_Some_iff)

lemma hm_ok_iter: "is_iter it \<Longrightarrow> hm_ok m \<Longrightarrow> hm_ok (it m)"
  by (simp add: hm_ok_def is_iter_distinct_map)

lemma map_of_iter:
  assumes "is_iter it" and "hm_ok m"
  shows "map_of (it m) = map_of m"
proof
  fix k
  have "map_of (it m) k = Some v \<longleftrightarrow> map_of m k = Some v" for v
    using assms by (simp add: hm_ok_mem_iff [symmetric] hm_ok_iter is_iter_set)
  then show "map_of (it m) k = map_of m k"
    by (metis option.exhaust)
qed

section \<open>Counting\<close>

lemma count_list_replicate [simp]: "count_list (replicate n x) y = (if x = y then n else 0)"
  by (induction n) auto

lemma count_list_pos_iff [simp]: "0 < count_list xs x \<longleftrightarrow> x \<in> set xs"
  by (metis count_list_0_iff neq0_conv)

section \<open>Words\<close>

lemma unat_of_nat_small:
  "n < 2 ^ LENGTH('a) \<Longrightarrow> unat (of_nat n :: 'a::len word) = n"
  by (simp add: unsigned_of_nat take_bit_nat_eq_self)

end
