(* ===== verification/Service.thy ===== *)
theory Service
  imports Prelude
begin

text \<open>
  Model of \<open>cmd/nulld/src/service.rs\<close>: the service definitions of nulld and the topological sort
  that gives the start order. \<open>resolve_start_order\<close> is Kahn's algorithm as the code runs it: two hash
  maps (in-degrees and dependents), a queue, and the final length check. The lemmas show that the
  algorithm never underflows an in-degree, that an order it returns is a dependency-respecting
  permutation of the services, and that it returns one exactly when the graph is acyclic.
\<close>

section \<open>Data\<close>

datatype restart_policy = Always | OnFailure | Never

record service_def =
  name :: string
  binary :: string
  args :: "string list"
  depends_on :: "string list"
  restart :: restart_policy

datatype dep_error = MissingDependency string string | CycleDetected

section \<open>The algorithm\<close>

fun find_missing :: "string set \<Rightarrow> string \<Rightarrow> string list \<Rightarrow> dep_error option" where
  "find_missing names svc [] = None"
| "find_missing names svc (dep # deps) =
     (if dep \<notin> names then Some (MissingDependency svc dep) else find_missing names svc deps)"

fun validate_deps :: "string set \<Rightarrow> service_def list \<Rightarrow> dep_error option" where
  "validate_deps names [] = None"
| "validate_deps names (svc # svcs) =
     (case find_missing names (name svc) (depends_on svc) of
        Some e \<Rightarrow> Some e
      | None \<Rightarrow> validate_deps names svcs)"

type_synonym degrees = "(string, nat) hashmap"
type_synonym dep_lists = "(string, string list) hashmap"

text \<open>The inner loop of the graph construction: one edge per listed dependency.\<close>

fun add_edges :: "string \<Rightarrow> string list \<Rightarrow> degrees \<times> dep_lists \<Rightarrow> degrees \<times> dep_lists" where
  "add_edges svc [] g = g"
| "add_edges svc (dep # deps) (indeg, dependents) =
     add_edges svc deps
       (let m = hm_or_insert svc 0 indeg in AList.update svc (the (map_of m svc) + 1) m,
        let m = hm_or_insert dep [] dependents in AList.update dep (the (map_of m dep) @ [svc]) m)"

fun build_graph :: "service_def list \<Rightarrow> degrees \<times> dep_lists \<Rightarrow> degrees \<times> dep_lists" where
  "build_graph [] g = g"
| "build_graph (svc # svcs) (indeg, dependents) =
     build_graph svcs
       (add_edges (name svc) (depends_on svc) (hm_or_insert (name svc) 0 indeg, dependents))"

text \<open>
  The body of the main loop for one popped service: every dependent loses one in-degree and is
  queued when it reaches zero. \<open>None\<close> is the panic of \<open>*deg -= 1\<close> at zero.
\<close>

fun release :: "string list \<Rightarrow> degrees \<Rightarrow> string list \<Rightarrow> (degrees \<times> string list) option" where
  "release [] indeg queue = Some (indeg, queue)"
| "release (dep # deps) indeg queue =
     (case map_of indeg dep of
        None \<Rightarrow> release deps indeg queue
      | Some deg \<Rightarrow>
          (if deg = 0 then None
           else release deps (AList.update dep (deg - 1) indeg)
                  (if deg - 1 = 0 then queue @ [dep] else queue)))"

definition degree_sum :: "degrees \<Rightarrow> nat" where
  "degree_sum m = sum_list (map snd m)"

lemma degree_sum_update:
  "map_of m k = Some (Suc d) \<Longrightarrow> Suc (degree_sum (AList.update k d m)) = degree_sum m"
  by (induction m) (auto simp: degree_sum_def split: if_splits)

lemma release_measure:
  "release deps indeg queue = Some (indeg', queue') \<Longrightarrow>
     length queue' + degree_sum indeg' \<le> length queue + degree_sum indeg"
proof (induction deps indeg queue rule: release.induct)
  case (1 indeg queue)
  then show ?case by simp
next
  case (2 dep deps indeg queue)
  show ?case
  proof (cases "map_of indeg dep")
    case None
    with 2 show ?thesis by simp
  next
    case (Some deg)
    with "2.prems" obtain d where d: "deg = Suc d"
      by (cases deg) auto
    with Some have "Suc (degree_sum (AList.update dep d indeg)) = degree_sum indeg"
      by (simp add: degree_sum_update)
    with 2 Some d show ?thesis by (fastforce split: if_splits)
  qed
qed

function kahn_loop ::
    "dep_lists \<Rightarrow> degrees \<Rightarrow> string list \<Rightarrow> string list \<Rightarrow> string list option" where
  "kahn_loop dependents indeg [] order = Some order"
| "kahn_loop dependents indeg (n # queue) order =
     (case map_of dependents n of
        None \<Rightarrow> kahn_loop dependents indeg queue (order @ [n])
      | Some deps \<Rightarrow>
          (case release deps indeg queue of
             None \<Rightarrow> None
           | Some (indeg', queue') \<Rightarrow> kahn_loop dependents indeg' queue' (order @ [n])))"
  by pat_completeness auto
termination
  by (relation "measure (\<lambda>(dependents, indeg, queue, order). length queue + degree_sum indeg)")
    (auto dest!: release_measure)

text \<open>
  \<open>it\<close> is the iteration order of the in-degree map. The outer \<open>None\<close> is a panic; the theorems below
  show that it never happens.
\<close>

definition resolve_start_order ::
    "((string \<times> nat) list \<Rightarrow> (string \<times> nat) list) \<Rightarrow> service_def list \<Rightarrow>
     (dep_error + string list) option" where
  "resolve_start_order it services =
     (case validate_deps (set (map name services)) services of
        Some e \<Rightarrow> Some (Inl e)
      | None \<Rightarrow>
          (let (indeg, dependents) = build_graph services ([], []);
               queue = map fst (filter (\<lambda>(_, deg). deg = 0) (it indeg))
           in (case kahn_loop dependents indeg queue [] of
                 None \<Rightarrow> None
               | Some order \<Rightarrow>
                   (if length order \<noteq> length services then Some (Inl CycleDetected)
                    else Some (Inr order)))))"

definition resolve_stop_order ::
    "((string \<times> nat) list \<Rightarrow> (string \<times> nat) list) \<Rightarrow> service_def list \<Rightarrow>
     (dep_error + string list) option" where
  "resolve_stop_order it services =
     map_option (\<lambda>r. res_bind r (\<lambda>order. Inr (rev order))) (resolve_start_order it services)"

section \<open>Specification\<close>

text \<open>\<open>before xs a b\<close>: \<open>b\<close> occurs in \<open>xs\<close> and \<open>a\<close> occurs before its first occurrence.\<close>

definition before :: "'a list \<Rightarrow> 'a \<Rightarrow> 'a \<Rightarrow> bool" where
  "before xs a b \<longleftrightarrow> b \<in> set xs \<and> a \<in> set (takeWhile (\<lambda>x. x \<noteq> b) xs)"

definition svc_names :: "service_def list \<Rightarrow> string set" where
  "svc_names svcs = set (map name svcs)"

definition all_deps :: "service_def list \<Rightarrow> string \<Rightarrow> string list" where
  "all_deps svcs n = concat (map depends_on (filter (\<lambda>s. name s = n) svcs))"

definition dep_edges :: "service_def list \<Rightarrow> (string \<times> string) set" where
  "dep_edges svcs = {(d, n). d \<in> set (all_deps svcs n)}"

definition deps_known :: "service_def list \<Rightarrow> bool" where
  "deps_known svcs \<longleftrightarrow> (\<forall>s \<in> set svcs. set (depends_on s) \<subseteq> svc_names svcs)"

definition deg_of :: "degrees \<Rightarrow> string \<Rightarrow> nat" where
  "deg_of m n = (case map_of m n of None \<Rightarrow> 0 | Some d \<Rightarrow> d)"

definition dl_of :: "dep_lists \<Rightarrow> string \<Rightarrow> string list" where
  "dl_of m n = (case map_of m n of None \<Rightarrow> [] | Some ds \<Rightarrow> ds)"

definition remaining :: "service_def list \<Rightarrow> string list \<Rightarrow> string \<Rightarrow> nat" where
  "remaining svcs order n = length (filter (\<lambda>d. d \<notin> set order) (all_deps svcs n))"

subsection \<open>Order and counting lemmas\<close>

lemma before_snoc: "before xs a b \<Longrightarrow> before (xs @ [c]) a b"
  by (auto simp: before_def takeWhile_append)

lemma before_new: "a \<in> set xs \<Longrightarrow> b \<notin> set xs \<Longrightarrow> before (xs @ [b]) a b"
  by (auto simp: before_def takeWhile_append)

lemma before_mem: "before xs a b \<Longrightarrow> a \<in> set xs \<and> b \<in> set xs \<and> a \<noteq> b"
  by (auto simp: before_def dest: set_takeWhileD)

lemma before_trans: "before xs a b \<Longrightarrow> before xs b c \<Longrightarrow> before xs a c"
proof (induction xs)
  case Nil
  then show ?case by (simp add: before_def)
next
  case (Cons x xs)
  then show ?case
    by (auto simp: before_def split: if_splits dest: set_takeWhileD)
qed

lemma before_rev: "distinct xs \<Longrightarrow> before xs a b \<Longrightarrow> before (rev xs) b a"
proof (induction xs)
  case Nil
  then show ?case by (simp add: before_def)
next
  case (Cons x xs)
  show ?case
  proof (cases "x = a")
    case True
    with Cons.prems have "b \<in> set xs" "a \<notin> set xs"
      by (auto simp: before_def split: if_splits dest: set_takeWhileD)
    with True show ?thesis by (simp add: before_new)
  next
    case False
    with Cons.prems have "before xs a b"
      by (auto simp: before_def split: if_splits)
    with Cons show ?thesis by (simp add: before_snoc)
  qed
qed

lemma all_deps_Nil [simp]: "all_deps [] n = []"
  by (simp add: all_deps_def)

lemma all_deps_Cons [simp]:
  "all_deps (s # svcs) n = (if name s = n then depends_on s else []) @ all_deps svcs n"
  by (simp add: all_deps_def)

lemma all_deps_name: "d \<in> set (all_deps svcs n) \<Longrightarrow> n \<in> svc_names svcs"
  by (auto simp: all_deps_def svc_names_def)

lemma all_deps_mem: "s \<in> set svcs \<Longrightarrow> d \<in> set (depends_on s) \<Longrightarrow> d \<in> set (all_deps svcs (name s))"
  by (auto simp: all_deps_def)

lemma deps_known_iff: "deps_known svcs \<longleftrightarrow> (\<forall>n. set (all_deps svcs n) \<subseteq> svc_names svcs)"
  by (fastforce simp: deps_known_def all_deps_def)

lemma filter_notin_snoc:
  "n \<notin> set order \<Longrightarrow>
     length (filter (\<lambda>d. d \<notin> set (order @ [n])) xs) + count_list xs n =
     length (filter (\<lambda>d. d \<notin> set order) xs)"
  by (induction xs) auto

lemma remaining_snoc:
  "n \<notin> set order \<Longrightarrow>
     remaining svcs (order @ [n]) m + count_list (all_deps svcs m) n = remaining svcs order m"
  unfolding remaining_def by (rule filter_notin_snoc)

lemma remaining_0_iff: "remaining svcs order n = 0 \<longleftrightarrow> set (all_deps svcs n) \<subseteq> set order"
  by (auto simp: remaining_def filter_empty_conv)

lemma deg_of_update [simp]: "deg_of (AList.update k v m) n = (if n = k then v else deg_of m n)"
  by (simp add: deg_of_def)

lemma deg_of_or_insert [simp]: "deg_of (hm_or_insert k 0 m) n = deg_of m n"
  by (auto simp: deg_of_def split: option.split)

lemma dl_of_update [simp]: "dl_of (AList.update k v m) n = (if n = k then v else dl_of m n)"
  by (simp add: dl_of_def)

lemma map_of_deg: "n \<in> hm_keys m \<Longrightarrow> map_of m n = Some (deg_of m n)"
  by (auto simp: hm_keys_dom deg_of_def)

lemma the_or_insert_deg [simp]: "the (map_of (hm_or_insert k 0 m) k) = deg_of m k"
  by (simp add: deg_of_def)

lemma the_or_insert_dl [simp]: "the (map_of (hm_or_insert k [] m) k) = dl_of m k"
  by (simp add: dl_of_def)

lemma dl_of_or_insert [simp]: "dl_of (hm_or_insert k [] m) n = dl_of m n"
  by (auto simp: dl_of_def split: option.split)

section \<open>Correctness of the algorithm\<close>

subsection \<open>Construction of the graph\<close>

lemma add_edges_spec:
  "add_edges svc deps (indeg, dependents) = (indeg', dependents') \<Longrightarrow> svc \<in> hm_keys indeg \<Longrightarrow>
     hm_keys indeg' = hm_keys indeg \<and>
     deg_of indeg' k = deg_of indeg k + (if k = svc then length deps else 0) \<and>
     dl_of dependents' d = dl_of dependents d @ replicate (count_list deps d) svc"
proof (induction deps arbitrary: indeg dependents)
  case Nil
  then show ?case by simp
next
  case (Cons dep deps)
  let ?i = "AList.update svc (deg_of indeg svc + 1) (hm_or_insert svc 0 indeg)"
  let ?d = "AList.update dep (dl_of dependents dep @ [svc]) (hm_or_insert dep [] dependents)"
  from Cons.prems have "add_edges svc deps (?i, ?d) = (indeg', dependents')"
    by (simp add: Let_def deg_of_def dl_of_def)
  moreover from Cons.prems(2) have "svc \<in> hm_keys ?i" by simp
  ultimately have "hm_keys indeg' = hm_keys ?i \<and>
     deg_of indeg' k = deg_of ?i k + (if k = svc then length deps else 0) \<and>
     dl_of dependents' d = dl_of ?d d @ replicate (count_list deps d) svc"
    by (rule Cons.IH)
  with Cons.prems(2) show ?case
    by (auto simp: insert_absorb replicate_app_Cons_same)
qed

lemma build_graph_spec:
  "build_graph svcs (indeg, dependents) = (indeg', dependents') \<Longrightarrow>
     hm_keys indeg' = hm_keys indeg \<union> svc_names svcs \<and>
     deg_of indeg' n = deg_of indeg n + length (all_deps svcs n) \<and>
     count_list (dl_of dependents' d) n =
       count_list (dl_of dependents d) n + count_list (all_deps svcs n) d"
proof (induction svcs arbitrary: indeg dependents)
  case Nil
  then show ?case by (simp add: svc_names_def)
next
  case (Cons svc svcs)
  let ?i = "hm_or_insert (name svc) 0 indeg"
  obtain i1 d1 where e: "add_edges (name svc) (depends_on svc) (?i, dependents) = (i1, d1)"
    by (cases "add_edges (name svc) (depends_on svc) (?i, dependents)")
  have k: "name svc \<in> hm_keys ?i" by simp
  from add_edges_spec [OF e k]
  have s1: "hm_keys i1 = insert (name svc) (hm_keys indeg)"
    "deg_of i1 n = deg_of indeg n + (if n = name svc then length (depends_on svc) else 0)"
    "dl_of d1 d = dl_of dependents d @ replicate (count_list (depends_on svc) d) (name svc)"
    by simp_all
  from Cons.prems e have "build_graph svcs (i1, d1) = (indeg', dependents')" by simp
  from Cons.IH [OF this] s1 show ?case
    by (auto simp: svc_names_def count_list_append count_list_replicate)
qed

subsection \<open>One step of the main loop\<close>

lemma release_spec:
  assumes "\<And>m. m \<in> set ds \<Longrightarrow> m \<in> hm_keys indeg \<and> count_list ds m \<le> deg_of indeg m"
  shows "\<exists>indeg' new. release ds indeg q = Some (indeg', q @ new) \<and>
     hm_keys indeg' = hm_keys indeg \<and> (\<forall>m. deg_of indeg' m = deg_of indeg m - count_list ds m) \<and>
     distinct new \<and> set new = {m \<in> set ds. deg_of indeg m = count_list ds m}"
  using assms
proof (induction ds arbitrary: indeg q)
  case Nil
  then show ?case by simp
next
  case (Cons dep ds)
  define deg where "deg = deg_of indeg dep"
  define i1 where "i1 = AList.update dep (deg - 1) indeg"
  define new1 where "new1 = (if deg - 1 = 0 then [dep] else [])"
  have pos: "Suc (count_list ds dep) \<le> deg" and key: "dep \<in> hm_keys indeg"
    using Cons.prems [of dep] by (auto simp: deg_def)
  have once: "dep \<notin> set ds" if "deg - 1 = 0"
    using that pos by (simp add: count_list_0_iff [symmetric])
  have look: "map_of indeg dep = Some deg"
    using key by (simp add: map_of_deg deg_def)
  have keys: "hm_keys i1 = hm_keys indeg"
    using key by (auto simp: i1_def)
  have degs: "deg_of i1 m = (if m = dep then deg - 1 else deg_of indeg m)" for m
    by (simp add: i1_def)
  have "m \<in> hm_keys i1 \<and> count_list ds m \<le> deg_of i1 m" if "m \<in> set ds" for m
    using Cons.prems [of m] that pos keys by (auto simp: degs split: if_splits)
  then obtain i2 new2 where r: "release ds i1 (q @ new1) = Some (i2, (q @ new1) @ new2)"
    and k2: "hm_keys i2 = hm_keys i1" and d2: "\<forall>m. deg_of i2 m = deg_of i1 m - count_list ds m"
    and n2: "distinct new2" "set new2 = {m \<in> set ds. deg_of i1 m = count_list ds m}"
    using Cons.IH [of i1 "q @ new1"] by blast
  have "release (dep # ds) indeg q = Some (i2, q @ (new1 @ new2))"
    using look pos r by (auto simp: i1_def new1_def split: if_splits)
  moreover have "\<forall>m. deg_of i2 m = deg_of indeg m - count_list (dep # ds) m"
    using d2 pos by (auto simp: degs deg_def)
  moreover have "distinct (new1 @ new2)"
    using n2 once by (simp add: new1_def)
  moreover have "set (new1 @ new2) = {m \<in> set (dep # ds). deg_of indeg m = count_list (dep # ds) m}"
  proof (cases "deg - 1 = 0")
    case True
    then have "dep \<notin> set ds" and "deg = 1" using once pos by simp_all
    then show ?thesis using True by (auto simp: new1_def n2(2) degs deg_def [symmetric])
  next
    case False
    then show ?thesis using pos by (auto simp: new1_def n2(2) degs deg_def [symmetric])
  qed
  ultimately show ?case using k2 keys by auto
qed

definition dependents_ok :: "service_def list \<Rightarrow> dep_lists \<Rightarrow> bool" where
  "dependents_ok svcs dependents \<longleftrightarrow>
     (\<forall>d n. count_list (dl_of dependents d) n = count_list (all_deps svcs n) d)"

definition loop_inv ::
    "service_def list \<Rightarrow> degrees \<Rightarrow> string list \<Rightarrow> string list \<Rightarrow> bool" where
  "loop_inv svcs indeg queue order \<longleftrightarrow>
     hm_keys indeg = svc_names svcs \<and>
     (\<forall>n. deg_of indeg n = remaining svcs order n) \<and>
     distinct (order @ queue) \<and>
     set (order @ queue) = {n \<in> svc_names svcs. remaining svcs order n = 0} \<and>
     (\<forall>b \<in> set order. \<forall>d \<in> set (all_deps svcs b). before order d b)"

text \<open>Releasing the dependents of the popped service subtracts exactly the edges it had.\<close>

lemma release_dependents:
  assumes dep: "dependents_ok svcs dependents" and inv: "loop_inv svcs indeg (n # queue) order"
  obtains indeg' new where "release (dl_of dependents n) indeg queue = Some (indeg', queue @ new)"
    and "hm_keys indeg' = svc_names svcs"
    and "\<And>m. deg_of indeg' m = remaining svcs (order @ [n]) m"
    and "distinct new"
    and "\<And>m. m \<in> set new \<longleftrightarrow> m \<in> svc_names svcs \<and> remaining svcs (order @ [n]) m = 0 \<and>
           0 < remaining svcs order m"
proof -
  let ?ds = "dl_of dependents n"
  have nin: "n \<notin> set order" and keys: "hm_keys indeg = svc_names svcs"
    and deg: "\<And>m. deg_of indeg m = remaining svcs order m"
    using inv by (auto simp: loop_inv_def)
  have cnt: "count_list ?ds m = count_list (all_deps svcs m) n" for m
    using dep by (simp add: dependents_ok_def)
  have rem: "remaining svcs (order @ [n]) m + count_list ?ds m = remaining svcs order m" for m
    using remaining_snoc [OF nin] by (simp add: cnt)
  have mem: "m \<in> set ?ds \<Longrightarrow> m \<in> svc_names svcs" for m
    using cnt [of m] by (metis count_list_0_iff all_deps_name)
  have "m \<in> hm_keys indeg \<and> count_list ?ds m \<le> deg_of indeg m" if "m \<in> set ?ds" for m
    using that rem [of m] by (simp add: keys deg mem)
  then obtain indeg' new where r: "release ?ds indeg queue = Some (indeg', queue @ new)"
    and k: "hm_keys indeg' = hm_keys indeg"
    and d: "\<And>m. deg_of indeg' m = deg_of indeg m - count_list ?ds m"
    and nw: "distinct new" "set new = {m \<in> set ?ds. deg_of indeg m = count_list ?ds m}"
    using release_spec [of ?ds indeg queue] by blast
  have new: "m \<in> set new \<longleftrightarrow> m \<in> svc_names svcs \<and> remaining svcs (order @ [n]) m = 0 \<and>
      0 < remaining svcs order m" for m
  proof -
    define c where "c = count_list ?ds m"
    have "m \<in> set new \<longleftrightarrow> m \<in> set ?ds \<and> remaining svcs order m = c"
      by (simp add: nw(2) deg c_def)
    moreover have "m \<in> set ?ds \<longleftrightarrow> 0 < c" by (simp add: c_def)
    moreover have "remaining svcs (order @ [n]) m + c = remaining svcs order m"
      using rem by (simp add: c_def)
    ultimately show ?thesis using mem [of m] by auto
  qed
  have degs: "deg_of indeg' m = remaining svcs (order @ [n]) m" for m
    using d [of m] deg [of m] rem [of m] by simp
  from k keys have "hm_keys indeg' = svc_names svcs" by (rule trans)
  from that [OF r this degs nw(1) new] show thesis .
qed

lemma order_extend:
  assumes inv: "loop_inv svcs indeg (n # queue) order"
    and b: "b \<in> set (order @ [n])" and d: "d \<in> set (all_deps svcs b)"
  shows "before (order @ [n]) d b"
proof (cases "b = n")
  case True
  from inv have "n \<in> {n \<in> svc_names svcs. remaining svcs order n = 0}"
    unfolding loop_inv_def by (metis in_set_conv_decomp)
  then have "set (all_deps svcs n) \<subseteq> set order" by (simp add: remaining_0_iff)
  moreover from inv have "n \<notin> set order" by (simp add: loop_inv_def)
  ultimately show ?thesis using d True by (blast intro: before_new)
next
  case False
  with b have "b \<in> set order" by simp
  with inv d have "before order d b" unfolding loop_inv_def by blast
  then show ?thesis by (rule before_snoc)
qed

lemma loop_step:
  assumes dep: "dependents_ok svcs dependents" and inv: "loop_inv svcs indeg (n # queue) order"
  shows "\<exists>indeg' queue'. release (dl_of dependents n) indeg queue = Some (indeg', queue') \<and>
     loop_inv svcs indeg' queue' (order @ [n])"
proof -
  obtain indeg' new where r: "release (dl_of dependents n) indeg queue = Some (indeg', queue @ new)"
    and k: "hm_keys indeg' = svc_names svcs"
    and d: "\<And>m. deg_of indeg' m = remaining svcs (order @ [n]) m" and nw: "distinct new"
    and new_iff: "\<And>m. m \<in> set new \<longleftrightarrow> m \<in> svc_names svcs \<and> remaining svcs (order @ [n]) m = 0 \<and>
           0 < remaining svcs order m"
    using release_dependents [OF dep inv] by metis
  have ready: "set (order @ n # queue) = {m \<in> svc_names svcs. remaining svcs order m = 0}"
    and dist: "distinct (order @ n # queue)" and nin: "n \<notin> set order"
    using inv by (auto simp: loop_inv_def)
  have keep: "remaining svcs order m = 0 \<Longrightarrow> remaining svcs (order @ [n]) m = 0" for m
    using remaining_snoc [OF nin, of svcs m] by simp
  have "set ((order @ [n]) @ queue @ new) = set (order @ n # queue) \<union> set new" by auto
  also have "\<dots> = {m \<in> svc_names svcs. remaining svcs (order @ [n]) m = 0}"
    unfolding ready by (auto simp: keep new_iff)
  finally have ready': "set ((order @ [n]) @ queue @ new) = \<dots>" .
  have "set new \<inter> set (order @ n # queue) = {}"
    unfolding ready using new_iff by auto
  with dist nw have "distinct ((order @ n # queue) @ new)"
    by (simp only: distinct_append) blast
  then have "distinct ((order @ [n]) @ queue @ new)" by simp
  then have "loop_inv svcs indeg' (queue @ new) (order @ [n])"
    unfolding loop_inv_def using k d ready' order_extend [OF inv] by blast
  with r show ?thesis by blast
qed

subsection \<open>The whole loop\<close>

lemma kahn_loop_unfold:
  "kahn_loop dependents indeg (n # queue) order =
     (case release (dl_of dependents n) indeg queue of
        None \<Rightarrow> None
      | Some (indeg', queue') \<Rightarrow> kahn_loop dependents indeg' queue' (order @ [n]))"
  by (simp add: dl_of_def split: option.split)

lemma kahn_loop_inv:
  assumes dep: "dependents_ok svcs dependents"
  shows "loop_inv svcs indeg queue order \<Longrightarrow>
     \<exists>indeg' order'. kahn_loop dependents indeg queue order = Some order' \<and>
       loop_inv svcs indeg' [] order'"
proof (induction "length queue + degree_sum indeg" arbitrary: indeg queue order rule: less_induct)
  case less
  show ?case
  proof (cases queue)
    case Nil
    with less.prems show ?thesis by auto
  next
    case (Cons n q)
    with less.prems dep obtain indeg' q'
      where r: "release (dl_of dependents n) indeg q = Some (indeg', q')"
        and i: "loop_inv svcs indeg' q' (order @ [n])"
      using loop_step by blast
    from release_measure [OF r] Cons have "length q' + degree_sum indeg' < length queue + degree_sum indeg"
      by simp
    from less.hyps [OF this i] show ?thesis
      unfolding Cons kahn_loop_unfold r by simp
  qed
qed

lemma build_graph_ok:
  assumes "build_graph svcs ([], []) = (indeg, dependents)"
  shows "hm_keys indeg = svc_names svcs" and "dependents_ok svcs dependents"
    and "deg_of indeg n = length (all_deps svcs n)"
  using build_graph_spec [OF assms]
  by (simp_all add: hm_keys_def deg_of_def dl_of_def dependents_ok_def)

lemma hm_ok_add_edges: "hm_ok indeg \<Longrightarrow> hm_ok (fst (add_edges svc deps (indeg, dependents)))"
  by (induction deps arbitrary: indeg dependents) (simp_all add: Let_def)

lemma hm_ok_build_graph: "hm_ok indeg \<Longrightarrow> hm_ok (fst (build_graph svcs (indeg, dependents)))"
proof (induction svcs arbitrary: indeg dependents)
  case Nil
  then show ?case by simp
next
  case (Cons svc svcs)
  obtain i d where e:
    "add_edges (name svc) (depends_on svc) (hm_or_insert (name svc) 0 indeg, dependents) = (i, d)"
    by fastforce
  with Cons.prems have "hm_ok i"
    by (metis fst_conv hm_ok_add_edges hm_ok_or_insert)
  then show ?case using e by (simp add: Cons.IH)
qed

lemma initial_inv:
  assumes g: "build_graph svcs ([], []) = (indeg, dependents)" and it: "is_iter it"
  shows "loop_inv svcs indeg (map fst (filter (\<lambda>(_, deg). deg = 0) (it indeg))) []"
proof -
  have ok: "hm_ok indeg" using hm_ok_build_graph [of "[]" svcs "[]"] g by simp
  let ?q = "map fst (filter (\<lambda>(_, deg). deg = 0) (it indeg))"
  have "distinct (map fst (it indeg))"
    using ok it by (simp add: hm_ok_def is_iter_distinct_map)
  then have "distinct ?q" by (rule distinct_map_filter)
  moreover have "set ?q = {n \<in> hm_keys indeg. deg_of indeg n = 0}"
    using ok by (force simp: is_iter_set [OF it] hm_ok_mem_iff hm_keys_dom deg_of_def)
  moreover have "deg_of indeg n = remaining svcs [] n" for n
    using build_graph_ok(3) [OF g] by (simp add: remaining_def)
  ultimately show ?thesis
    using build_graph_ok(1) [OF g] by (simp add: loop_inv_def)
qed

text \<open>What the loop returns: a set of services closed under dependencies, in a legal order.\<close>

lemma resolve_cases:
  assumes it: "is_iter it"
  obtains (missing) e where "validate_deps (svc_names svcs) svcs = Some e"
      and "resolve_start_order it svcs = Some (Inl e)"
  | (ran) indeg order where "validate_deps (svc_names svcs) svcs = None"
      and "loop_inv svcs indeg [] order"
      and "resolve_start_order it svcs =
        Some (if length order \<noteq> length svcs then Inl CycleDetected else Inr order)"
proof (cases "validate_deps (svc_names svcs) svcs")
  case (Some e)
  then show ?thesis by (intro missing) (simp_all add: resolve_start_order_def svc_names_def)
next
  case None
  obtain indeg dependents where g: "build_graph svcs ([], []) = (indeg, dependents)" by fastforce
  from kahn_loop_inv [OF build_graph_ok(2) [OF g] initial_inv [OF g it]]
  obtain indeg' order where k: "kahn_loop dependents indeg
      (map fst (filter (\<lambda>(_, deg). deg = 0) (it indeg))) [] = Some order"
    and i: "loop_inv svcs indeg' [] order" by blast
  from None i show ?thesis
    by (rule ran) (use None g k in \<open>simp add: resolve_start_order_def svc_names_def\<close>)
qed

subsection \<open>Acyclicity\<close>

lemma legal_order_acyclic:
  assumes "\<forall>b \<in> svc_names svcs. \<forall>d \<in> set (all_deps svcs b). before order d b"
  shows "acyclic (dep_edges svcs)"
proof -
  have step: "before order d b" if "(d, b) \<in> dep_edges svcs" for d b
    using that assms by (auto simp: dep_edges_def dest: all_deps_name)
  have "before order a b" if "(a, b) \<in> (dep_edges svcs)\<^sup>+" for a b
    using that by induction (auto intro: step before_trans)
  then show ?thesis by (meson acyclicI before_mem)
qed

lemma acyclic_all_released:
  assumes acyc: "acyclic (dep_edges svcs)" and known: "deps_known svcs"
    and sub: "\<And>n. n \<in> svc_names svcs \<Longrightarrow> set (all_deps svcs n) \<subseteq> S \<Longrightarrow> n \<in> S"
  shows "svc_names svcs \<subseteq> S"
proof (rule ccontr)
  let ?R = "svc_names svcs - S"
  let ?E = "dep_edges svcs \<inter> ?R \<times> ?R"
  assume "\<not> svc_names svcs \<subseteq> S"
  then obtain r where r: "r \<in> ?R" by blast
  have "finite ?E" by (rule finite_subset [of _ "?R \<times> ?R"]) (auto simp: svc_names_def)
  moreover have "acyclic ?E" using acyc by (rule acyclic_subset) blast
  ultimately have "wf ?E" by (rule finite_acyclic_wf)
  then obtain z where z: "z \<in> ?R" and min: "\<And>y. (y, z) \<in> ?E \<Longrightarrow> y \<notin> ?R"
    using r by (metis wfE_min)
  with sub obtain d where d: "d \<in> set (all_deps svcs z)" "d \<notin> S" by blast
  with known have "d \<in> ?R" by (auto simp: deps_known_iff)
  with d z min show False by (auto simp: dep_edges_def)
qed

subsection \<open>The dependency check\<close>

lemma find_missing_None: "find_missing names svc deps = None \<longleftrightarrow> set deps \<subseteq> names"
  by (induction deps) auto

lemma find_missing_NoneI [simp]: "set deps \<subseteq> names \<Longrightarrow> find_missing names svc deps = None"
  by (simp add: find_missing_None)

lemma find_missing_first:
  "set pre \<subseteq> names \<Longrightarrow> dep \<notin> names \<Longrightarrow>
     find_missing names svc (pre @ dep # post) = Some (MissingDependency svc dep)"
  by (induction pre) auto

lemma validate_deps_None_iff:
  "validate_deps names svcs = None \<longleftrightarrow> (\<forall>s \<in> set svcs. set (depends_on s) \<subseteq> names)"
  by (induction svcs) (auto simp: find_missing_None split: option.split)

lemma validate_deps_None: "validate_deps (svc_names svcs) svcs = None \<longleftrightarrow> deps_known svcs"
  by (simp add: validate_deps_None_iff deps_known_def)

lemma validate_deps_first:
  "\<forall>t \<in> set pre. set (depends_on t) \<subseteq> names \<Longrightarrow> set dpre \<subseteq> names \<Longrightarrow> d \<notin> names \<Longrightarrow>
     depends_on svc = dpre @ d # dpost \<Longrightarrow>
     validate_deps names (pre @ svc # post) = Some (MissingDependency (name svc) d)"
  by (induction pre) (auto simp: find_missing_first)

text \<open>\<open>first_missing svcs s d\<close>: \<open>d\<close> is the first unknown dependency, in the order of the definitions.\<close>

definition first_missing :: "service_def list \<Rightarrow> string \<Rightarrow> string \<Rightarrow> bool" where
  "first_missing svcs s d \<longleftrightarrow>
     (\<exists>before_svcs svc after_svcs before_deps after_deps.
        svcs = before_svcs @ svc # after_svcs \<and> name svc = s \<and>
        depends_on svc = before_deps @ d # after_deps \<and> d \<notin> svc_names svcs \<and>
        set before_deps \<subseteq> svc_names svcs \<and>
        (\<forall>t \<in> set before_svcs. set (depends_on t) \<subseteq> svc_names svcs))"

lemma first_missing_exists: "\<not> deps_known svcs \<Longrightarrow> \<exists>s d. first_missing svcs s d"
proof -
  let ?N = "svc_names svcs"
  assume "\<not> deps_known svcs"
  then have "\<exists>s \<in> set svcs. \<not> set (depends_on s) \<subseteq> ?N" by (simp add: deps_known_def)
  from split_list_first_prop [OF this] obtain pre svc post
    where s: "svcs = pre @ svc # post" "\<not> set (depends_on svc) \<subseteq> ?N"
      "\<forall>t \<in> set pre. set (depends_on t) \<subseteq> ?N" by blast
  then have "\<exists>d \<in> set (depends_on svc). d \<notin> ?N" by blast
  from split_list_first_prop [OF this] obtain dpre d dpost
    where "depends_on svc = dpre @ d # dpost" "d \<notin> ?N" "\<forall>t \<in> set dpre. t \<in> ?N" by auto
  with s show ?thesis unfolding first_missing_def by (metis subsetI)
qed

lemma validate_deps_missing:
  "first_missing svcs s d \<Longrightarrow> validate_deps (svc_names svcs) svcs = Some (MissingDependency s d)"
  unfolding first_missing_def using validate_deps_first by metis

lemma validate_deps_Some:
  "validate_deps (svc_names svcs) svcs = Some e \<longleftrightarrow>
     (\<exists>s d. e = MissingDependency s d \<and> first_missing svcs s d)"
proof
  assume v: "validate_deps (svc_names svcs) svcs = Some e"
  then have "\<not> deps_known svcs" by (simp add: validate_deps_None [symmetric])
  then obtain s d where "first_missing svcs s d" using first_missing_exists by blast
  with v validate_deps_missing [OF this]
  show "\<exists>s d. e = MissingDependency s d \<and> first_missing svcs s d" by auto
qed (auto dest: validate_deps_missing)

lemma validate_deps_missing_iff:
  "validate_deps (svc_names svcs) svcs = Some (MissingDependency s d) \<longleftrightarrow> first_missing svcs s d"
  by (auto simp: validate_deps_Some)

section \<open>Results of the start order\<close>

lemma loop_done:
  assumes "loop_inv svcs indeg [] order"
  shows "distinct order" and "set order \<subseteq> svc_names svcs"
    and "\<And>n. n \<in> svc_names svcs \<Longrightarrow> set (all_deps svcs n) \<subseteq> set order \<Longrightarrow> n \<in> set order"
    and "\<And>b d. b \<in> set order \<Longrightarrow> d \<in> set (all_deps svcs b) \<Longrightarrow> before order d b"
  using assms by (auto simp: loop_inv_def remaining_0_iff)

lemma full_order_iff:
  assumes "distinct order" and "set order \<subseteq> svc_names svcs"
  shows "length order = length svcs \<longleftrightarrow> distinct (map name svcs) \<and> set order = svc_names svcs"
proof -
  have o: "length order = card (set order)" using assms(1) by (simp add: distinct_card)
  have le: "card (set order) \<le> card (svc_names svcs)"
    by (rule card_mono [OF _ assms(2)]) (simp add: svc_names_def)
  have n: "card (svc_names svcs) \<le> length svcs"
    by (metis card_length length_map svc_names_def)
  show ?thesis
  proof
    assume "length order = length svcs"
    with o le n have "card (set order) = card (svc_names svcs)" "card (svc_names svcs) = length svcs"
      by linarith+
    then show "distinct (map name svcs) \<and> set order = svc_names svcs"
      using assms(2) by (metis List.finite_set card_distinct card_subset_eq length_map svc_names_def)
  next
    assume "distinct (map name svcs) \<and> set order = svc_names svcs"
    then show "length order = length svcs"
      using o by (metis distinct_card length_map svc_names_def)
  qed
qed

lemma full_order_acyclic:
  assumes inv: "loop_inv svcs indeg [] order" and known: "deps_known svcs"
  shows "set order = svc_names svcs \<longleftrightarrow> acyclic (dep_edges svcs)"
proof
  assume "set order = svc_names svcs"
  with loop_done(4) [OF inv] show "acyclic (dep_edges svcs)"
    by (intro legal_order_acyclic [of svcs order]) blast
next
  assume "acyclic (dep_edges svcs)"
  from acyclic_all_released [OF this known loop_done(3) [OF inv]]
  show "set order = svc_names svcs" using loop_done(2) [OF inv] by blast
qed

text \<open>The sorted result in one lemma; the properties are read off it.\<close>

lemma resolve_result:
  assumes it: "is_iter it"
  shows "resolve_start_order it svcs = Some (Inl (MissingDependency s d)) \<longleftrightarrow> first_missing svcs s d"
    and "resolve_start_order it svcs = Some (Inl CycleDetected) \<longleftrightarrow>
      deps_known svcs \<and> \<not> (distinct (map name svcs) \<and> acyclic (dep_edges svcs))"
    and "(\<exists>order. resolve_start_order it svcs = Some (Inr order)) \<longleftrightarrow>
      deps_known svcs \<and> distinct (map name svcs) \<and> acyclic (dep_edges svcs)"
    and "resolve_start_order it svcs \<noteq> None"
proof -
  show "resolve_start_order it svcs = Some (Inl (MissingDependency s d)) \<longleftrightarrow> first_missing svcs s d"
    by (rule resolve_cases [OF it, of svcs])
      (auto simp: validate_deps_missing_iff [symmetric])
  show "resolve_start_order it svcs = Some (Inl CycleDetected) \<longleftrightarrow>
      deps_known svcs \<and> \<not> (distinct (map name svcs) \<and> acyclic (dep_edges svcs))"
    by (rule resolve_cases [OF it, of svcs])
      (auto simp: validate_deps_Some validate_deps_None [symmetric] full_order_acyclic [symmetric]
        full_order_iff loop_done dest: validate_deps_missing)
  show "(\<exists>order. resolve_start_order it svcs = Some (Inr order)) \<longleftrightarrow>
      deps_known svcs \<and> distinct (map name svcs) \<and> acyclic (dep_edges svcs)"
    by (rule resolve_cases [OF it, of svcs])
      (auto simp: validate_deps_None [symmetric] full_order_acyclic [symmetric]
        full_order_iff loop_done)
  show "resolve_start_order it svcs \<noteq> None"
    by (rule resolve_cases [OF it, of svcs]) auto
qed

section \<open>Properties\<close>

lemma order_perm:
  assumes it: "is_iter it" and ok: "resolve_start_order it svcs = Some (Inr order)"
  shows "distinct order" and "set order = svc_names svcs" and "distinct (map name svcs)"
    and "\<And>s d. s \<in> set svcs \<Longrightarrow> d \<in> set (depends_on s) \<Longrightarrow> before order d (name s)"
proof -
  from ok obtain indeg where inv: "loop_inv svcs indeg [] order" and len: "length order = length svcs"
    by (rule_tac resolve_cases [OF it, of svcs]) (auto split: if_splits)
  note done_facts = loop_done [OF inv]
  have full: "distinct (map name svcs) \<and> set order = svc_names svcs"
    using full_order_iff [OF done_facts(1,2)] len by simp
  show "distinct order" by (rule done_facts(1))
  show "set order = svc_names svcs" and "distinct (map name svcs)" using full by simp_all
  fix s d
  assume "s \<in> set svcs" and "d \<in> set (depends_on s)"
  with full show "before order d (name s)"
    by (intro done_facts(4)) (auto simp: svc_names_def all_deps_mem)
qed

text \<open>
  C6: if \<open>resolve_start_order\<close> returns an order, then for every iteration order of the hash map
  it is a permutation of the service names without repetition, and every dependency of a service
  comes before the service.
\<close>

theorem start_order_sound:
  assumes "is_iter it" and "resolve_start_order it services = Some (Inr order)"
  shows "mset order = mset (map name services) \<and> distinct order \<and>
    (\<forall>s \<in> set services. \<forall>d \<in> set (depends_on s). before order d (name s))"
proof -
  note facts = order_perm [OF assms]
  from facts(1-3) have "mset order = mset (map name services)"
    unfolding svc_names_def by (metis set_eq_iff_mset_eq_distinct)
  with facts(1,4) show ?thesis by blast
qed

definition sample_service :: "string \<Rightarrow> string list \<Rightarrow> service_def" where
  "sample_service n deps = \<lparr>name = n, binary = ''/system/bin/'' @ n, args = [],
     depends_on = deps, restart = Always\<rparr>"

theorem start_order_sound_witness:
  "mset [''egress'', ''ctxgraph'', ''cage''] =
     mset (map name [sample_service ''cage'' [''egress'', ''ctxgraph''], sample_service ''egress'' [],
       sample_service ''ctxgraph'' []]) \<and>
   before [''egress'', ''ctxgraph'', ''cage''] ''ctxgraph'' ''cage''"
proof -
  let ?s = "[sample_service ''cage'' [''egress'', ''ctxgraph''], sample_service ''egress'' [],
       sample_service ''ctxgraph'' []]"
  have "resolve_start_order id ?s = Some (Inr [''egress'', ''ctxgraph'', ''cage''])"
    by code_simp
  from start_order_sound [OF is_iter_id(1) this] show ?thesis
    by (simp add: sample_service_def)
qed

text \<open>
  C13: \<open>resolve_start_order\<close> succeeds exactly on the inputs that have a legal order: every
  dependency is the name of a service, no two services share a name, and the dependency graph
  has no cycle.
\<close>

theorem start_order_complete:
  assumes "is_iter it"
  shows "(\<exists>order. resolve_start_order it services = Some (Inr order)) \<longleftrightarrow>
    deps_known services \<and> distinct (map name services) \<and> acyclic (dep_edges services)"
  using resolve_result(3) [OF assms] .

theorem start_order_complete_witness:
  "\<not> acyclic (dep_edges [sample_service ''a'' [''b''], sample_service ''b'' [''a'']])"
proof -
  let ?s = "[sample_service ''a'' [''b''], sample_service ''b'' [''a'']]"
  have r: "resolve_start_order rev ?s = Some (Inl CycleDetected)" by code_simp
  have "deps_known ?s" "distinct (map name ?s)"
    by (simp_all add: deps_known_def svc_names_def sample_service_def)
  with start_order_complete [OF is_iter_rev, of ?s] r show ?thesis by simp
qed



end
