(* ===== verification/Config.thy ===== *)
theory Config
  imports Service
begin

text \<open>
  Model of \<open>cmd/nulld/src/config.rs\<close>: the service configuration of nulld. The TOML parser is a
  parameter that returns the \<open>[service.*]\<close> tables with the keys that are present; the serde
  attributes (required \<open>binary\<close>, defaults of the other keys), the restart policy check and the
  built-in table are the code's own and are modelled here.
\<close>

section \<open>Data\<close>

record raw_entry =
  raw_binary :: "string option"
  raw_args :: "string list option"
  raw_depends_on :: "string list option"
  raw_restart :: "string option"

record service_entry =
  e_binary :: string
  e_args :: "string list"
  e_depends_on :: "string list"
  e_restart :: string

datatype config_error =
    ReadFailed string io_error
  | ParseFailed string
  | InvalidRestart string string

definition default_config_path :: string where
  "default_config_path = ''/system/config/nulld.toml''"

definition default_restart :: string where
  "default_restart = ''always''"

section \<open>Parsing\<close>

definition deserialize_entry :: "raw_entry \<Rightarrow> string + service_entry" where
  "deserialize_entry raw =
     (case raw_binary raw of
        None \<Rightarrow> Inl ''missing field `binary`''
      | Some b \<Rightarrow>
          Inr \<lparr>e_binary = b,
               e_args = (case raw_args raw of None \<Rightarrow> [] | Some xs \<Rightarrow> xs),
               e_depends_on = (case raw_depends_on raw of None \<Rightarrow> [] | Some xs \<Rightarrow> xs),
               e_restart = (case raw_restart raw of None \<Rightarrow> default_restart | Some r \<Rightarrow> r)\<rparr>)"

fun deserialize_config ::
    "(string, raw_entry) hashmap \<Rightarrow> string + (string, service_entry) hashmap" where
  "deserialize_config [] = Inr []"
| "deserialize_config ((n, raw) # rest) =
     res_bind (deserialize_entry raw) (\<lambda>e.
     res_bind (deserialize_config rest) (\<lambda>es. Inr ((n, e) # es)))"

definition parse_restart :: "string \<Rightarrow> restart_policy option" where
  "parse_restart s =
     (if s = ''always'' then Some Always
      else if s = ''never'' then Some Never
      else if s = ''on-failure'' then Some OnFailure
      else None)"

fun to_services :: "(string \<times> service_entry) list \<Rightarrow> config_error + service_def list" where
  "to_services [] = Inr []"
| "to_services ((n, e) # rest) =
     (case parse_restart (e_restart e) of
        None \<Rightarrow> Inl (InvalidRestart n (e_restart e))
      | Some r \<Rightarrow>
          res_bind (to_services rest) (\<lambda>svcs.
            Inr (\<lparr>name = n, binary = e_binary e, args = e_args e,
                  depends_on = e_depends_on e, restart = r\<rparr> # svcs)))"

definition parse_config ::
    "(string \<Rightarrow> string + (string, raw_entry) hashmap) \<Rightarrow>
     ((string \<times> service_entry) list \<Rightarrow> (string \<times> service_entry) list) \<Rightarrow>
     string \<Rightarrow> config_error + service_def list" where
  "parse_config toml it content =
     res_bind (map_err ParseFailed (res_bind (toml content) deserialize_config))
       (\<lambda>config. to_services (it config))"

definition builtin_service :: "string \<Rightarrow> string list \<Rightarrow> service_def" where
  "builtin_service n deps = \<lparr>name = n, binary = ''/system/bin/'' @ n, args = [],
     depends_on = deps, restart = Always\<rparr>"

definition base_services :: "string list" where
  "base_services = [''egress'', ''ctxgraph'', ''warden'', ''sentinel'', ''watcher'']"

definition builtin_services :: "service_def list" where
  "builtin_services =
     [builtin_service ''egress'' [],
      builtin_service ''ctxgraph'' [],
      builtin_service ''warden'' [],
      builtin_service ''sentinel'' [],
      builtin_service ''watcher'' [],
      builtin_service ''cage'' base_services,
      builtin_service ''test-harness'' base_services,
      builtin_service ''nullweb'' (base_services @ [''cage''])]"

text \<open>\<open>file\<close> is what reading the configuration path gives: \<open>None\<close> when it does not exist.\<close>

definition load_services ::
    "(string \<Rightarrow> string + (string, raw_entry) hashmap) \<Rightarrow>
     ((string \<times> service_entry) list \<Rightarrow> (string \<times> service_entry) list) \<Rightarrow>
     (io_error + string) option \<Rightarrow> config_error + service_def list" where
  "load_services toml it file =
     (case file of
        None \<Rightarrow> Inr builtin_services
      | Some r \<Rightarrow>
          res_bind (map_err (ReadFailed default_config_path) r) (parse_config toml it))"

section \<open>Lemmas\<close>

lemma deserialize_config_keys:
  "deserialize_config raws = Inr es \<Longrightarrow> map fst es = map fst raws"
  by (induction raws arbitrary: es) (auto simp: res_bind_eq_Inr)

lemma to_services_Inr:
  "to_services es = Inr svcs \<Longrightarrow>
     map name svcs = map fst es \<and> map depends_on svcs = map (e_depends_on \<circ> snd) es \<and>
     map binary svcs = map (e_binary \<circ> snd) es \<and> map args svcs = map (e_args \<circ> snd) es \<and>
     map (Some \<circ> restart) svcs = map (parse_restart \<circ> e_restart \<circ> snd) es"
  by (induction es arbitrary: svcs rule: to_services.induct)
    (auto simp: res_bind_eq_Inr split: option.splits)

lemma to_services_ok_iff:
  "(\<exists>svcs. to_services es = Inr svcs) \<longleftrightarrow> (\<forall>(n, e) \<in> set es. parse_restart (e_restart e) \<noteq> None)"
  by (induction es rule: to_services.induct) (auto simp: res_bind_eq_Inr split: option.split)

lemma to_services_Inl:
  "to_services es = Inl err \<Longrightarrow>
     \<exists>n e. (n, e) \<in> set es \<and> err = InvalidRestart n (e_restart e) \<and> parse_restart (e_restart e) = None"
proof (induction es rule: to_services.induct)
  case 1
  then show ?case by simp
next
  case (2 n e rest)
  then show ?case
    by (cases "parse_restart (e_restart e)"; cases "to_services rest") auto
qed

lemma services_distinct:
  assumes "is_iter it" and "hm_ok raws" and "toml content = Inr raws"
    and "parse_config toml it content = Inr svcs"
  shows "distinct (map name svcs)" and "mset (map name svcs) = mset (map fst raws)"
proof -
  obtain es where es: "deserialize_config raws = Inr es" "to_services (it es) = Inr svcs"
    using assms(3,4) by (auto simp: parse_config_def res_bind_eq_Inr)
  have keys: "map name svcs = map fst (it es)" using to_services_Inr [OF es(2)] by simp
  have "hm_ok es" using assms(2) deserialize_config_keys [OF es(1)] by (simp add: hm_ok_def)
  then show "distinct (map name svcs)"
    using assms(1) by (simp add: keys hm_ok_def is_iter_distinct_map)
  have "mset (map fst (it es)) = mset (map fst es)"
    using assms(1) by (simp add: is_iter_def)
  then show "mset (map name svcs) = mset (map fst raws)"
    by (simp only: keys deserialize_config_keys [OF es(1)])
qed

lemma builtin_names: "map name builtin_services =
    base_services @ [''cage'', ''test-harness'', ''nullweb'']"
  by (simp add: builtin_services_def builtin_service_def base_services_def)

lemma builtin_deps_known: "deps_known builtin_services"
  by (simp add: deps_known_def svc_names_def builtin_services_def builtin_service_def base_services_def)

lemma builtin_acyclic: "acyclic (dep_edges builtin_services)"
  by (rule legal_order_acyclic [where order = "map name builtin_services"])
    (simp add: svc_names_def all_deps_def builtin_services_def builtin_service_def base_services_def
      before_def)

section \<open>Properties\<close>

definition entry_valid :: "raw_entry \<Rightarrow> bool" where
  "entry_valid raw \<longleftrightarrow> raw_binary raw \<noteq> None \<and>
     (raw_restart raw = None \<or> the (raw_restart raw) \<in> {''always'', ''never'', ''on-failure''})"

text \<open>The service that a table of the file stands for, written down independently of the parser.\<close>

definition service_of :: "string \<Rightarrow> raw_entry \<Rightarrow> service_def" where
  "service_of n raw =
     \<lparr>name = n, binary = the (raw_binary raw),
      args = (if raw_args raw = None then [] else the (raw_args raw)),
      depends_on = (if raw_depends_on raw = None then [] else the (raw_depends_on raw)),
      restart = (if raw_restart raw = Some ''never'' then Never
                 else if raw_restart raw = Some ''on-failure'' then OnFailure else Always)\<rparr>"

lemma parse_restart_None: "parse_restart r = None \<longleftrightarrow> r \<notin> {''always'', ''never'', ''on-failure''}"
  by (simp add: parse_restart_def)

lemma deserialize_config_Inr:
  "(\<exists>es. deserialize_config raws = Inr es) \<longleftrightarrow> (\<forall>(n, raw) \<in> set raws. raw_binary raw \<noteq> None)"
  by (induction raws) (auto simp: res_bind_eq_Inr deserialize_entry_def split: option.splits)

lemma deserialize_config_mem:
  "deserialize_config raws = Inr es \<Longrightarrow>
     set es = {(n, e). \<exists>raw. (n, raw) \<in> set raws \<and> deserialize_entry raw = Inr e}"
  by (induction raws arbitrary: es) (fastforce simp: res_bind_eq_Inr)+

lemma to_services_set:
  "to_services es = Inr svcs \<Longrightarrow>
     set svcs = {\<lparr>name = n, binary = e_binary e, args = e_args e, depends_on = e_depends_on e,
                  restart = the (parse_restart (e_restart e))\<rparr> | n e. (n, e) \<in> set es}"
proof (induction es arbitrary: svcs rule: to_services.induct)
  case 1
  then show ?case by simp
next
  case (2 n e rest)
  then obtain r rs where r: "parse_restart (e_restart e) = Some r" "to_services rest = Inr rs"
    "svcs = \<lparr>name = n, binary = e_binary e, args = e_args e, depends_on = e_depends_on e,
             restart = r\<rparr> # rs"
    by (auto simp: res_bind_eq_Inr split: option.splits)
  let ?svc = "\<lambda>n e. \<lparr>name = n, binary = e_binary e, args = e_args e, depends_on = e_depends_on e,
                  restart = the (parse_restart (e_restart e))\<rparr>"
  have "set svcs = insert (?svc n e) {?svc n e | n e. (n, e) \<in> set rest}"
    using "2.IH" [OF r(1,2)] r by simp
  also have "\<dots> = {?svc n' e' | n' e'. (n', e') \<in> set ((n, e) # rest)}"
    unfolding set_simps insert_iff by blast
  finally show ?case .
qed

lemma parse_restart_values:
  "parse_restart ''always'' = Some Always" "parse_restart ''never'' = Some Never"
  "parse_restart ''on-failure'' = Some OnFailure"
  by (simp_all add: parse_restart_def)

lemma deserialize_entry_fields:
  "deserialize_entry raw = Inr e \<Longrightarrow>
     e_binary e = the (raw_binary raw) \<and>
     e_args e = (if raw_args raw = None then [] else the (raw_args raw)) \<and>
     e_depends_on e = (if raw_depends_on raw = None then [] else the (raw_depends_on raw)) \<and>
     e_restart e = (if raw_restart raw = None then ''always'' else the (raw_restart raw))"
  by (auto simp: deserialize_entry_def default_restart_def split: option.splits)

lemma service_of_entry:
  assumes "deserialize_entry raw = Inr e" and "parse_restart (e_restart e) \<noteq> None"
  shows "service_of n raw = \<lparr>name = n, binary = e_binary e, args = e_args e,
       depends_on = e_depends_on e, restart = the (parse_restart (e_restart e))\<rparr>"
proof -
  note f = deserialize_entry_fields [OF assms(1)]
  have "e_restart e = ''always'' \<or> e_restart e = ''never'' \<or> e_restart e = ''on-failure''"
    using assms(2) parse_restart_None by auto
  then have "the (parse_restart (e_restart e)) = (if e_restart e = ''never'' then Never
      else if e_restart e = ''on-failure'' then OnFailure else Always)"
    by (elim disjE) (simp_all only: parse_restart_values option.sel, simp_all)
  moreover have "raw_restart raw = Some ''never'' \<longleftrightarrow> e_restart e = ''never''"
    "raw_restart raw = Some ''on-failure'' \<longleftrightarrow> e_restart e = ''on-failure''"
    using f by (cases "raw_restart raw"; simp)+
  ultimately show ?thesis using f by (simp add: service_of_def)
qed

lemma entry_valid_iff:
  "entry_valid raw \<longleftrightarrow>
     (\<exists>e. deserialize_entry raw = Inr e \<and> parse_restart (e_restart e) \<noteq> None)"
  by (auto simp: entry_valid_def deserialize_entry_def parse_restart_None default_restart_def
      split: option.splits)

lemma parse_config_Inr_iff:
  assumes "is_iter it" and "toml content = Inr raws"
  shows "(\<exists>svcs. parse_config toml it content = Inr svcs) \<longleftrightarrow> (\<forall>(n, raw) \<in> set raws. entry_valid raw)"
proof
  assume "\<exists>svcs. parse_config toml it content = Inr svcs"
  then obtain es where es: "deserialize_config raws = Inr es" "\<exists>svcs. to_services (it es) = Inr svcs"
    using assms(2) by (auto simp: parse_config_def res_bind_eq_Inr)
  from es(2) have valid: "\<forall>(n, e) \<in> set es. parse_restart (e_restart e) \<noteq> None"
    using assms(1) by (simp add: to_services_ok_iff is_iter_set)
  show "\<forall>(n, raw) \<in> set raws. entry_valid raw"
  proof clarify
    fix n raw assume m: "(n, raw) \<in> set raws"
    then have "raw_binary raw \<noteq> None" using es(1) deserialize_config_Inr by fastforce
    then obtain e where "deserialize_entry raw = Inr e" by (auto simp: deserialize_entry_def)
    with m deserialize_config_mem [OF es(1)] valid show "entry_valid raw"
      unfolding entry_valid_iff by blast
  qed
next
  assume v: "\<forall>(n, raw) \<in> set raws. entry_valid raw"
  then have "\<forall>(n, raw) \<in> set raws. raw_binary raw \<noteq> None" by (auto simp: entry_valid_def)
  then obtain es where es: "deserialize_config raws = Inr es" using deserialize_config_Inr by blast
  have "\<forall>(n, e) \<in> set es. parse_restart (e_restart e) \<noteq> None"
    using v deserialize_config_mem [OF es] by (fastforce simp: entry_valid_iff)
  then obtain svcs where "to_services (it es) = Inr svcs"
    using assms(1) to_services_ok_iff [of "it es"] by (auto simp: is_iter_set)
  with es assms(2) show "\<exists>svcs. parse_config toml it content = Inr svcs"
    by (simp add: parse_config_def)
qed

lemma parse_config_set:
  assumes "is_iter it" and "toml content = Inr raws" and "parse_config toml it content = Inr svcs"
  shows "set svcs = {service_of n raw | n raw. (n, raw) \<in> set raws}"
proof -
  obtain es where es: "deserialize_config raws = Inr es" "to_services (it es) = Inr svcs"
    using assms(2,3) by (auto simp: parse_config_def res_bind_eq_Inr)
  have all: "\<forall>(n, raw) \<in> set raws. entry_valid raw"
    using parse_config_Inr_iff [of it toml content raws, OF assms(1,2)] assms(3) by blast
  have "set svcs = {\<lparr>name = n, binary = e_binary e, args = e_args e, depends_on = e_depends_on e,
      restart = the (parse_restart (e_restart e))\<rparr> | n e. (n, e) \<in> set es}"
    using to_services_set [OF es(2)] assms(1) by (simp add: is_iter_set)
  also have "\<dots> = {service_of n raw | n raw. (n, raw) \<in> set raws}"
    unfolding deserialize_config_mem [OF es(1)]
  proof (intro Collect_cong iffI; clarsimp)
    fix n raw e assume "(n, raw) \<in> set raws" "deserialize_entry raw = Inr e"
    moreover from this all have "parse_restart (e_restart e) \<noteq> None"
      by (fastforce simp: entry_valid_iff)
    ultimately show "\<exists>n' raw. \<lparr>name = n, binary = e_binary e, args = e_args e, depends_on = e_depends_on e,
      restart = the (parse_restart (e_restart e))\<rparr> = service_of n' raw \<and> (n', raw) \<in> set raws"
      using service_of_entry [of raw e n] by metis
  next
    fix n raw assume m: "(n, raw) \<in> set raws"
    with all obtain e where "deserialize_entry raw = Inr e" "parse_restart (e_restart e) \<noteq> None"
      by (auto simp: entry_valid_iff)
    with m service_of_entry [of raw e n]
    show "\<exists>n' e. service_of n raw = \<lparr>name = n', binary = e_binary e, args = e_args e,
        depends_on = e_depends_on e, restart = the (parse_restart (e_restart e))\<rparr> \<and>
        (\<exists>raw. (n', raw) \<in> set raws \<and> deserialize_entry raw = Inr e)" by blast
  qed
  finally show ?thesis .
qed

text \<open>
  C15: \<open>parse_config\<close> accepts a file exactly when every service table has a \<open>binary\<close> and a restart
  policy that is absent or one of the three names; what it then returns is one service per table,
  with distinct names and the serde defaults filled in, whatever order the hash map is walked in.
\<close>

theorem parse_config_correct:
  assumes "is_iter it" and "toml content = Inr raws" and "hm_ok raws"
  shows "((\<exists>svcs. parse_config toml it content = Inr svcs) \<longleftrightarrow> (\<forall>(n, raw) \<in> set raws. entry_valid raw)) \<and>
    (\<forall>svcs. parse_config toml it content = Inr svcs \<longrightarrow>
       distinct (map name svcs) \<and> set svcs = {service_of n raw | n raw. (n, raw) \<in> set raws})"
  using parse_config_Inr_iff [of it toml content raws, OF assms(1,2)] parse_config_set [of it toml content raws, OF assms(1,2)]
    services_distinct(1) [of it raws toml content, OF assms(1,3,2)]
  by blast

definition sample_raw :: "string option \<Rightarrow> raw_entry" where
  "sample_raw r = \<lparr>raw_binary = Some ''/bin/a'', raw_args = None, raw_depends_on = Some [''b''],
     raw_restart = r\<rparr>"

theorem parse_config_correct_witness:
  "(\<nexists>svcs. parse_config (\<lambda>_. Inr [(''a'', sample_raw (Some ''sometimes''))]) rev ''x'' = Inr svcs) \<and>
   parse_config (\<lambda>_. Inr [(''a'', sample_raw None), (''b'', sample_raw (Some ''never''))]) rev ''x'' =
     Inr [service_of ''b'' (sample_raw (Some ''never'')), service_of ''a'' (sample_raw None)]"
proof
  show "\<nexists>svcs. parse_config (\<lambda>_. Inr [(''a'', sample_raw (Some ''sometimes''))]) rev ''x'' = Inr svcs"
    using parse_config_correct [of rev "\<lambda>_. Inr [(''a'', sample_raw (Some ''sometimes''))]" "''x''"
        "[(''a'', sample_raw (Some ''sometimes''))]"]
    by (simp add: hm_ok_def entry_valid_def sample_raw_def)
qed code_simp

lemma builtin_order:
  assumes "is_iter it"
  obtains order where "resolve_start_order it builtin_services = Some (Inr order)"
  using resolve_result(3) [OF assms, of builtin_services] builtin_deps_known builtin_acyclic
  by (auto simp: builtin_names base_services_def)

text \<open>
  C16: without a configuration file nulld always has a start order: for every iteration order of
  the hash map the built-in table resolves to a permutation of its eight services in which the five
  base services come before \<open>cage\<close> and \<open>test-harness\<close>, and \<open>cage\<close> before \<open>nullweb\<close>.
\<close>

theorem builtin_boot:
  assumes "is_iter it"
  shows "\<exists>order. load_services toml cit None = Inr builtin_services \<and>
    resolve_start_order it builtin_services = Some (Inr order) \<and>
    set order = set (base_services @ [''cage'', ''test-harness'', ''nullweb'']) \<and>
    length order = 8 \<and>
    (\<forall>b \<in> set base_services. before order b ''cage'' \<and> before order b ''test-harness'') \<and>
    before order ''cage'' ''nullweb''"
proof -
  obtain order where o: "resolve_start_order it builtin_services = Some (Inr order)"
    using builtin_order [OF assms] .
  note facts = order_perm [OF assms o]
  have b: "before order d (name s)"
    if "s \<in> set builtin_services" "d \<in> set (depends_on s)" for s d
    using facts(4) that .
  have s: "set order = set (base_services @ [''cage'', ''test-harness'', ''nullweb''])"
    using facts(2) by (simp only: svc_names_def builtin_names)
  have "length order = card (set order)" using facts(1) by (simp add: distinct_card)
  also have "\<dots> = 8" unfolding s by code_simp
  finally have "length order = 8" .
  moreover have "\<forall>d \<in> set base_services. before order d ''cage''"
    using b [of "builtin_service ''cage'' base_services"]
    by (auto simp: builtin_services_def builtin_service_def)
  moreover have "\<forall>d \<in> set base_services. before order d ''test-harness''"
    using b [of "builtin_service ''test-harness'' base_services"]
    by (auto simp: builtin_services_def builtin_service_def)
  moreover have "before order ''cage'' ''nullweb''"
    using b [of "builtin_service ''nullweb'' (base_services @ [''cage''])" "''cage''"]
    by (auto simp: builtin_services_def builtin_service_def)
  ultimately show ?thesis using o s by (auto simp: load_services_def)
qed

theorem builtin_boot_witness:
  "\<exists>order. resolve_start_order rev builtin_services = Some (Inr order) \<and> length order = 8"
  using builtin_boot [OF is_iter_rev, of "\<lambda>_. Inr []" id] by blast

end
