(* ===== verification/Text.thy ===== *)
theory Text
  imports Prelude
begin

text \<open>
  Strings of the Rust standard library as the components use them. A \<open>String\<close> is the list of its
  UTF-8 bytes, so \<open>len\<close> is the length of the list; comparison and prefix tests are those of byte
  lists. Decimal formatting is written out, with the lemmas that formatted numbers are injective
  and contain digits only.
\<close>

section \<open>Decimal numbers\<close>

definition digit :: "nat \<Rightarrow> char" where
  "digit d = char_of (48 + d)"

fun show_nat :: "nat \<Rightarrow> string" where
  "show_nat n = (if n < 10 then [digit n] else show_nat (n div 10) @ [digit (n mod 10)])"

declare show_nat.simps [simp del]

definition show_int :: "int \<Rightarrow> string" where
  "show_int i = (if i < 0 then CHR ''-'' # show_nat (nat (- i)) else show_nat (nat i))"

definition is_digit :: "char \<Rightarrow> bool" where
  "is_digit c \<longleftrightarrow> 48 \<le> (of_char c :: nat) \<and> (of_char c :: nat) \<le> 57"

definition digit_val :: "char \<Rightarrow> nat" where
  "digit_val c = of_char c - 48"

lemma digit_val_digit [simp]: "d < 10 \<Longrightarrow> digit_val (digit d) = d"
  by (simp add: digit_def digit_val_def)

lemma is_digit_digit [simp]: "d < 10 \<Longrightarrow> is_digit (digit d)"
  by (simp add: digit_def is_digit_def)

lemma show_nat_not_Nil [simp]: "show_nat n \<noteq> []"
  by (subst show_nat.simps) simp

lemma show_nat_digits: "c \<in> set (show_nat n) \<Longrightarrow> is_digit c"
  by (induction n rule: show_nat.induct, subst (asm) (2) show_nat.simps) (auto split: if_splits)

fun nat_of_digits :: "nat \<Rightarrow> string \<Rightarrow> nat" where
  "nat_of_digits acc [] = acc"
| "nat_of_digits acc (c # cs) = nat_of_digits (acc * 10 + digit_val c) cs"

lemma nat_of_digits_append:
  "nat_of_digits acc (xs @ ys) = nat_of_digits (nat_of_digits acc xs) ys"
  by (induction xs arbitrary: acc) auto

lemma nat_of_digits_show [simp]: "nat_of_digits 0 (show_nat n) = n"
proof (induction n rule: show_nat.induct)
  case (1 n)
  show ?case
  proof (cases "n < 10")
    case True
    then show ?thesis by (subst show_nat.simps) simp
  next
    case False
    with 1 show ?thesis
      by (subst show_nat.simps) (simp add: nat_of_digits_append div_mult_mod_eq)
  qed
qed

lemma show_nat_inject [simp]: "show_nat m = show_nat n \<longleftrightarrow> m = n"
  by (metis nat_of_digits_show)

section \<open>Prefixes, joining and splitting\<close>

definition starts_with :: "string \<Rightarrow> string \<Rightarrow> bool" where
  "starts_with s p \<longleftrightarrow> take (length p) s = p"

lemma starts_with_iff: "starts_with s p \<longleftrightarrow> (\<exists>r. s = p @ r)"
  unfolding starts_with_def by (metis append_eq_conv_conj append_take_drop_id)

lemma starts_with_append [simp]: "starts_with (p @ r) p"
  by (simp add: starts_with_def)

fun join :: "string \<Rightarrow> string list \<Rightarrow> string" where
  "join sep [] = []"
| "join sep [s] = s"
| "join sep (s # t # ts) = s @ sep @ join sep (t # ts)"

definition quote :: "string \<Rightarrow> string" where
  "quote s = [CHR 39] @ s @ [CHR 39]"

text \<open>The pieces of \<open>split\<close> at a one-byte pattern: \<open>n\<close> separators give \<open>n + 1\<close> pieces.\<close>

fun split_on :: "char \<Rightarrow> string \<Rightarrow> string list" where
  "split_on c [] = [[]]"
| "split_on c (x # xs) =
     (if x = c then [] # split_on c xs
      else (case split_on c xs of [] \<Rightarrow> [[x]] | p # ps \<Rightarrow> (x # p) # ps))"

lemma split_on_not_Nil [simp]: "split_on c s \<noteq> []"
  by (induction s) (auto split: list.split)

lemma split_on_join: "join [c] (split_on c s) = s"
proof (induction s)
  case Nil
  then show ?case by simp
next
  case (Cons x xs)
  then show ?case by (cases "split_on c xs") (auto, (cases "tl (split_on c xs)"; auto)+)
qed

lemma split_on_no_sep: "c \<notin> set s \<Longrightarrow> split_on c s = [s]"
  by (induction s) auto

lemma split_on_sep_free: "p \<in> set (split_on c s) \<Longrightarrow> c \<notin> set p"
  by (induction s arbitrary: p) (auto split: if_splits list.splits)

lemma split_on_append_sep: "c \<notin> set p \<Longrightarrow> split_on c (p @ c # s) = p # split_on c s"
  by (induction p) auto

lemma split_on_join_sep_free:
  "ps \<noteq> [] \<Longrightarrow> \<forall>p \<in> set ps. c \<notin> set p \<Longrightarrow> split_on c (join [c] ps) = ps"
  by (induction "[c]" ps rule: join.induct) (auto simp: split_on_no_sep split_on_append_sep)

text \<open>
  \<open>lines\<close>: split at newlines, without an empty last piece, a carriage return before the newline
  dropped.
\<close>

definition strip_cr :: "string \<Rightarrow> string" where
  "strip_cr s = (if s \<noteq> [] \<and> last s = CHR 13 then butlast s else s)"

definition lines_of :: "string \<Rightarrow> string list" where
  "lines_of s =
     (let ps = split_on (CHR 10) s
      in map strip_cr (butlast ps) @ (if last ps = [] then [] else [last ps]))"

section \<open>Trimming\<close>

text \<open>\<open>str::trim\<close>: the UTF-8 forms of the characters with the property White\_Space.\<close>

definition white_space :: "string list" where
  "white_space = map (map char_of)
     ([[9], [10], [11], [12], [13], [32], [194, 133], [194, 160], [225, 154, 128], [226, 128, 168],
       [226, 128, 169], [226, 128, 175], [226, 129, 159], [227, 128, 128]] @
      map (\<lambda>b. [226, 128, b]) [128..<139 :: nat])"

definition white_prefix :: "string list \<Rightarrow> string \<Rightarrow> string option" where
  "white_prefix ws s = find (starts_with s) ws"

fun strip_front :: "string list \<Rightarrow> string \<Rightarrow> string" where
  "strip_front ws [] = []"
| "strip_front ws (c # cs) =
     (case white_prefix ws (c # cs) of
        None \<Rightarrow> c # cs
      | Some w \<Rightarrow> strip_front ws (drop (length w - 1) cs))"

definition trim :: "string \<Rightarrow> string" where
  "trim s = rev (strip_front (map rev white_space) (rev (strip_front white_space s)))"

section \<open>Paths\<close>

text \<open>\<open>Path::parent\<close> and \<open>with_extension\<close> of a path with a slash and a file name.\<close>

definition after_last :: "char \<Rightarrow> string \<Rightarrow> string" where
  "after_last c s = rev (takeWhile (\<lambda>x. x \<noteq> c) (rev s))"

definition before_last :: "char \<Rightarrow> string \<Rightarrow> string" where
  "before_last c s = rev (tl (dropWhile (\<lambda>x. x \<noteq> c) (rev s)))"

definition path_parent :: "string \<Rightarrow> string" where
  "path_parent p = before_last (CHR ''/'') p"

definition file_stem :: "string \<Rightarrow> string" where
  "file_stem n = (if CHR ''.'' \<in> set (tl n) then before_last (CHR ''.'') n else n)"

definition with_extension :: "string \<Rightarrow> string \<Rightarrow> string" where
  "with_extension ext p =
     path_parent p @ ''/'' @ file_stem (after_last (CHR ''/'') p) @ ''.'' @ ext"

text \<open>\<open>Path::extension\<close> of a file name.\<close>

definition extension :: "string \<Rightarrow> string option" where
  "extension n = (if CHR ''.'' \<in> set (tl n) then Some (after_last (CHR ''.'') n) else None)"

lemma before_last_append: "c \<notin> set t \<Longrightarrow> before_last c (s @ c # t) = s"
proof -
  assume c: "c \<notin> set t"
  have "dropWhile (\<lambda>x. x \<noteq> c) (rev t @ c # rev s) = c # rev s" using c by (subst dropWhile_append2) auto
  then show ?thesis by (simp add: before_last_def)
qed

text \<open>
  The components of a path: a leading slash, then the pieces that are not empty and not a dot; a dot is
  kept only at the very front.
\<close>

definition components :: "string \<Rightarrow> string list" where
  "components s =
     (case split_on (CHR ''/'') s of
        [] \<Rightarrow> []
      | p # ps \<Rightarrow> (if p = [] then (if ps = [] then [] else [''/'']) else [p]) @ filter (\<lambda>q. q \<noteq> [] \<and> q \<noteq> ''.'') ps)"

definition file_name :: "string \<Rightarrow> string option" where
  "file_name s =
     (let cs = components s
      in if cs = [] \<or> last cs \<in> {''/'', ''.'', ''..''} then None else Some (last cs))"

lemma components_clean:
  "c \<in> set (components s) \<Longrightarrow> c = ''/'' \<or> (c \<noteq> [] \<and> CHR ''/'' \<notin> set c)"
proof -
  assume c: "c \<in> set (components s)"
  obtain p ps where sp: "split_on (CHR ''/'') s = p # ps" by (cases "split_on (CHR ''/'') s") auto
  have "CHR ''/'' \<notin> set q" if "q \<in> set (p # ps)" for q using split_on_sep_free [of q "CHR ''/''" s] that sp by simp
  with c sp show ?thesis by (auto simp: components_def split: if_splits)
qed

lemma file_name_clean:
  "file_name s = Some n \<Longrightarrow> n \<noteq> [] \<and> CHR ''/'' \<notin> set n \<and> n \<noteq> ''.'' \<and> n \<noteq> ''..''"
proof -
  assume n: "file_name s = Some n"
  then have "n \<in> set (components s)" "n \<notin> {''/'', ''.'', ''..''}"
    by (auto simp: file_name_def Let_def split: if_splits)
  with components_clean [of n s] show ?thesis by auto
qed

end
