(* ===== verification/Supervisor.thy ===== *)
theory Supervisor
  imports Config Text
begin

text \<open>
  Model of \<open>cmd/nulld/src/supervisor.rs\<close> and of the reaping in \<open>cmd/nulld/src/signal.rs\<close>: the
  process supervisor of nulld. The kernel is the record \<open>os\<close> of answers that system calls give
  (spawn, waitpid, the monotonic clock), indexed by the number of the call; \<open>world\<close> counts the calls,
  the nanoseconds slept and the processes spawned and signalled. Kernel log lines are not modelled.
  The lemmas cover the back-off arithmetic, the state invariant of every operation, the start order,
  the life cycle of a service and the bounded shutdown.
\<close>

section \<open>Data\<close>

datatype service_state = Stopped | Running | Failed | WaitingRestart

datatype exit_reason = Exited int | Signaled int

record managed =
  m_def :: service_def
  m_pid :: "u32 option"
  m_state :: service_state
  restart_count :: u32
  last_start :: "instant option"
  next_restart :: "instant option"

record supervisor =
  services :: "(string, managed) hashmap"
  start_order :: "string list"

record service_status =
  st_name :: string
  st_state :: string
  st_pid :: "u32 option"
  st_restart_count :: u32

datatype supervisor_error =
    DependencyError string
  | UnknownService string
  | SpawnFailed string io_error

text \<open>What a \<open>waitpid\<close> call returns; \<open>WaitOther\<close> is a stop, a continue or an error.\<close>

datatype wait_result = WaitExited u32 int | WaitSignaled u32 int | StillAlive | WaitOther

datatype event = Spawn string "string list" u32 | SigTerm u32 | SigKill u32

record os =
  os_spawn :: "nat \<Rightarrow> string \<Rightarrow> string list \<Rightarrow> io_error + u32"
  os_clock :: "nat \<Rightarrow> instant"
  os_wait :: "nat \<Rightarrow> u32 \<Rightarrow> wait_result"

record world =
  w_calls :: nat
  w_slept :: duration
  w_events :: "event list"

section \<open>System calls\<close>

text \<open>The clock shows what has passed by itself, \<open>os_clock\<close>, and what the process slept.\<close>

definition now :: "os \<Rightarrow> world \<Rightarrow> instant \<times> world" where
  "now os w = (os_clock os (w_calls w) + w_slept w, w\<lparr>w_calls := w_calls w + 1\<rparr>)"

definition sleep :: "duration \<Rightarrow> world \<Rightarrow> world" where
  "sleep d w = w\<lparr>w_slept := w_slept w + d\<rparr>"

definition emit :: "event \<Rightarrow> world \<Rightarrow> world" where
  "emit e w = w\<lparr>w_events := w_events w @ [e]\<rparr>"

definition waitpid :: "os \<Rightarrow> u32 \<Rightarrow> world \<Rightarrow> wait_result \<times> world" where
  "waitpid os pid w = (os_wait os (w_calls w) pid, w\<lparr>w_calls := w_calls w + 1\<rparr>)"

definition spawn_process ::
    "os \<Rightarrow> string \<Rightarrow> string list \<Rightarrow> world \<Rightarrow> (io_error + u32) \<times> world" where
  "spawn_process os bin argv w =
     (let r = os_spawn os (w_calls w) bin argv; w' = w\<lparr>w_calls := w_calls w + 1\<rparr>
      in (case r of Inl e \<Rightarrow> (Inl e, w') | Inr pid \<Rightarrow> (Inr pid, emit (Spawn bin argv pid) w')))"

section \<open>Back-off\<close>

definition max_backoff :: duration where
  "max_backoff = secs 30"

definition initial_backoff :: duration where
  "initial_backoff = secs 1"

definition main_loop_interval :: duration where
  "main_loop_interval = millis 500"

definition saturating_pow2 :: "u32 \<Rightarrow> u64" where
  "saturating_pow2 e = (if unat e < 64 then push_bit (unat e) 1 else - 1)"

definition saturating_mul :: "u64 \<Rightarrow> u64 \<Rightarrow> u64" where
  "saturating_mul a b = (if unat a * unat b < 2 ^ 64 then a * b else - 1)"

definition calculate_backoff :: "u32 \<Rightarrow> duration" where
  "calculate_backoff rc =
     (let exponent = min rc 30;
          s = saturating_mul (of_nat (initial_backoff div 1000000000)) (saturating_pow2 exponent)
      in min (secs (unat s)) max_backoff)"

section \<open>Operations\<close>

definition new_managed :: "service_def \<Rightarrow> managed" where
  "new_managed d = \<lparr>m_def = d, m_pid = None, m_state = Stopped, restart_count = 0,
     last_start = None, next_restart = None\<rparr>"

definition new_supervisor :: "service_def list \<Rightarrow> supervisor" where
  "new_supervisor defs =
     \<lparr>services = fold (\<lambda>d m. AList.update (name d) (new_managed d) m) defs [],
      start_order = []\<rparr>"

definition put :: "string \<Rightarrow> managed \<Rightarrow> supervisor \<Rightarrow> supervisor" where
  "put n svc sv = sv\<lparr>services := AList.update n svc (services sv)\<rparr>"

definition start_service ::
    "os \<Rightarrow> string \<Rightarrow> supervisor \<times> world \<Rightarrow> (supervisor_error + unit) \<times> supervisor \<times> world" where
  "start_service os n = (\<lambda>(sv, w).
     case map_of (services sv) n of
       None \<Rightarrow> (Inl (UnknownService n), sv, w)
     | Some svc \<Rightarrow>
         (case spawn_process os (binary (m_def svc)) (args (m_def svc)) w of
            (Inr pid, w1) \<Rightarrow>
              (let (t, w2) = now os w1
               in (Inr (), put n (svc\<lparr>m_pid := Some pid, m_state := Running, last_start := Some t\<rparr>) sv, w2))
          | (Inl e, w1) \<Rightarrow>
              (Inl (SpawnFailed n e), put n (svc\<lparr>m_state := Failed\<rparr>) sv, w1)))"

fun start_each ::
    "os \<Rightarrow> string list \<Rightarrow> supervisor \<times> world \<Rightarrow> (supervisor_error + unit) \<times> supervisor \<times> world" where
  "start_each os [] s = (Inr (), s)"
| "start_each os (n # ns) s =
     (case start_service os n s of
        (Inl e, s') \<Rightarrow> (Inl e, s')
      | (Inr _, s') \<Rightarrow> start_each os ns s')"

definition show_dep_error :: "dep_error \<Rightarrow> string" where
  "show_dep_error e =
     (case e of
        MissingDependency svc dep \<Rightarrow>
          ''service '' @ quote svc @ '' depends on unknown service '' @ quote dep
      | CycleDetected \<Rightarrow> ''dependency cycle detected'')"

definition show_supervisor_error :: "supervisor_error \<Rightarrow> string" where
  "show_supervisor_error e =
     (case e of
        DependencyError m \<Rightarrow> ''dependency resolution failed: '' @ m
      | UnknownService n \<Rightarrow> ''unknown service: '' @ n
      | SpawnFailed n io \<Rightarrow> ''failed to spawn '' @ quote n @ '': '' @ io)"

definition show_config_error :: "config_error \<Rightarrow> string" where
  "show_config_error e =
     (case e of
        ReadFailed path io \<Rightarrow> ''failed to read config '' @ path @ '': '' @ io
      | ParseFailed m \<Rightarrow> ''failed to parse config: '' @ m
      | InvalidRestart n v \<Rightarrow>
          ''invalid restart policy '' @ quote v @ '' for service '' @ quote n)"

text \<open>
  \<open>it\<close> is the iteration order of the service map, \<open>git\<close> that of the in-degree map of the sort. The
  outer \<open>None\<close> is a panic.
\<close>

definition start_all ::
    "((string \<times> managed) list \<Rightarrow> (string \<times> managed) list) \<Rightarrow>
     ((string \<times> nat) list \<Rightarrow> (string \<times> nat) list) \<Rightarrow> os \<Rightarrow> supervisor \<times> world \<Rightarrow>
     ((supervisor_error + unit) \<times> supervisor \<times> world) option" where
  "start_all it git os = (\<lambda>(sv, w).
     case resolve_start_order git (map (m_def \<circ> snd) (it (services sv))) of
       None \<Rightarrow> None
     | Some (Inl e) \<Rightarrow> Some (Inl (DependencyError (show_dep_error e)), sv, w)
     | Some (Inr order) \<Rightarrow> Some (start_each os order (sv\<lparr>start_order := order\<rparr>, w)))"

text \<open>
  One pass of \<open>reap_children\<close> over the answers that successive \<open>waitpid(-1, WNOHANG)\<close> calls give;
  the list ends where no child has anything to report.
\<close>

fun reap_children :: "wait_result list \<Rightarrow> (u32 \<times> exit_reason) list" where
  "reap_children [] = []"
| "reap_children (r # rs) =
     (case r of
        WaitExited pid status \<Rightarrow> (pid, Exited status) # reap_children rs
      | WaitSignaled pid sig \<Rightarrow> (pid, Signaled sig) # reap_children rs
      | StillAlive \<Rightarrow> []
      | WaitOther \<Rightarrow> [])"

definition should_restart :: "restart_policy \<Rightarrow> exit_reason \<Rightarrow> bool" where
  "should_restart p reason =
     (case p of
        Always \<Rightarrow> True
      | OnFailure \<Rightarrow> (case reason of Exited code \<Rightarrow> code \<noteq> 0 | Signaled _ \<Rightarrow> True)
      | Never \<Rightarrow> False)"

definition handle_child_exit ::
    "((string \<times> managed) list \<Rightarrow> (string \<times> managed) list) \<Rightarrow> os \<Rightarrow> u32 \<Rightarrow> exit_reason \<Rightarrow>
     supervisor \<times> world \<Rightarrow> supervisor \<times> world" where
  "handle_child_exit it os pid reason = (\<lambda>(sv, w).
     case List.find (\<lambda>(_, svc). m_pid svc = Some pid) (it (services sv)) of
       None \<Rightarrow> (sv, w)
     | Some (n, found) \<Rightarrow>
         (let svc = (the (map_of (services sv) n))\<lparr>m_pid := None\<rparr>
          in if should_restart (restart (m_def svc)) reason then
               (let (rc, w1) =
                      (case last_start svc of
                         None \<Rightarrow> (restart_count svc, w)
                       | Some started \<Rightarrow>
                           (let (t, w1) = now os w
                            in (if t - started > secs 300 then 0 else restart_count svc, w1)));
                    backoff = calculate_backoff rc;
                    (t, w2) = now os w1
                in (put n (svc\<lparr>m_state := WaitingRestart, next_restart := Some (t + backoff),
                              restart_count := rc + 1\<rparr>) sv, w2))
             else (put n (svc\<lparr>m_state := Failed\<rparr>) sv, w)))"

fun handle_exits ::
    "((string \<times> managed) list \<Rightarrow> (string \<times> managed) list) \<Rightarrow> os \<Rightarrow>
     (u32 \<times> exit_reason) list \<Rightarrow> supervisor \<times> world \<Rightarrow> supervisor \<times> world" where
  "handle_exits it os [] s = s"
| "handle_exits it os ((pid, reason) # rs) s =
     handle_exits it os rs (handle_child_exit it os pid reason s)"

definition restart_due :: "instant \<Rightarrow> managed \<Rightarrow> bool" where
  "restart_due t svc \<longleftrightarrow> m_state svc = WaitingRestart \<and>
     (case next_restart svc of None \<Rightarrow> False | Some r \<Rightarrow> r \<le> t)"

fun restart_each :: "os \<Rightarrow> string list \<Rightarrow> supervisor \<times> world \<Rightarrow> supervisor \<times> world" where
  "restart_each os [] s = s"
| "restart_each os (n # ns) s = restart_each os ns (snd (start_service os n s))"

definition process_restarts ::
    "((string \<times> managed) list \<Rightarrow> (string \<times> managed) list) \<Rightarrow> os \<Rightarrow>
     supervisor \<times> world \<Rightarrow> supervisor \<times> world" where
  "process_restarts it os = (\<lambda>(sv, w).
     let (t, w1) = now os w;
         ready = map fst (filter (\<lambda>(_, svc). restart_due t svc) (it (services sv)))
     in restart_each os ready (sv, w1))"

text \<open>\<open>format!("{:?}", state).to_lowercase()\<close>.\<close>

definition state_name :: "service_state \<Rightarrow> string" where
  "state_name s =
     (case s of Stopped \<Rightarrow> ''stopped'' | Running \<Rightarrow> ''running'' | Failed \<Rightarrow> ''failed''
      | WaitingRestart \<Rightarrow> ''waitingrestart'')"

definition status :: "supervisor \<Rightarrow> service_status list" where
  "status sv =
     List.map_filter
       (\<lambda>n. map_option
          (\<lambda>svc. \<lparr>st_name = n, st_state = state_name (m_state svc), st_pid = m_pid svc,
                   st_restart_count = restart_count svc\<rparr>)
          (map_of (services sv) n))
       (start_order sv)"

text \<open>The wait for one service: SIGKILL once the deadline has passed, else poll every 100 ms.\<close>

function stop_wait :: "os \<Rightarrow> u32 \<Rightarrow> instant \<Rightarrow> world \<Rightarrow> world" where
  "stop_wait os pid deadline w =
     (let (t, w1) = now os w
      in if deadline < t then emit (SigKill pid) w1
         else (let (r, w2) = waitpid os pid w1
               in if r = StillAlive then stop_wait os pid deadline (sleep (millis 100) w2) else w2))"
  by pat_completeness auto
termination
  by (relation "measure (\<lambda>(os, pid, deadline, w). deadline + 1 - w_slept w)")
    (auto simp: now_def waitpid_def sleep_def millis_def)

declare stop_wait.simps [simp del]

definition stop_service :: "os \<Rightarrow> string \<Rightarrow> supervisor \<times> world \<Rightarrow> supervisor \<times> world" where
  "stop_service os n = (\<lambda>(sv, w).
     case map_of (services sv) n of
       None \<Rightarrow> (sv, w)
     | Some svc \<Rightarrow>
         (case m_pid svc of
            None \<Rightarrow> (sv, w)
          | Some pid \<Rightarrow>
              (let w1 = emit (SigTerm pid) w;
                   (t, w2) = now os w1;
                   w3 = stop_wait os pid (t + secs 5) w2
               in (put n (svc\<lparr>m_pid := None, m_state := Stopped\<rparr>) sv, w3))))"

definition stop_all :: "os \<Rightarrow> supervisor \<times> world \<Rightarrow> supervisor \<times> world" where
  "stop_all os s = fold (stop_service os) (rev (start_order (fst s))) s"

section \<open>Back-off lemmas\<close>

lemma saturating_pow2_small:
  assumes "unat e < 64"
  shows "unat (saturating_pow2 e) = 2 ^ unat e"
proof -
  have "saturating_pow2 e = of_nat (2 ^ unat e)"
    using assms by (simp add: saturating_pow2_def push_bit_eq_mult)
  also have "unat \<dots> = 2 ^ unat e"
    using assms by (simp only: unsigned_of_nat) (simp add: take_bit_nat_eq_self power_strict_increasing)
  finally show ?thesis .
qed

lemma calculate_backoff_secs: "calculate_backoff rc = secs (min (2 ^ unat rc) 30)"
proof -
  let ?e = "min rc 30"
  have e: "unat ?e = min (unat rc) 30"
    by (simp add: min_def word_le_nat_alt)
  then have p: "unat (saturating_pow2 ?e) = 2 ^ min (unat rc) 30"
    by (simp add: saturating_pow2_small)
  have one: "(of_nat (initial_backoff div 1000000000) :: u64) = 1"
    by (simp add: initial_backoff_def secs_def)
  have "calculate_backoff rc = min (secs (2 ^ min (unat rc) 30)) (secs 30)"
    using power_strict_increasing [of "min (unat rc) 30" 64 "2::nat"]
    by (simp add: calculate_backoff_def Let_def one saturating_mul_def p max_backoff_def)
  also have "\<dots> = secs (min (2 ^ min (unat rc) 30) 30)"
    by (simp add: secs_def min_def)
  also have "min (2 ^ min (unat rc) 30) 30 = min (2 ^ unat rc) (30 :: nat)"
  proof (cases "unat rc \<le> 30")
    case False
    then have "(2::nat) ^ 30 \<le> 2 ^ unat rc" by (intro power_increasing) auto
    then show ?thesis by (simp add: min_def)
  qed simp
  finally show ?thesis .
qed

section \<open>Invariant\<close>

definition svc_ok :: "string \<Rightarrow> managed \<Rightarrow> bool" where
  "svc_ok n svc \<longleftrightarrow> name (m_def svc) = n \<and>
     (m_state svc = Running \<longleftrightarrow> m_pid svc \<noteq> None) \<and>
     (m_state svc = WaitingRestart \<longrightarrow> next_restart svc \<noteq> None) \<and>
     (m_pid svc \<noteq> None \<longrightarrow> last_start svc \<noteq> None)"

definition sv_inv :: "supervisor \<Rightarrow> bool" where
  "sv_inv sv \<longleftrightarrow> hm_ok (services sv) \<and> (\<forall>n svc. map_of (services sv) n = Some svc \<longrightarrow> svc_ok n svc)"

definition state_of :: "supervisor \<Rightarrow> string \<Rightarrow> service_state option" where
  "state_of sv n = map_option m_state (map_of (services sv) n)"

lemma sv_invI: "hm_ok (services sv) \<Longrightarrow> (\<And>n svc. map_of (services sv) n = Some svc \<Longrightarrow> svc_ok n svc) \<Longrightarrow> sv_inv sv"
  by (simp add: sv_inv_def)

lemma sv_inv_get: "sv_inv sv \<Longrightarrow> map_of (services sv) n = Some svc \<Longrightarrow> svc_ok n svc"
  by (simp add: sv_inv_def)

lemma put_simps [simp]:
  "map_of (services (put n svc sv)) = (map_of (services sv))(n \<mapsto> svc)"
  "hm_keys (services (put n svc sv)) = insert n (hm_keys (services sv))"
  "start_order (put n svc sv) = start_order sv"
  by (simp_all add: put_def)

lemma sv_inv_put [intro]: "sv_inv sv \<Longrightarrow> svc_ok n svc \<Longrightarrow> sv_inv (put n svc sv)"
  by (auto simp: sv_inv_def put_def)

lemma state_of_put: "state_of (put n svc sv) m = (if m = n then Some (m_state svc) else state_of sv m)"
  by (simp add: state_of_def)

lemma sv_inv_start_order [simp]: "sv_inv (sv\<lparr>start_order := xs\<rparr>) = sv_inv sv"
  by (simp add: sv_inv_def)

lemma hm_ok_new: "hm_ok m \<Longrightarrow> hm_ok (fold (\<lambda>d m. AList.update (name d) (new_managed d) m) defs m)"
  by (induction defs arbitrary: m) auto

lemma new_lookup:
  "map_of (fold (\<lambda>d m. AList.update (name d) (new_managed d) m) defs m) n = Some svc \<Longrightarrow>
     map_of m n = Some svc \<or> (\<exists>d \<in> set defs. name d = n \<and> svc = new_managed d)"
proof (induction defs arbitrary: m)
  case Nil
  then show ?case by simp
next
  case (Cons d defs)
  from Cons.prems have "map_of (fold (\<lambda>d m. AList.update (name d) (new_managed d) m) defs
    (AList.update (name d) (new_managed d) m)) n = Some svc" by simp
  from Cons.IH [OF this] show ?case by (auto split: if_splits)
qed

lemma new_supervisor_lookup:
  "map_of (services (new_supervisor defs)) n = Some svc \<Longrightarrow>
     \<exists>d \<in> set defs. name d = n \<and> svc = new_managed d"
  using new_lookup [of defs "[]" n svc] by (simp add: new_supervisor_def)

lemma sv_inv_new: "sv_inv (new_supervisor defs)"
proof (rule sv_invI)
  show "hm_ok (services (new_supervisor defs))"
    using hm_ok_new [of "[]" defs] by (simp add: new_supervisor_def)
qed (auto dest!: new_supervisor_lookup simp: svc_ok_def new_managed_def)

text \<open>One start attempt: the outcomes of \<open>start_service\<close> on a service that exists.\<close>

lemma start_service_cases:
  assumes "map_of (services sv) n = Some svc"
  obtains
    (spawned) pid t w' where "start_service os n (sv, w) =
      (Inr (), put n (svc\<lparr>m_pid := Some pid, m_state := Running, last_start := Some t\<rparr>) sv, w')"
      "w_events w' = w_events w @ [Spawn (binary (m_def svc)) (args (m_def svc)) pid]"
      "w_slept w' = w_slept w" "w_calls w \<le> w_calls w'"
  | (failed) e w' where "start_service os n (sv, w) =
      (Inl (SpawnFailed n e), put n (svc\<lparr>m_state := Failed\<rparr>) sv, w')"
      "w_events w' = w_events w" "w_slept w' = w_slept w" "w_calls w \<le> w_calls w'"
  using assms
  by (cases "os_spawn os (w_calls w) (binary (m_def svc)) (args (m_def svc))")
    (auto simp: start_service_def spawn_process_def Let_def now_def emit_def)

lemma start_service_unknown:
  "map_of (services sv) n = None \<Longrightarrow> start_service os n (sv, w) = (Inl (UnknownService n), sv, w)"
  by (simp add: start_service_def)

lemma start_service_names:
  "hm_keys (services (fst (snd (start_service os n s)))) = hm_keys (services (fst s))"
proof (cases s)
  case (Pair sv w)
  show ?thesis
  proof (cases "map_of (services sv) n")
    case None
    with Pair show ?thesis by (simp add: start_service_unknown)
  next
    case (Some svc)
    then have "n \<in> hm_keys (services sv)" by (auto simp: hm_keys_dom)
    from Some show ?thesis unfolding Pair
      by (rule start_service_cases [where os = os and w = w])
        (use \<open>n \<in> hm_keys (services sv)\<close> in \<open>simp_all add: insert_absorb\<close>)
  qed
qed

lemma start_service_order [simp]:
  "start_order (fst (snd (start_service os n s))) = start_order (fst s)"
  by (cases s) (auto simp: start_service_def Let_def split: option.split prod.split sum.split)

text \<open>A failed start keeps the invariant when the service had no process.\<close>

lemma start_service_inv:
  assumes "sv_inv (fst s)"
    and "\<And>svc. map_of (services (fst s)) n = Some svc \<Longrightarrow> m_pid svc = None"
  shows "sv_inv (fst (snd (start_service os n s)))"
proof (cases s)
  case (Pair sv w)
  show ?thesis
  proof (cases "map_of (services sv) n")
    case None
    with Pair assms show ?thesis by (simp add: start_service_unknown)
  next
    case (Some svc)
    with assms Pair have ok: "svc_ok n svc" "m_pid svc = None" "sv_inv sv"
      by (auto intro: sv_inv_get)
    show ?thesis unfolding Pair
      by (rule start_service_cases [OF Some, where os = os and w = w])
        (use ok in \<open>auto simp: svc_ok_def\<close>)
  qed
qed

lemma start_service_other:
  "m \<noteq> n \<Longrightarrow> map_of (services (fst (snd (start_service os n s)))) m = map_of (services (fst s)) m"
  by (cases s) (auto simp: start_service_def Let_def split: option.split prod.split sum.split)

section \<open>Starting everything\<close>

definition spawns :: "event list \<Rightarrow> (string \<times> string list) list" where
  "spawns es = List.map_filter (\<lambda>e. case e of Spawn b a _ \<Rightarrow> Some (b, a) | _ \<Rightarrow> None) es"

definition cmd_of :: "supervisor \<Rightarrow> string \<Rightarrow> string \<times> string list" where
  "cmd_of sv n = (binary (m_def (the (map_of (services sv) n))), args (m_def (the (map_of (services sv) n))))"

lemma spawns_append [simp]: "spawns (es @ fs) = spawns es @ spawns fs"
  by (simp add: spawns_def map_filter_def)

lemma spawns_simps [simp]:
  "spawns [] = []" "spawns (Spawn b a p # es) = (b, a) # spawns es" "spawns (SigTerm p # es) = spawns es"
  "spawns (SigKill p # es) = spawns es"
  by (simp_all add: spawns_def map_filter_def)

text \<open>The processes spawned up to the first failure, and the states the services are left in.\<close>

lemma start_each_run:
  assumes "distinct ns" and "\<And>n. n \<in> set ns \<Longrightarrow> map_of (services sv) n \<noteq> None"
  shows "\<exists>k \<le> length ns. \<exists>r sv' w'. start_each os ns (sv, w) = (r, sv', w') \<and>
    spawns (w_events w') = spawns (w_events w) @ map (cmd_of sv) (take k ns) \<and>
    (\<forall>i < k. state_of sv' (ns ! i) = Some Running) \<and>
    (\<forall>i. k < i \<and> i < length ns \<longrightarrow> map_of (services sv') (ns ! i) = map_of (services sv) (ns ! i)) \<and>
    (\<forall>n. n \<notin> set ns \<longrightarrow> map_of (services sv') n = map_of (services sv) n) \<and>
    start_order sv' = start_order sv \<and>
    (if k = length ns then r = Inr ()
     else state_of sv' (ns ! k) = Some Failed \<and> (\<exists>e. r = Inl (SpawnFailed (ns ! k) e)))"
  using assms
proof (induction ns arbitrary: sv w)
  case Nil
  show ?case by (intro exI [of _ 0] exI conjI) auto
next
  case (Cons n ns)
  then obtain svc where svc: "map_of (services sv) n = Some svc" by fastforce
  then show ?case
  proof (cases rule: start_service_cases [where os = os and w = w])
    case (failed e w1)
    let ?sv1 = "put n (svc\<lparr>m_state := Failed\<rparr>) sv"
    have "start_each os (n # ns) (sv, w) = (Inl (SpawnFailed n e), ?sv1, w1)"
      using failed(1) by simp
    moreover have "map_of (services ?sv1) ((n # ns) ! i) = map_of (services sv) ((n # ns) ! i)"
      if "0 < i" "i < length (n # ns)" for i
    proof -
      have "(n # ns) ! i \<noteq> n" using that Cons.prems(1) by (auto simp: nth_Cons')
      then show ?thesis by simp
    qed
    ultimately show ?thesis using failed(2)
      by (intro exI [of _ 0] exI [of _ "?sv1"] exI [of _ "w1"] exI conjI)
        (auto simp: state_of_put)
  next
    case (spawned pid t w1)
    let ?sv1 = "put n (svc\<lparr>m_pid := Some pid, m_state := Running, last_start := Some t\<rparr>) sv"
    have "distinct ns" and known: "map_of (services ?sv1) m \<noteq> None" if "m \<in> set ns" for m
      using Cons.prems that by auto
    then have d: "distinct ns" using Cons.prems by simp
    from Cons.IH [OF d known, of w1] obtain k r sv' w' where
      k: "k \<le> length ns" "start_each os ns (?sv1, w1) = (r, sv', w')"
        "spawns (w_events w') = spawns (w_events w1) @ map (cmd_of ?sv1) (take k ns)"
        "\<forall>i < k. state_of sv' (ns ! i) = Some Running"
        "\<forall>i. k < i \<and> i < length ns \<longrightarrow> map_of (services sv') (ns ! i) = map_of (services ?sv1) (ns ! i)"
        "\<forall>m. m \<notin> set ns \<longrightarrow> map_of (services sv') m = map_of (services ?sv1) m"
        "start_order sv' = start_order ?sv1"
        "if k = length ns then r = Inr ()
         else state_of sv' (ns ! k) = Some Failed \<and> (\<exists>e. r = Inl (SpawnFailed (ns ! k) e))" by blast
    have n: "n \<notin> set ns" using Cons.prems by simp
    have cmd: "cmd_of ?sv1 m = cmd_of sv m" for m using svc by (simp add: cmd_of_def)
    have st: "state_of sv' n = Some Running" using k(6) n by (simp add: state_of_def)
    have run: "start_each os (n # ns) (sv, w) = (r, sv', w')"
      using spawned(1) k(2) by simp
    have sp: "spawns (w_events w') = spawns (w_events w) @ map (cmd_of sv) (take (Suc k) (n # ns))"
      using k(3) spawned(2) svc by (simp add: cmd) (simp add: cmd_of_def)
    have a: "\<forall>i < Suc k. state_of sv' ((n # ns) ! i) = Some Running"
      using k(4) st by (auto simp: nth_Cons')
    have b: "\<forall>i. Suc k < i \<and> i < length (n # ns) \<longrightarrow>
        map_of (services sv') ((n # ns) ! i) = map_of (services sv) ((n # ns) ! i)"
    proof (intro allI impI)
      fix i assume i: "Suc k < i \<and> i < length (n # ns)"
      then obtain j where j: "i = Suc j" by (cases i) auto
      with i have "map_of (services sv') (ns ! j) = map_of (services ?sv1) (ns ! j)" using k(5) by auto
      moreover have "ns ! j \<noteq> n" using i j n by (metis Suc_less_eq length_Cons nth_mem)
      ultimately show "map_of (services sv') ((n # ns) ! i) = map_of (services sv) ((n # ns) ! i)"
        using j by simp
    qed
    have c: "\<forall>m. m \<notin> set (n # ns) \<longrightarrow> map_of (services sv') m = map_of (services sv) m"
      using k(6) by simp
    have dd: "start_order sv' = start_order sv" using k(7) by simp
    have e: "if Suc k = length (n # ns) then r = Inr ()
         else state_of sv' ((n # ns) ! Suc k) = Some Failed \<and> (\<exists>e. r = Inl (SpawnFailed ((n # ns) ! Suc k) e))"
      using k(8) by simp
    have "Suc k \<le> length (n # ns)" using k(1) by simp
    with run sp a b c dd e show ?thesis by blast
  qed
qed

text \<open>
  The start resolver as \<open>start_all\<close> uses it: it never panics, and an order it gives lists every
  service once, after its dependencies.
\<close>

locale start_resolver =
  fixes resolve :: "((string \<times> nat) list \<Rightarrow> (string \<times> nat) list) \<Rightarrow> service_def list \<Rightarrow>
    (dep_error + string list) option"
  assumes total: "is_iter git \<Longrightarrow> resolve git defs \<noteq> None"
    and names: "is_iter git \<Longrightarrow> resolve git defs = Some (Inr order) \<Longrightarrow>
      distinct order \<and> set order = svc_names defs"
    and deps: "is_iter git \<Longrightarrow> resolve git defs = Some (Inr order) \<Longrightarrow> d \<in> set defs \<Longrightarrow>
      dep \<in> set (depends_on d) \<Longrightarrow> before order dep (name d)"
begin

lemma prefix_closed:
  assumes "is_iter git" and "resolve git defs = Some (Inr order)"
    and "d \<in> set defs" and "name d \<in> set (take k order)" and "dep \<in> set (depends_on d)"
  shows "dep \<in> set (take k order)"
proof -
  have "before order dep (name d)" using deps assms(1-3,5) .
  then have b: "dep \<in> set (takeWhile (\<lambda>x. x \<noteq> name d) order)" by (simp add: before_def)
  have t: "takeWhile (\<lambda>x. x \<noteq> name d) (take k order @ drop k order) =
      takeWhile (\<lambda>x. x \<noteq> name d) (take k order)"
    using assms(4) by (simp add: takeWhile_append1 del: append_take_drop_id)
  then show ?thesis using b by (metis append_take_drop_id set_takeWhileD)
qed

lemma all_known:
  assumes "is_iter git" and "resolve git defs = Some (Inr order)" and "n \<in> set order"
  shows "\<exists>d \<in> set defs. name d = n"
  using names [OF assms(1,2)] assms(3) by (auto simp: svc_names_def)

end

interpretation kahn: start_resolver resolve_start_order
proof
  fix git :: "(string \<times> nat) list \<Rightarrow> (string \<times> nat) list" and defs order d dep
  assume it: "is_iter git"
  show "resolve_start_order git defs \<noteq> None" using resolve_result(4) [OF it] .
  assume o: "resolve_start_order git defs = Some (Inr order)"
  show "distinct order \<and> set order = svc_names defs" using order_perm(1,2) [OF it o] by simp
  show "d \<in> set defs \<Longrightarrow> dep \<in> set (depends_on d) \<Longrightarrow> before order dep (name d)"
    using order_perm(4) [OF it o] .
qed

lemma start_each_inv:
  assumes "distinct ns" and "sv_inv (fst s)"
    and "\<And>n svc. n \<in> set ns \<Longrightarrow> map_of (services (fst s)) n = Some svc \<Longrightarrow> m_pid svc = None"
  shows "sv_inv (fst (snd (start_each os ns s)))"
  using assms
proof (induction os ns s rule: start_each.induct)
  case (1 os s)
  then show ?case by simp
next
  case (2 os n ns s)
  have inv: "sv_inv (fst (snd (start_service os n s)))"
    using "2.prems"(2) "2.prems"(3) [of n] by (intro start_service_inv) simp_all
  obtain r s' where r: "start_service os n s = (r, s')" by (cases "start_service os n s")
  show ?case
  proof (cases r)
    case (Inl e)
    with inv r show ?thesis by simp
  next
    case (Inr u)
    have "m_pid svc = None" if m: "m \<in> set ns" and g: "map_of (services (fst s')) m = Some svc" for m svc
    proof -
      from m "2.prems"(1) have "m \<noteq> n" by auto
      with start_service_other [of m n os s] r g have "map_of (services (fst s)) m = Some svc" by simp
      with "2.prems"(3) [of m svc] m show ?thesis by simp
    qed
    with 2 inv r Inr show ?thesis by simp
  qed
qed

lemma new_supervisor_pid:
  "map_of (services (new_supervisor defs)) n = Some svc \<Longrightarrow> m_pid svc = None \<and> m_state svc = Stopped"
  by (auto dest!: new_supervisor_lookup simp: new_managed_def)

lemma new_supervisor_keys: "hm_keys (services (new_supervisor defs)) = svc_names defs"
proof -
  have "hm_keys (fold (\<lambda>d m. AList.update (name d) (new_managed d) m) defs m) = hm_keys m \<union> svc_names defs" for m
    by (induction defs arbitrary: m) (auto simp: svc_names_def)
  from this [of "[]"] show ?thesis by (simp add: new_supervisor_def hm_keys_def)
qed

definition sv_defs :: "supervisor \<Rightarrow> service_def set" where
  "sv_defs sv = (m_def \<circ> snd) ` set (services sv)"

lemma defs_names:
  assumes "sv_inv sv" and "is_iter it"
  shows "svc_names (map (m_def \<circ> snd) (it (services sv))) = hm_keys (services sv)"
proof -
  have "name (m_def svc) = n" if "(n, svc) \<in> set (services sv)" for n svc
    using assms(1) that by (auto simp: sv_inv_def svc_ok_def hm_ok_mem_iff)
  then have "(name \<circ> (m_def \<circ> snd)) ` set (services sv) = fst ` set (services sv)"
    by (force simp: image_iff)
  then show ?thesis by (simp add: svc_names_def hm_keys_def is_iter_set [OF assms(2)] image_comp)
qed

text \<open>The result of \<open>start_all\<close> from the supervisor that \<open>new\<close> made.\<close>

lemma start_all_cases:
  assumes "is_iter it" and "is_iter git"
  obtains (unresolved) e where
      "start_all it git os (sv, w) = Some (Inl (DependencyError (show_dep_error e)), sv, w)"
      "resolve_start_order git (map (m_def \<circ> snd) (it (services sv))) = Some (Inl e)"
  | (resolved) order where
      "start_all it git os (sv, w) = Some (start_each os order (sv\<lparr>start_order := order\<rparr>, w))"
      "resolve_start_order git (map (m_def \<circ> snd) (it (services sv))) = Some (Inr order)"
proof -
  obtain r where "resolve_start_order git (map (m_def \<circ> snd) (it (services sv))) = Some r"
    using kahn.total [OF assms(2)] by fastforce
  then show thesis using that by (cases r) (auto simp: start_all_def)
qed

lemma start_all_inv:
  assumes "is_iter it" and "is_iter git"
    and "start_all it git os (new_supervisor defs, w) = Some (r, s)"
  shows "sv_inv (fst s)"
proof (rule start_all_cases [OF assms(1,2), of os "new_supervisor defs" w])
  fix e assume "start_all it git os (new_supervisor defs, w) =
    Some (Inl (DependencyError (show_dep_error e)), new_supervisor defs, w)"
  with assms(3) show ?thesis using sv_inv_new by auto
next
  fix order
  assume run: "start_all it git os (new_supervisor defs, w) =
    Some (start_each os order (new_supervisor defs\<lparr>start_order := order\<rparr>, w))"
    and "resolve_start_order git (map (m_def \<circ> snd) (it (services (new_supervisor defs)))) = Some (Inr order)"
  then have "distinct order" using kahn.names [OF assms(2)] by blast
  then have "sv_inv (fst (snd (start_each os order (new_supervisor defs\<lparr>start_order := order\<rparr>, w))))"
    by (rule start_each_inv) (auto simp: sv_inv_new dest: new_supervisor_pid)
  moreover from run assms(3)
  have "(r, s) = start_each os order (new_supervisor defs\<lparr>start_order := order\<rparr>, w)" by simp
  ultimately show ?thesis by (metis snd_conv)
qed

section \<open>Exits and restarts\<close>

lemma find_running:
  assumes "sv_inv sv" and "is_iter it"
  shows "(case List.find (\<lambda>(_, svc). m_pid svc = Some pid) (it (services sv)) of
      None \<Rightarrow> \<forall>n svc. map_of (services sv) n = Some svc \<longrightarrow> m_pid svc \<noteq> Some pid
    | Some (n, svc) \<Rightarrow> map_of (services sv) n = Some svc \<and> m_pid svc = Some pid \<and> m_state svc = Running \<and>
        last_start svc \<noteq> None)"
proof (cases "List.find (\<lambda>(_, svc). m_pid svc = Some pid) (it (services sv))")
  case None
  then have "\<forall>(n, svc) \<in> set (it (services sv)). m_pid svc \<noteq> Some pid"
    by (auto simp: find_None_iff)
  then have "\<forall>(n, svc) \<in> set (services sv). m_pid svc \<noteq> Some pid"
    using assms(2) by (simp add: is_iter_set)
  with None show ?thesis by (auto dest: map_of_SomeD)
next
  case (Some x)
  then obtain n svc where x: "x = (n, svc)" "(n, svc) \<in> set (it (services sv))" "m_pid svc = Some pid"
    by (cases x) (auto simp: find_Some_iff in_set_conv_nth, metis nth_mem)
  then have "map_of (services sv) n = Some svc"
    using assms by (simp add: is_iter_set hm_ok_mem_iff sv_inv_def)
  with x Some assms(1) show ?thesis by (auto dest!: sv_inv_get simp: svc_ok_def)
qed

text \<open>What an exit does to the service that had the process, and to the others.\<close>

lemma handle_child_exit_cases:
  assumes "sv_inv sv" and "is_iter it"
  obtains (foreign) "handle_child_exit it os pid reason (sv, w) = (sv, w)"
      "\<forall>n svc. map_of (services sv) n = Some svc \<longrightarrow> m_pid svc \<noteq> Some pid"
  | (again) n svc started rc w' where "map_of (services sv) n = Some svc" "m_pid svc = Some pid"
      "m_state svc = Running" "last_start svc = Some started"
      "should_restart (restart (m_def svc)) reason"
      "handle_child_exit it os pid reason (sv, w) =
        (put n (svc\<lparr>m_pid := None, m_state := WaitingRestart,
           next_restart := Some (os_clock os (w_calls w + 1) + w_slept w + calculate_backoff rc),
           restart_count := rc + 1\<rparr>) sv, w')"
      "rc = (if os_clock os (w_calls w) + w_slept w - started > secs 300 then 0 else restart_count svc)"
      "w' = w\<lparr>w_calls := w_calls w + 2\<rparr>"
  | (gone) n svc where "map_of (services sv) n = Some svc" "m_pid svc = Some pid"
      "m_state svc = Running" "\<not> should_restart (restart (m_def svc)) reason"
      "handle_child_exit it os pid reason (sv, w) =
        (put n (svc\<lparr>m_pid := None, m_state := Failed\<rparr>) sv, w)"
proof (cases "List.find (\<lambda>(_, svc). m_pid svc = Some pid) (it (services sv))")
  case None
  then show thesis using foreign find_running [OF assms, of pid] by (simp add: handle_child_exit_def)
next
  case (Some x)
  obtain n svc where x: "x = (n, svc)" by fastforce
  with Some find_running [OF assms, of pid] have f: "map_of (services sv) n = Some svc"
    "m_pid svc = Some pid" "m_state svc = Running" "last_start svc \<noteq> None" by simp_all
  then obtain started where st: "last_start svc = Some started" by blast
  show thesis
  proof (cases "should_restart (restart (m_def svc)) reason")
    case False
    with Some x f show ?thesis by (intro gone) (auto simp: handle_child_exit_def)
  next
    case True
    with Some x f st show ?thesis
      by (intro again) (auto simp: handle_child_exit_def now_def Let_def numeral_2_eq_2)
  qed
qed

lemma handle_child_exit_inv:
  assumes "sv_inv (fst s)" and "is_iter it"
  shows "sv_inv (fst (handle_child_exit it os pid reason s))"
proof (cases s)
  case (Pair sv w)
  with assms(1) have inv: "sv_inv sv" by simp
  show ?thesis unfolding Pair
    by (rule handle_child_exit_cases [OF inv assms(2), of os pid reason w])
      (use inv in \<open>auto intro!: sv_inv_put simp: svc_ok_def dest: sv_inv_get\<close>)
qed

lemma handle_exits_inv: "is_iter it \<Longrightarrow> sv_inv (fst s) \<Longrightarrow> sv_inv (fst (handle_exits it os rs s))"
  by (induction it os rs s rule: handle_exits.induct) (auto intro: handle_child_exit_inv)

text \<open>The services that are due, in the order the map gives them.\<close>

definition due_names :: "((string \<times> managed) list \<Rightarrow> (string \<times> managed) list) \<Rightarrow> instant \<Rightarrow> supervisor \<Rightarrow> string list" where
  "due_names it t sv = map fst (filter (\<lambda>(_, svc). restart_due t svc) (it (services sv)))"

lemma due_names_distinct: "is_iter it \<Longrightarrow> sv_inv sv \<Longrightarrow> distinct (due_names it t sv)"
  by (simp add: due_names_def sv_inv_def hm_ok_def distinct_map_filter is_iter_distinct_map)

lemma due_names_mem:
  "is_iter it \<Longrightarrow> sv_inv sv \<Longrightarrow>
     n \<in> set (due_names it t sv) \<longleftrightarrow> (\<exists>svc. map_of (services sv) n = Some svc \<and> restart_due t svc)"
  by (force simp: due_names_def is_iter_set sv_inv_def hm_ok_mem_iff [symmetric])

lemma process_restarts_eq:
  "process_restarts it os (sv, w) =
     restart_each os (due_names it (fst (now os w)) sv) (sv, snd (now os w))"
  by (simp add: process_restarts_def due_names_def Let_def split: prod.split)

lemma restart_each_inv:
  assumes "distinct ns" and "sv_inv (fst s)"
    and "\<And>n svc. n \<in> set ns \<Longrightarrow> map_of (services (fst s)) n = Some svc \<Longrightarrow> m_pid svc = None"
  shows "sv_inv (fst (restart_each os ns s))"
  using assms
proof (induction os ns s rule: restart_each.induct)
  case (1 os s)
  then show ?case by simp
next
  case (2 os n ns s)
  let ?s = "snd (start_service os n s)"
  have "m_pid svc = None" if "m \<in> set ns" "map_of (services (fst ?s)) m = Some svc" for m svc
    using that "2.prems"(1,3) start_service_other [of m n os s] by (cases "m = n") auto
  with 2 show ?case by (auto intro: start_service_inv)
qed

lemma due_stopped: "sv_inv sv \<Longrightarrow> map_of (services sv) n = Some svc \<Longrightarrow> restart_due t svc \<Longrightarrow> m_pid svc = None"
  by (auto dest!: sv_inv_get simp: svc_ok_def restart_due_def)

lemma process_restarts_inv:
  assumes "is_iter it" and "sv_inv (fst s)"
  shows "sv_inv (fst (process_restarts it os s))"
proof (cases s)
  case (Pair sv w)
  with assms show ?thesis
    by (auto simp: process_restarts_eq due_names_mem intro!: restart_each_inv due_names_distinct
        dest: due_stopped)
qed

section \<open>Stopping\<close>

definition sigterms :: "event list \<Rightarrow> u32 list" where
  "sigterms es = List.map_filter (\<lambda>e. case e of SigTerm p \<Rightarrow> Some p | _ \<Rightarrow> None) es"

lemma sigterms_append [simp]: "sigterms (es @ fs) = sigterms es @ sigterms fs"
  by (simp add: sigterms_def map_filter_def)

lemma sigterms_simps [simp]:
  "sigterms [] = []" "sigterms (Spawn b a p # es) = sigterms es"
  "sigterms (SigTerm p # es) = p # sigterms es" "sigterms (SigKill p # es) = sigterms es"
  by (simp_all add: sigterms_def map_filter_def)

text \<open>The wait ends within one poll interval of the deadline; SIGKILL is sent only after it.\<close>

lemma stop_wait_spec:
  assumes "mono (os_clock os)" and "c \<le> os_clock os (w_calls w)"
    and "c + w_slept w \<le> deadline + millis 100"
  shows "c + w_slept (stop_wait os pid deadline w) \<le> deadline + millis 100 \<and>
    w_slept w \<le> w_slept (stop_wait os pid deadline w) \<and>
    w_calls w \<le> w_calls (stop_wait os pid deadline w) \<and>
    (w_events (stop_wait os pid deadline w) = w_events w @ [SigKill pid] \<and>
       (\<exists>i < w_calls (stop_wait os pid deadline w).
          deadline < os_clock os i + w_slept (stop_wait os pid deadline w)) \<or>
     w_events (stop_wait os pid deadline w) = w_events w \<and>
       (\<exists>i < w_calls (stop_wait os pid deadline w). w_calls w \<le> i \<and> os_wait os i pid \<noteq> StillAlive))"
  using assms
proof (induction os pid deadline w rule: stop_wait.induct)
  case (1 os pid deadline w)
  let ?w2 = "w\<lparr>w_calls := Suc (Suc (w_calls w))\<rparr>"
  let ?t = "os_clock os (w_calls w) + w_slept w"
  let ?r = "os_wait os (w_calls w + 1) pid"
  let ?w3 = "sleep (millis 100) ?w2"
  have step: "stop_wait os pid deadline w =
     (if deadline < ?t then emit (SigKill pid) (w\<lparr>w_calls := w_calls w + 1\<rparr>)
      else if ?r = StillAlive then stop_wait os pid deadline ?w3 else ?w2)"
    by (subst stop_wait.simps) (simp add: now_def waitpid_def Let_def)
  consider (late) "deadline < ?t" | (again) "\<not> deadline < ?t" "?r = StillAlive"
    | (over) "\<not> deadline < ?t" "?r \<noteq> StillAlive" by blast
  then show ?case
  proof cases
    case late
    then show ?thesis using "1.prems" by (auto simp: step emit_def)
  next
    case over
    then show ?thesis using "1.prems" by (auto simp: step intro!: exI [of _ "w_calls w + 1"])
  next
    case again
    have "os_clock os (w_calls w) \<le> os_clock os (w_calls ?w3)"
      using "1.prems"(1) by (simp add: monoD sleep_def)
    then have p: "c \<le> os_clock os (w_calls ?w3)" using "1.prems"(2) by simp
    have q: "c + w_slept ?w3 \<le> deadline + millis 100"
      using again(1) "1.prems"(2) by (simp add: sleep_def)
    have w3: "w_slept w \<le> w_slept ?w3" "w_calls w \<le> w_calls ?w3" "w_events ?w3 = w_events w"
      by (simp_all add: sleep_def)
    from "1.IH" [OF refl prod.collapse _ refl prod.collapse _ "1.prems"(1)] again p q
    have ih: "c + w_slept (stop_wait os pid deadline ?w3) \<le> deadline + millis 100 \<and>
      w_slept ?w3 \<le> w_slept (stop_wait os pid deadline ?w3) \<and>
      w_calls ?w3 \<le> w_calls (stop_wait os pid deadline ?w3) \<and>
      (w_events (stop_wait os pid deadline ?w3) = w_events ?w3 @ [SigKill pid] \<and>
         (\<exists>i < w_calls (stop_wait os pid deadline ?w3).
            deadline < os_clock os i + w_slept (stop_wait os pid deadline ?w3)) \<or>
       w_events (stop_wait os pid deadline ?w3) = w_events ?w3 \<and>
         (\<exists>i < w_calls (stop_wait os pid deadline ?w3). w_calls ?w3 \<le> i \<and> os_wait os i pid \<noteq> StillAlive))"
      by (simp add: now_def waitpid_def)
    with again w3 have "stop_wait os pid deadline w = stop_wait os pid deadline ?w3" by (simp add: step)
    with ih w3 show ?thesis by (metis (no_types, lifting) le_trans)
  qed
qed

definition stopped :: "managed \<Rightarrow> managed" where
  "stopped svc = (if m_pid svc = None then svc else svc\<lparr>m_pid := None, m_state := Stopped\<rparr>)"

definition pid_of :: "supervisor \<Rightarrow> string \<Rightarrow> u32 option" where
  "pid_of sv n = Option.bind (map_of (services sv) n) m_pid"

lemma stop_service_spec:
  assumes "mono (os_clock os)" and "stop_service os n (sv, w) = (sv', w')"
  shows "map_of (services sv') = (map_of (services sv))(n := map_option stopped (map_of (services sv) n))"
    and "sigterms (w_events w') = sigterms (w_events w) @ (case pid_of sv n of None \<Rightarrow> [] | Some p \<Rightarrow> [p])"
    and "w_slept w' \<le> w_slept w + secs 5 + millis 100"
    and "start_order sv' = start_order sv"
    and "hm_ok (services sv) \<Longrightarrow> hm_ok (services sv')"
proof -
  let ?stop = "\<lambda>p. stop_wait os p (os_clock os (w_calls w) + w_slept w + secs 5)
      ((emit (SigTerm p) w)\<lparr>w_calls := w_calls w + 1\<rparr>)"
  have spec: "w_slept (?stop p) \<le> w_slept w + secs 5 + millis 100"
    "sigterms (w_events (?stop p)) = sigterms (w_events w) @ [p]" for p
    using stop_wait_spec [OF assms(1), of "os_clock os (w_calls w)"
        "(emit (SigTerm p) w)\<lparr>w_calls := w_calls w + 1\<rparr>"
        "os_clock os (w_calls w) + w_slept w + secs 5" p] assms(1)
    by (auto simp: emit_def monoD)
  consider (none) "map_of (services sv) n = None"
    | (idle) svc where "map_of (services sv) n = Some svc" "m_pid svc = None"
    | (live) svc p where "map_of (services sv) n = Some svc" "m_pid svc = Some p"
    by (cases "map_of (services sv) n") auto
  then show "map_of (services sv') = (map_of (services sv))(n := map_option stopped (map_of (services sv) n))"
    and "sigterms (w_events w') = sigterms (w_events w) @ (case pid_of sv n of None \<Rightarrow> [] | Some p \<Rightarrow> [p])"
    and "w_slept w' \<le> w_slept w + secs 5 + millis 100"
    and "start_order sv' = start_order sv"
    and "hm_ok (services sv) \<Longrightarrow> hm_ok (services sv')"
    using assms(2) spec
    by (cases; force simp: stop_service_def stopped_def pid_of_def Let_def now_def emit_def put_def)+
qed

lemma stop_each_spec:
  assumes "mono (os_clock os)" and "distinct ns" and "fold (stop_service os) ns (sv, w) = (sv', w')"
  shows "map_of (services sv') n =
      (if n \<in> set ns then map_option stopped (map_of (services sv) n) else map_of (services sv) n) \<and>
    sigterms (w_events w') = sigterms (w_events w) @ List.map_filter (pid_of sv) ns \<and>
    w_slept w' \<le> w_slept w + length ns * (secs 5 + millis 100) \<and>
    start_order sv' = start_order sv \<and> (hm_ok (services sv) \<longrightarrow> hm_ok (services sv'))"
  using assms(2,3)
proof (induction ns arbitrary: sv w)
  case Nil
  then show ?case by (simp add: map_filter_def)
next
  case (Cons m ns)
  obtain sv1 w1 where st: "stop_service os m (sv, w) = (sv1, w1)"
    by (cases "stop_service os m (sv, w)")
  note spec = stop_service_spec [OF assms(1) st]
  from Cons.prems st have d: "distinct ns" "m \<notin> set ns"
    and f: "fold (stop_service os) ns (sv1, w1) = (sv', w')" by auto
  note ih = Cons.IH [OF d(1) f]
  have "List.map_filter (pid_of sv1) ns = List.map_filter (pid_of sv) ns"
    using d(2) spec(1) by (auto simp: map_filter_def pid_of_def intro!: map_cong filter_cong)
  with ih spec d(2) show ?case
    by (auto simp: map_filter_simps split: option.split)
qed

lemma stopped_ok: "svc_ok n svc \<Longrightarrow> svc_ok n (stopped svc)"
  by (auto simp: svc_ok_def stopped_def)

lemma stop_service_inv:
  assumes "sv_inv (fst s)"
  shows "sv_inv (fst (stop_service os n s))"
  using assms
  by (cases s) (auto simp: stop_service_def Let_def svc_ok_def split: option.split prod.split
    intro!: sv_inv_put dest: sv_inv_get)

lemma stop_all_inv: "sv_inv (fst s) \<Longrightarrow> sv_inv (fst (stop_all os s))"
proof -
  have "sv_inv (fst s) \<Longrightarrow> sv_inv (fst (fold (stop_service os) ns s))" for ns
    by (induction ns arbitrary: s) (simp_all add: stop_service_inv)
  then show "sv_inv (fst s) \<Longrightarrow> sv_inv (fst (stop_all os s))" by (simp add: stop_all_def)
qed

section \<open>Reachable supervisors and the life cycle\<close>

text \<open>The operations that the main loop and the shutdown perform after the start.\<close>

inductive sv_step ::
    "((string \<times> managed) list \<Rightarrow> (string \<times> managed) list) \<Rightarrow> os \<Rightarrow>
     supervisor \<times> world \<Rightarrow> supervisor \<times> world \<Rightarrow> bool" for it os where
  Exit: "sv_step it os s (handle_child_exit it os pid reason s)"
| Restarts: "sv_step it os s (process_restarts it os s)"
| Sleep: "sv_step it os (sv, w) (sv, sleep d w)"
| Stop: "sv_step it os s (stop_service os n s)"

inductive_cases sv_stepE: "sv_step it os s s'"

inductive reachable ::
    "((string \<times> managed) list \<Rightarrow> (string \<times> managed) list) \<Rightarrow>
     ((string \<times> nat) list \<Rightarrow> (string \<times> nat) list) \<Rightarrow> os \<Rightarrow> service_def list \<Rightarrow>
     supervisor \<times> world \<Rightarrow> bool" for it git os defs where
  Boot: "start_all it git os (new_supervisor defs, w) = Some (r, s) \<Longrightarrow> reachable it git os defs s"
| Step: "reachable it git os defs s \<Longrightarrow> sv_step it os s s' \<Longrightarrow> reachable it git os defs s'"

inductive life :: "service_state \<Rightarrow> service_state \<Rightarrow> bool" where
  started: "life Stopped Running"
| broken: "life Stopped Failed"
| crashed: "life Running WaitingRestart"
| given_up: "life Running Failed"
| restarted: "life WaitingRestart Running"
| unstartable: "life WaitingRestart Failed"
| stopped: "life Running Stopped"

inductive_simps life_from: "life Failed b" "life Stopped b" "life Running b" "life WaitingRestart b"

definition life_keeps :: "supervisor \<Rightarrow> supervisor \<Rightarrow> bool" where
  "life_keeps sv sv' \<longleftrightarrow> (\<forall>n. rel_option (\<lambda>a b. a = b \<or> life a b) (state_of sv n) (state_of sv' n))"

lemma sv_step_inv: "sv_step it os s s' \<Longrightarrow> is_iter it \<Longrightarrow> sv_inv (fst s) \<Longrightarrow> sv_inv (fst s')"
  by (induction rule: sv_step.induct)
    (auto intro: handle_child_exit_inv process_restarts_inv stop_service_inv)

lemma reachable_inv:
  "reachable it git os defs s \<Longrightarrow> is_iter it \<Longrightarrow> is_iter git \<Longrightarrow> sv_inv (fst s)"
  by (induction rule: reachable.induct) (auto intro: start_all_inv sv_step_inv)

lemma life_keeps_refl [simp]: "life_keeps sv sv"
  by (simp add: life_keeps_def option.rel_refl)

lemma life_keeps_put:
  assumes "map_of (services sv) n = Some old"
    and "m_state old = m_state svc \<or> life (m_state old) (m_state svc)"
  shows "life_keeps sv (put n svc sv)"
  using assms by (auto simp: life_keeps_def state_of_def option.rel_refl)

lemma restart_each_state:
  assumes "distinct ns"
    and "\<And>n. n \<in> set ns \<Longrightarrow> \<exists>svc. map_of (services (fst s)) n = Some svc \<and> m_state svc = WaitingRestart"
  shows "if n \<in> set ns then state_of (fst (restart_each os ns s)) n \<in> {Some Running, Some Failed}
    else map_of (services (fst (restart_each os ns s))) n = map_of (services (fst s)) n"
  using assms
proof (induction os ns s rule: restart_each.induct)
  case (1 os s)
  then show ?case by simp
next
  case (2 os m ns s)
  let ?s = "snd (start_service os m s)"
  have known: "\<exists>svc. map_of (services (fst ?s)) k = Some svc \<and> m_state svc = WaitingRestart"
    if "k \<in> set ns" for k
  proof -
    from that "2.prems"(1) have "k \<noteq> m" by auto
    with "2.prems"(2) [of k] that show ?thesis by (simp add: start_service_other)
  qed
  have d: "distinct ns" "m \<notin> set ns" using "2.prems"(1) by simp_all
  note ih = "2.IH" [OF d(1) known]
  show ?case
  proof (cases "n = m")
    case False
    with ih d show ?thesis by (cases "n \<in> set ns") (simp_all add: start_service_other)
  next
    case True
    obtain sv w where s: "s = (sv, w)" by (cases s)
    obtain svc where svc: "map_of (services sv) m = Some svc"
      using "2.prems"(2) [of m] s by auto
    have "state_of (fst ?s) m \<in> {Some Running, Some Failed}"
      unfolding s
      by (rule start_service_cases [OF svc, where os = os and w = w]) (simp_all add: state_of_def)
    moreover have "map_of (services (fst (restart_each os ns ?s))) m = map_of (services (fst ?s)) m"
      using ih d(2) True by simp
    ultimately show ?thesis using True by (simp add: state_of_def)
  qed
qed

lemma process_restarts_state:
  assumes "is_iter it" and "sv_inv sv"
  shows "if \<exists>svc. map_of (services sv) n = Some svc \<and> restart_due (fst (now os w)) svc
    then state_of (fst (process_restarts it os (sv, w))) n \<in> {Some Running, Some Failed}
    else map_of (services (fst (process_restarts it os (sv, w)))) n = map_of (services sv) n"
proof -
  let ?ns = "due_names it (fst (now os w)) sv"
  have "\<exists>svc. map_of (services sv) m = Some svc \<and> m_state svc = WaitingRestart" if "m \<in> set ?ns" for m
    using that due_names_mem [OF assms] by (auto simp: restart_due_def)
  then have "if n \<in> set ?ns then state_of (fst (restart_each os ?ns (sv, snd (now os w)))) n \<in> {Some Running, Some Failed}
    else map_of (services (fst (restart_each os ?ns (sv, snd (now os w))))) n = map_of (services sv) n"
    using restart_each_state [OF due_names_distinct [OF assms], of "fst (now os w)" "(sv, snd (now os w))" n os]
    unfolding fst_conv by blast
  then show ?thesis by (simp only: process_restarts_eq due_names_mem [OF assms])
qed

lemma process_restarts_life:
  assumes "is_iter it" and "sv_inv (fst s)"
  shows "life_keeps (fst s) (fst (process_restarts it os s))"
proof (cases s)
  case (Pair sv w)
  show ?thesis unfolding life_keeps_def
  proof
    fix n
    show "rel_option (\<lambda>a b. a = b \<or> life a b) (state_of (fst s) n) (state_of (fst (process_restarts it os s)) n)"
    proof (cases "\<exists>svc. map_of (services sv) n = Some svc \<and> restart_due (fst (now os w)) svc")
      case True
      then have "state_of sv n = Some WaitingRestart" by (auto simp: state_of_def restart_due_def)
      with True process_restarts_state [OF assms(1), of sv n os w] assms(2) Pair show ?thesis
        by (auto simp: life_from)
    next
      case False
      with process_restarts_state [OF assms(1), of sv n os w] assms(2) Pair
      have "map_of (services (fst (process_restarts it os s))) n = map_of (services sv) n" by auto
      with Pair show ?thesis by (simp add: state_of_def option.rel_refl)
    qed
  qed
qed

lemma stop_service_life:
  assumes "sv_inv (fst s)"
  shows "life_keeps (fst s) (fst (stop_service os n s))"
  using assms
  by (cases s) (auto simp: stop_service_def Let_def svc_ok_def life_from split: option.split prod.split
    intro!: life_keeps_put dest: sv_inv_get)

lemma handle_child_exit_life:
  assumes "sv_inv (fst s)" and "is_iter it"
  shows "life_keeps (fst s) (fst (handle_child_exit it os pid reason s))"
proof (cases s)
  case (Pair sv w)
  with assms(1) have inv: "sv_inv sv" by simp
  show ?thesis unfolding Pair
    by (rule handle_child_exit_cases [OF inv assms(2), of os pid reason w])
      (auto intro!: life_keeps_put simp: life_from)
qed

lemma sv_step_life:
  "sv_step it os s s' \<Longrightarrow> is_iter it \<Longrightarrow> sv_inv (fst s) \<Longrightarrow> life_keeps (fst s) (fst s')"
  by (induction rule: sv_step.induct)
    (auto intro: handle_child_exit_life process_restarts_life stop_service_life)

section \<open>Properties\<close>

text \<open>A kernel for the examples: every spawn succeeds, each call takes a nanosecond, no child ever ends.\<close>

definition sample_os :: os where
  "sample_os = \<lparr>os_spawn = (\<lambda>i b a. Inr (of_nat i + 100)), os_clock = (\<lambda>i. i),
     os_wait = (\<lambda>i p. StillAlive)\<rparr>"

definition sample_world :: world where
  "sample_world = \<lparr>w_calls = 0, w_slept = 0, w_events = []\<rparr>"

definition sample_defs :: "service_def list" where
  "sample_defs = [sample_service ''cage'' [''egress''], sample_service ''egress'' []]"

definition sample_running :: "string \<Rightarrow> string list \<Rightarrow> u32 \<Rightarrow> instant \<Rightarrow> managed" where
  "sample_running n deps pid t = \<lparr>m_def = sample_service n deps, m_pid = Some pid, m_state = Running,
     restart_count = 0, last_start = Some t, next_restart = None\<rparr>"

definition sample_sv :: supervisor where
  "sample_sv = \<lparr>services = [(''cage'', sample_running ''cage'' [''egress''] 102 3),
     (''egress'', sample_running ''egress'' [] 100 1)], start_order = [''egress'', ''cage'']\<rparr>"

definition sample_w1 :: world where
  "sample_w1 = \<lparr>w_calls = 4, w_slept = 0,
     w_events = [Spawn ''/system/bin/egress'' [] 100, Spawn ''/system/bin/cage'' [] 102]\<rparr>"

lemma sample_boot:
  "start_all id id sample_os (new_supervisor sample_defs, sample_world) =
     Some (Inr (), sample_sv, sample_w1)"
  by code_simp

lemma sample_reachable: "reachable id id sample_os sample_defs (sample_sv, sample_w1)"
  using sample_boot by (rule reachable.Boot)

lemma sample_mono: "mono (os_clock sample_os)"
  by (simp add: sample_os_def mono_def)

text \<open>
  C17: the restart delay is \<open>min (2 ^ n, 30)\<close> seconds for every 32-bit restart count \<open>n\<close>: the clamped
  exponent and the saturating 64-bit multiplication never distort it, it lies between one second and
  the maximum, and it never shrinks as the count grows.
\<close>

theorem backoff_correct:
  "calculate_backoff rc = secs (min (2 ^ unat rc) 30) \<and>
   initial_backoff \<le> calculate_backoff rc \<and> calculate_backoff rc \<le> max_backoff \<and>
   calculate_backoff (min rc rc') \<le> calculate_backoff (max rc rc')"
proof -
  have mono: "calculate_backoff a \<le> calculate_backoff b" if "unat a \<le> unat b" for a b
  proof -
    have "(2::nat) ^ unat a \<le> 2 ^ unat b" using that by (simp add: power_increasing)
    then have "min (2 ^ unat a) 30 \<le> min (2 ^ unat b) (30::nat)" by (rule min.mono) simp
    then show ?thesis by (simp add: calculate_backoff_secs secs_def)
  qed
  have "unat (min rc rc') \<le> unat (max rc rc')"
    by (auto simp: min_def max_def word_le_nat_alt)
  then have "calculate_backoff (min rc rc') \<le> calculate_backoff (max rc rc')" by (rule mono)
  moreover have "(1::nat) \<le> 2 ^ unat rc" by simp
  ultimately show ?thesis
    by (simp add: calculate_backoff_secs initial_backoff_def max_backoff_def secs_def min_def)
qed

text \<open>
  C18: in every supervisor that nulld can reach, the service map has no duplicate names, a service is
  \<open>Running\<close> exactly when it has a process, a service waiting for a restart has a restart time, and a
  running service has a start time (so \<open>handle_child_exit\<close> always finds the one it compares with).
\<close>

theorem supervisor_invariant:
  assumes "is_iter it" and "is_iter git" and "reachable it git os defs (sv, w)"
  shows "hm_ok (services sv) \<and>
    (\<forall>n svc. map_of (services sv) n = Some svc \<longrightarrow>
       name (m_def svc) = n \<and> (m_state svc = Running \<longleftrightarrow> m_pid svc \<noteq> None) \<and>
       (m_state svc = WaitingRestart \<longrightarrow> next_restart svc \<noteq> None) \<and>
       (m_pid svc \<noteq> None \<longrightarrow> last_start svc \<noteq> None))"
  using reachable_inv [OF assms(3,1,2)] by (auto simp: sv_inv_def svc_ok_def)

theorem supervisor_invariant_witness:
  "m_pid (sample_running ''cage'' [''egress''] 102 3) \<noteq> None"
proof -
  have "map_of (services sample_sv) ''cage'' = Some (sample_running ''cage'' [''egress''] 102 3)"
    by (simp add: sample_sv_def)
  moreover have "m_state (sample_running ''cage'' [''egress''] 102 3) = Running"
    by (simp add: sample_running_def)
  ultimately show ?thesis
    using supervisor_invariant [OF is_iter_id(1) is_iter_id(1) sample_reachable] by blast
qed

text \<open>
  C19: refinement of the service life cycle. Whatever exits, restarts, sleeps and stops follow the
  start, every single operation moves each service along at most one edge of \<open>life\<close>, no service
  appears or disappears, and \<open>Failed\<close> is final: no later sequence of operations leaves it, whatever
  the restart policy is.
\<close>

theorem supervisor_life_cycle:
  assumes "is_iter it" and "is_iter git" and "reachable it git os defs s" and "sv_step it os s s'"
  shows "life_keeps (fst s) (fst s') \<and>
    (\<forall>s'' n. (sv_step it os)\<^sup>*\<^sup>* s' s'' \<and> state_of (fst s') n = Some Failed \<longrightarrow>
       state_of (fst s'') n = Some Failed)"
proof -
  have r: "reachable it git os defs s'" using assms(3,4) by (rule reachable.Step)
  have "state_of (fst s'') n = Some Failed \<and> reachable it git os defs s''"
    if "(sv_step it os)\<^sup>*\<^sup>* s' s''" "state_of (fst s') n = Some Failed" for s'' n
    using that(1)
  proof (induction rule: rtranclp_induct)
    case base
    then show ?case using that(2) r by simp
  next
    case (step a b)
    then have "life_keeps (fst a) (fst b)"
      using sv_step_life assms(1,2) reachable_inv by blast
    then have "rel_option (\<lambda>a b. a = b \<or> life a b) (state_of (fst a) n) (state_of (fst b) n)"
      by (simp add: life_keeps_def)
    with step have "state_of (fst b) n = Some Failed" by (auto simp: option_rel_Some1 life_from)
    with step show ?case by (auto intro: reachable.Step)
  qed
  then show ?thesis
    using sv_step_life [OF assms(4,1)] reachable_inv [OF assms(3,1,2)] by blast
qed

theorem supervisor_life_cycle_witness:
  "life_keeps sample_sv (fst (handle_child_exit id sample_os 102 (Exited 1) (sample_sv, sample_w1)))"
  using supervisor_life_cycle [OF is_iter_id(1) is_iter_id(1) sample_reachable sv_step.Exit]
  by auto



lemma set_deps: "d \<in> set (all_deps svcs n) \<longleftrightarrow> (\<exists>s \<in> set svcs. name s = n \<and> d \<in> set (depends_on s))"
  by (auto simp: all_deps_def)

lemma resolvable_perm:
  assumes "set xs = set ys"
  shows "deps_known xs = deps_known ys" and "dep_edges xs = dep_edges ys" and "svc_names xs = svc_names ys"
  using assms by (auto simp: deps_known_def dep_edges_def svc_names_def set_deps)

lemma new_services:
  assumes "distinct (map name defs)"
  shows "services (new_supervisor defs) = map (\<lambda>d. (name d, new_managed d)) defs"
proof -
  have "AList.update k v m = m @ [(k, v)]" if "k \<notin> fst ` set m" for k :: string and v :: managed and m
    using that by (induction m) auto
  then have "distinct (map fst m @ map name defs) \<Longrightarrow>
      fold (\<lambda>d m. AList.update (name d) (new_managed d) m) defs m = m @ map (\<lambda>d. (name d, new_managed d)) defs" for m
    by (induction defs arbitrary: m) auto
  from this [of "[]"] assms show ?thesis by (simp add: new_supervisor_def)
qed

lemma new_lookup_distinct:
  "distinct (map name defs) \<Longrightarrow> d \<in> set defs \<Longrightarrow>
     map_of (services (new_supervisor defs)) (name d) = Some (new_managed d)"
  by (rule map_of_is_SomeI) (auto simp: new_services comp_def)

text \<open>The services of a fresh supervisor are sorted: the order is legal and names each of them once.\<close>

lemma new_supervisor_sorted:
  assumes "is_iter it" and "is_iter git" and "deps_known defs" and "distinct (map name defs)"
    and "acyclic (dep_edges defs)"
  obtains order where
    "start_all it git os (new_supervisor defs, w) =
       Some (start_each os order ((new_supervisor defs)\<lparr>start_order := order\<rparr>, w))"
    "distinct order" "set order = svc_names defs"
    "\<forall>d \<in> set defs. \<forall>dep \<in> set (depends_on d). before order dep (name d)"
proof -
  let ?new = "new_supervisor defs" and ?ds = "map (m_def \<circ> snd) (it (services (new_supervisor defs)))"
  have svs: "services ?new = map (\<lambda>d. (name d, new_managed d)) defs"
    using assms(4) by (rule new_services)
  have ds: "set ?ds = set defs"
    by (simp add: svs is_iter_set [OF assms(1)] image_image new_managed_def)
  have "map (name \<circ> (m_def \<circ> snd)) (services ?new) = map name defs"
    by (simp add: svs new_managed_def comp_def)
  then have "distinct (map name ?ds)"
    using assms(4) is_iter_distinct_map [OF assms(1), of "name \<circ> (m_def \<circ> snd)" "services ?new"] by simp
  then obtain order where o: "resolve_start_order git ?ds = Some (Inr order)"
    using resolve_result(3) [OF assms(2), of ?ds] assms(3,5) resolvable_perm [OF ds] by auto
  note facts = kahn.names [OF assms(2) o]
  show thesis
  proof (rule that)
    show "start_all it git os (?new, w) = Some (start_each os order (?new\<lparr>start_order := order\<rparr>, w))"
      using o by (simp add: start_all_def)
    show "distinct order" "set order = svc_names defs" using facts resolvable_perm(3) [OF ds] by simp_all
    show "\<forall>d \<in> set defs. \<forall>dep \<in> set (depends_on d). before order dep (name d)"
      using kahn.deps [OF assms(2) o] ds by blast
  qed
qed

text \<open>
  C20: when the definitions have a legal order, \<open>start_all\<close> on a new supervisor spawns the services of a
  prefix of such an order, each after all its dependencies are running, with the command of its
  definition. Either the prefix is everything, the result is \<open>Ok\<close> and every service runs; or the next
  service failed to spawn, the result is its error, and the services after it are never attempted.
\<close>

theorem start_all_order:
  assumes "is_iter it" and "is_iter git" and "deps_known defs" and "distinct (map name defs)"
    and "acyclic (dep_edges defs)"
  shows "\<exists>order k r sv' w'. start_all it git os (new_supervisor defs, w) = Some (r, sv', w') \<and>
    start_order sv' = order \<and> distinct order \<and> set order = svc_names defs \<and> k \<le> length order \<and>
    (\<forall>d \<in> set defs. \<forall>dep \<in> set (depends_on d). before order dep (name d)) \<and>
    spawns (w_events w') = spawns (w_events w) @ map (cmd_of (new_supervisor defs)) (take k order) \<and>
    (\<forall>n \<in> set (take k order). state_of sv' n = Some Running) \<and>
    (if k = length order then r = Inr ()
     else (\<exists>e. r = Inl (SpawnFailed (order ! k) e)) \<and> state_of sv' (order ! k) = Some Failed \<and>
       (\<forall>n \<in> set (drop (Suc k) order). state_of sv' n = Some Stopped))"
proof -
  let ?new = "new_supervisor defs"
  obtain order where run: "start_all it git os (?new, w) = Some (start_each os order (?new\<lparr>start_order := order\<rparr>, w))"
    and dist: "distinct order" and names: "set order = svc_names defs"
    and before: "\<forall>d \<in> set defs. \<forall>dep \<in> set (depends_on d). before order dep (name d)"
    using new_supervisor_sorted [OF assms] .
  have known: "map_of (services (?new\<lparr>start_order := order\<rparr>)) n \<noteq> None" if "n \<in> set order" for n
    using that new_lookup_distinct [OF assms(4)] by (auto simp: names svc_names_def)
  from start_each_run [OF dist known, of os w]
  obtain k r sv' w' where k: "k \<le> length order"
    "start_each os order (?new\<lparr>start_order := order\<rparr>, w) = (r, sv', w')"
    "spawns (w_events w') = spawns (w_events w) @ map (cmd_of (?new\<lparr>start_order := order\<rparr>)) (take k order)"
    "\<forall>i < k. state_of sv' (order ! i) = Some Running"
    "\<forall>i. k < i \<and> i < length order \<longrightarrow>
      map_of (services sv') (order ! i) = map_of (services (?new\<lparr>start_order := order\<rparr>)) (order ! i)"
    "start_order sv' = order"
    "if k = length order then r = Inr ()
     else state_of sv' (order ! k) = Some Failed \<and> (\<exists>e. r = Inl (SpawnFailed (order ! k) e))"
    by auto
  have running: "\<forall>n \<in> set (take k order). state_of sv' n = Some Running"
    using k(1,4) by (auto simp: in_set_conv_nth)
  have rest: "state_of sv' n = Some Stopped" if "n \<in> set (drop (Suc k) order)" for n
  proof -
    from that obtain j where j: "j < length order - Suc k" "n = order ! (Suc k + j)" by (auto simp: in_set_conv_nth)
    then have "map_of (services sv') n = map_of (services ?new) n" and "n \<in> set order" using k(5) by auto
    then show ?thesis using known [of n] by (auto simp: state_of_def dest: new_supervisor_pid)
  qed
  have "cmd_of (?new\<lparr>start_order := order\<rparr>) = cmd_of ?new" by (simp add: cmd_of_def fun_eq_iff)
  with run k before running rest dist names show ?thesis
    by (intro exI [of _ order] exI [of _ k] exI [of _ r] exI [of _ sv'] exI [of _ w']) auto
qed

lemma sample_legal: "deps_known sample_defs \<and> distinct (map name sample_defs) \<and> acyclic (dep_edges sample_defs)"
proof -
  have "resolve_start_order id sample_defs = Some (Inr [''egress'', ''cage''])" by code_simp
  then show ?thesis using resolve_result(3) [OF is_iter_id(1), of sample_defs] by blast
qed

theorem start_all_order_witness:
  "\<exists>r sv' w'. start_all rev rev sample_os (new_supervisor sample_defs, sample_world) = Some (r, sv', w') \<and>
     set (start_order sv') = {''cage'', ''egress''}"
proof -
  have "svc_names sample_defs = {''cage'', ''egress''}"
    by (simp add: sample_defs_def svc_names_def sample_service_def)
  with start_all_order [OF is_iter_rev is_iter_rev, of sample_defs sample_os sample_world] sample_legal
  show ?thesis by (metis (no_types, lifting))
qed



text \<open>
  C22: \<open>stop_all\<close> sends SIGTERM to the running services in reverse start order, leaves each of them
  stopped without a process and every other service as it was, and always returns: on a monotonic
  clock it sleeps at most 5.1 seconds per service (the five-second deadline and one poll).
\<close>

theorem stop_all_correct:
  assumes "mono (os_clock os)" and "distinct (start_order sv)" and "stop_all os (sv, w) = (sv', w')"
  shows "sigterms (w_events w') = sigterms (w_events w) @ List.map_filter (pid_of sv) (rev (start_order sv)) \<and>
    (\<forall>n. map_of (services sv') n =
       (if n \<in> set (start_order sv) \<and> pid_of sv n \<noteq> None
        then map_option (\<lambda>svc. svc\<lparr>m_pid := None, m_state := Stopped\<rparr>) (map_of (services sv) n)
        else map_of (services sv) n)) \<and>
    w_slept w' \<le> w_slept w + length (start_order sv) * (secs 5 + millis 100)"
proof -
  have "fold (stop_service os) (rev (start_order sv)) (sv, w) = (sv', w')"
    using assms(3) by (simp add: stop_all_def)
  note spec = stop_each_spec [OF assms(1) _ this]
  have "map_of (services sv') n =
       (if n \<in> set (start_order sv) \<and> pid_of sv n \<noteq> None
        then map_option (\<lambda>svc. svc\<lparr>m_pid := None, m_state := Stopped\<rparr>) (map_of (services sv) n)
        else map_of (services sv) n)" for n
    using spec [of n] assms(2)
    by (cases "map_of (services sv) n") (auto simp: pid_of_def stopped_def)
  with spec assms(2) show ?thesis by simp
qed

theorem stop_all_correct_witness:
  "\<exists>sv' w'. stop_all sample_os (sample_sv, sample_w1) = (sv', w') \<and> sigterms (w_events w') = [102, 100] \<and>
     map_of (services sv') ''cage'' =
       Some ((sample_running ''cage'' [''egress''] 102 3)\<lparr>m_pid := None, m_state := Stopped\<rparr>)"
proof -
  obtain sv' w' where s: "stop_all sample_os (sample_sv, sample_w1) = (sv', w')"
    by (cases "stop_all sample_os (sample_sv, sample_w1)")
  have "distinct (start_order sample_sv)" by (simp add: sample_sv_def)
  from stop_all_correct [OF sample_mono this s] s show ?thesis
    by (simp add: sample_sv_def sample_w1_def pid_of_def sample_running_def map_filter_simps)
qed

end
