(* ===== verification/Json.thy ===== *)
theory Json
  imports Text
begin

text \<open>
  JSON values and the newline-delimited JSON protocol of the daemons' sockets. The serde_json parser
  and printer are parameters of the theories that use them; the accessors of \<open>serde_json::Value\<close> and
  the way a connection is cut into request lines are modelled here, with the loop that all daemons
  run over the lines and an interface for the invariants of that loop.
\<close>

section \<open>Values\<close>

text \<open>An object is the list of its members; numbers that are not integers keep their text.\<close>

datatype json =
    JNull
  | JBool bool
  | JNum int
  | JFloat string
  | JStr string
  | JArr "json list"
  | JObj "(string \<times> json) list"

fun get :: "json \<Rightarrow> string \<Rightarrow> json option" where
  "get (JObj ms) k = map_of ms k"
| "get _ k = None"

fun as_str :: "json \<Rightarrow> string option" where
  "as_str (JStr s) = Some s"
| "as_str _ = None"

fun as_array :: "json \<Rightarrow> json list option" where
  "as_array (JArr xs) = Some xs"
| "as_array _ = None"

fun as_object :: "json \<Rightarrow> (string \<times> json) list option" where
  "as_object (JObj ms) = Some ms"
| "as_object _ = None"

fun as_bool :: "json \<Rightarrow> bool option" where
  "as_bool (JBool b) = Some b"
| "as_bool _ = None"

definition str_field :: "json \<Rightarrow> string \<Rightarrow> string option" where
  "str_field v k = Option.bind (get v k) as_str"

definition str_or :: "string \<Rightarrow> json \<Rightarrow> string \<Rightarrow> string" where
  "str_or d v k = (case str_field v k of None \<Rightarrow> d | Some s \<Rightarrow> s)"

text \<open>The strings of an array field; other elements are dropped, a missing array is empty.\<close>

definition strings_of :: "json \<Rightarrow> string \<Rightarrow> string list" where
  "strings_of v k =
     (case Option.bind (get v k) as_array of None \<Rightarrow> [] | Some xs \<Rightarrow> List.map_filter as_str xs)"

definition strs :: "string list \<Rightarrow> json" where
  "strs xs = JArr (map JStr xs)"

definition error_json :: "string \<Rightarrow> json" where
  "error_json m = JObj [(''error'', JStr m)]"

lemma str_field_simps [simp]:
  "str_field (JObj ms) k = Option.bind (map_of ms k) as_str"
  by (simp add: str_field_def)

lemma get_error_json [simp]: "get (error_json m) k = (if k = ''error'' then Some (JStr m) else None)"
  by (simp add: error_json_def)

lemma map_filter_as_str [simp]: "List.map_filter as_str (map JStr xs) = xs"
  by (induction xs) (simp_all add: map_filter_simps)

section \<open>UTF-8\<close>

definition byte :: "char \<Rightarrow> nat" where
  "byte c = of_char c"

definition cont :: "char \<Rightarrow> bool" where
  "cont c \<longleftrightarrow> 128 \<le> byte c \<and> byte c < 192"

text \<open>The well-formed byte sequences: no overlong form, no surrogate, nothing above U+10FFFF.\<close>

fun valid_utf8 :: "string \<Rightarrow> bool" where
  "valid_utf8 [] = True"
| "valid_utf8 [a] = (byte a < 128)"
| "valid_utf8 [a, b] =
     (if byte a < 128 then valid_utf8 [b] else 194 \<le> byte a \<and> byte a < 224 \<and> cont b)"
| "valid_utf8 [a, b, c] =
     (if byte a < 128 then valid_utf8 [b, c]
      else if byte a < 224 then 194 \<le> byte a \<and> cont b \<and> valid_utf8 [c]
      else byte a < 240 \<and> cont b \<and> cont c \<and> (byte a = 224 \<longrightarrow> 160 \<le> byte b) \<and>
        (byte a = 237 \<longrightarrow> byte b < 160))"
| "valid_utf8 (a # b # c # d # s) =
     (if byte a < 128 then valid_utf8 (b # c # d # s)
      else if byte a < 224 then 194 \<le> byte a \<and> cont b \<and> valid_utf8 (c # d # s)
      else if byte a < 240 then
        cont b \<and> cont c \<and> (byte a = 224 \<longrightarrow> 160 \<le> byte b) \<and> (byte a = 237 \<longrightarrow> byte b < 160) \<and>
        valid_utf8 (d # s)
      else byte a < 245 \<and> cont b \<and> cont c \<and> cont d \<and> (byte a = 240 \<longrightarrow> 144 \<le> byte b) \<and>
        (byte a = 244 \<longrightarrow> byte b < 144) \<and> valid_utf8 s)"

definition is_ascii :: "string \<Rightarrow> bool" where
  "is_ascii s \<longleftrightarrow> (\<forall>c \<in> set s. byte c < 128)"

lemma valid_utf8_ascii: "is_ascii s \<Longrightarrow> valid_utf8 s"
  by (induction s rule: valid_utf8.induct) (auto simp: is_ascii_def)

lemma byte_char_of: "n < 256 \<Longrightarrow> byte (char_of (n :: nat)) = n"
  by (simp add: byte_def)

lemma printable_not_white:
  assumes "32 < byte c" "byte c < 128"
  shows "white_prefix white_space (c # s) = None" "white_prefix (map rev white_space) (c # s) = None"
proof -
  have "\<not> starts_with (c # s) (char_of n # w)" if "(n :: nat) < 256" "n \<le> 32 \<or> 128 \<le> n" for n w
    using assms byte_char_of [OF that(1)] that(2) by (auto simp: starts_with_def)
  then show "white_prefix white_space (c # s) = None" "white_prefix (map rev white_space) (c # s) = None"
    by (auto simp: white_prefix_def find_None_iff white_space_def)
qed

lemma trim_printable:
  assumes "32 < byte c" "byte c < 128" "32 < byte d" "byte d < 128"
  shows "trim (c # s @ [d]) = c # s @ [d]"
  using printable_not_white assms by (simp add: trim_def)

lemma trim_one: "32 < byte c \<Longrightarrow> byte c < 128 \<Longrightarrow> trim [c] = [c]"
  using printable_not_white by (simp add: trim_def)

section \<open>Connections\<close>

text \<open>
  The bytes a peer sends before it pauses for longer than the read timeout, and whether it then keeps
  the connection open (the next read fails) or has closed it (end of file).
\<close>

record conn =
  c_bytes :: string
  c_open :: bool

definition read_limit :: nat where
  "read_limit = 65536"

definition decode_line :: "string \<Rightarrow> unit + string" where
  "decode_line s = (if valid_utf8 s then Inr s else Inl ())"

text \<open>\<open>BufReader::new(stream.take(65536)).lines()\<close>.\<close>

definition request_lines :: "conn \<Rightarrow> (unit + string) list" where
  "request_lines c =
     (let ps = split_on (CHR 10) (take read_limit (c_bytes c));
          ended = (read_limit \<le> length (c_bytes c) \<or> \<not> c_open c)
      in map (\<lambda>p. decode_line (strip_cr p)) (butlast ps) @
         (if ended then (if last ps = [] then [] else [decode_line (last ps)]) else [Inl ()]))"

text \<open>
  The loop over the lines. \<open>step\<close> handles one line: the new state, the response written to the peer
  if there is one, and whether the loop goes on.
\<close>

fun line_loop ::
    "(string \<Rightarrow> 's \<Rightarrow> 's \<times> json option \<times> bool) \<Rightarrow> (unit + string) list \<Rightarrow> 's \<Rightarrow> 's \<times> json list" where
  "line_loop step [] s = (s, [])"
| "line_loop step (Inl _ # ls) s = (s, [])"
| "line_loop step (Inr l # ls) s =
     (case step l s of
        (s', reply, go_on) \<Rightarrow>
          (let (s'', rest) = (if go_on then line_loop step ls s' else (s', []))
           in (s'', (case reply of None \<Rightarrow> rest | Some r \<Rightarrow> r # rest))))"

lemma line_loop_fst:
  "fst (line_loop step (Inr l # ls) s) =
     (case step l s of (s', _, go_on) \<Rightarrow> if go_on then fst (line_loop step ls s') else s')"
  by (auto simp: Let_def split: prod.split)

definition serve_conn ::
    "(string \<Rightarrow> 's \<Rightarrow> 's \<times> json option \<times> bool) \<Rightarrow> conn \<Rightarrow> 's \<Rightarrow> 's \<times> json list" where
  "serve_conn step c s = line_loop step (request_lines c) s"

fun serve_conns ::
    "(string \<Rightarrow> 's \<Rightarrow> 's \<times> json option \<times> bool) \<Rightarrow> conn list \<Rightarrow> 's \<Rightarrow> 's" where
  "serve_conns step [] s = s"
| "serve_conns step (c # cs) s = serve_conns step cs (fst (serve_conn step c s))"

text \<open>An invariant of the loop that rests on what is known of the lines.\<close>

lemma line_loop_inv:
  assumes "\<And>l s. I s \<Longrightarrow> l \<in> L \<Longrightarrow> I (fst (step l s))"
  shows "I s \<Longrightarrow> (\<And>l. Inr l \<in> set ls \<Longrightarrow> l \<in> L) \<Longrightarrow> I (fst (line_loop step ls s))"
proof (induction ls arbitrary: s)
  case (Cons x ls)
  show ?case
  proof (cases x)
    case (Inr l)
    obtain s1 reply go_on where st: "step l s = (s1, reply, go_on)" by (cases "step l s")
    have s1: "I s1" using assms [OF Cons.prems(1), of l] Cons.prems(2) Inr st by simp
    moreover have "I (fst (line_loop step ls s1))" using Cons.IH [OF s1] Cons.prems(2) by simp
    ultimately show ?thesis using Inr st by (simp add: line_loop_fst del: line_loop.simps)
  qed (use Cons.prems in simp)
qed simp

lemma serve_conns_inv:
  assumes "\<And>l s. I s \<Longrightarrow> l \<in> L \<Longrightarrow> I (fst (step l s))"
  shows "I s \<Longrightarrow> (\<And>c l. c \<in> set cs \<Longrightarrow> Inr l \<in> set (request_lines c) \<Longrightarrow> l \<in> L) \<Longrightarrow> I (serve_conns step cs s)"
proof (induction cs arbitrary: s)
  case (Cons c cs)
  have "I (fst (serve_conn step c s))"
    unfolding serve_conn_def by (rule line_loop_inv [of I L step, OF assms]) (use Cons.prems in auto)
  then have "I (serve_conns step cs (fst (serve_conn step c s)))" by (rule Cons.IH) (use Cons.prems(2) in auto)
  then show ?case by simp
qed simp

text \<open>A line that the buffer cannot hold reaches the handler without its end, and nothing follows it.\<close>

lemma long_line_truncated:
  "CHR 10 \<notin> set (take read_limit (c_bytes c)) \<Longrightarrow> read_limit \<le> length (c_bytes c) \<Longrightarrow>
     request_lines c = [decode_line (take read_limit (c_bytes c))]"
  by (auto simp: request_lines_def split_on_no_sep Let_def read_limit_def)

text \<open>One line, as the daemons write their requests to each other.\<close>

definition line_conn :: "string \<Rightarrow> conn" where
  "line_conn t = \<lparr>c_bytes = t @ [CHR 10], c_open = False\<rparr>"

lemma line_conn_lines:
  assumes "t \<noteq> []" "list_all (\<lambda>c. 32 \<le> byte c) t"
  shows "set (request_lines (line_conn t)) \<subseteq> {Inl (), Inr (take read_limit t)}"
proof -
  have "32 \<le> byte c" if "c \<in> set t" for c using assms(2) that by (simp add: list_all_iff)
  moreover have "\<not> 32 \<le> byte (CHR 10)" "\<not> 32 \<le> byte (CHR 13)" by (simp_all add: byte_def)
  ultimately have nl: "CHR 10 \<notin> set t" and cr: "last t \<noteq> CHR 13"
    using last_in_set [OF assms(1)] by metis+
  have dec: "decode_line s = Inl () \<or> decode_line s = Inr s" for s by (simp add: decode_line_def)
  show ?thesis
  proof (cases "read_limit \<le> length t")
    case True
    have "request_lines (line_conn t) = [decode_line (take read_limit t)]"
      using True nl long_line_truncated [of "line_conn t"] in_set_takeD [of "CHR 10" read_limit t]
      by (auto simp: line_conn_def)
    then show ?thesis using dec by auto
  next
    case False
    then have "request_lines (line_conn t) = [decode_line t]" and "take read_limit t = t"
      using nl cr assms(1) split_on_append_sep [of "CHR 10" t "[]"]
      by (simp_all add: request_lines_def line_conn_def strip_cr_def Let_def)
    then show ?thesis using dec by auto
  qed
qed

section \<open>What a service promises of its loop\<close>

locale line_service =
  fixes step :: "string \<Rightarrow> 's \<Rightarrow> 's \<times> json option \<times> bool"
    and inv :: "'s \<Rightarrow> bool"
    and reply_ok :: "json \<Rightarrow> bool"
  assumes step_inv: "inv s \<Longrightarrow> step l s = (s', reply, go_on) \<Longrightarrow> inv s'"
    and step_reply: "inv s \<Longrightarrow> step l s = (s', Some r, go_on) \<Longrightarrow> reply_ok r"
begin

lemma loop:
  "inv s \<Longrightarrow> line_loop step ls s = (s', out) \<Longrightarrow>
     inv s' \<and> (\<forall>r \<in> set out. reply_ok r) \<and> length out \<le> length ls"
proof (induction ls arbitrary: s s' out)
  case Nil
  then show ?case by simp
next
  case (Cons l ls)
  show ?case
  proof (cases l)
    case (Inl u)
    with Cons.prems show ?thesis by simp
  next
    case (Inr x)
    obtain s1 reply go_on where st: "step x s = (s1, reply, go_on)" by (cases "step x s") auto
    with Cons.prems(1) have s1: "inv s1" by (rule step_inv)
    have ok: "reply_ok r" if "reply = Some r" for r
      using Cons.prems(1) st that by (simp add: step_reply)
    show ?thesis
    proof (cases go_on)
      case False
      with Cons.prems st s1 ok Inr show ?thesis by (auto split: option.splits)
    next
      case True
      obtain s2 rest where r: "line_loop step ls s1 = (s2, rest)" by (cases "line_loop step ls s1")
      from Cons.IH [OF s1 r] Cons.prems st ok Inr r True show ?thesis by (auto split: option.splits)
    qed
  qed
qed

lemma serve: "inv s \<Longrightarrow> inv (fst (serve_conn step c s))"
  unfolding serve_conn_def using loop [of s "request_lines c"] by (metis prod.collapse)

lemma serve_all: "inv s \<Longrightarrow> inv (serve_conns step cs s)"
  by (induction cs arbitrary: s) (simp_all add: serve)

end

section \<open>Connections served in threads\<close>

text \<open>
  A daemon with a thread per connection: the lines of different connections are handled in any order,
  each one atomically (the handler holds the lock of the state). A connection is what is left of its
  lines and the answered lines so far, the latest last. \<open>served step\<close> is one move of the daemon: a
  connection is accepted, one of its lines is handled, or it is dropped at an unreadable line.
\<close>

type_synonym thread = "(unit + string) list \<times> (string \<times> json) list"

inductive served ::
    "(string \<Rightarrow> 's \<Rightarrow> 's \<times> json option \<times> bool) \<Rightarrow> 's \<times> thread list \<Rightarrow> 's \<times> thread list \<Rightarrow> bool"
  for step where
  accept: "served step (s, ts) (s, ts @ [(request_lines c, [])])"
| handle: "i < length ts \<Longrightarrow> ts ! i = (Inr l # ls, out) \<Longrightarrow> step l s = (s', reply, go_on) \<Longrightarrow>
    served step (s, ts)
      (s', ts[i := (if go_on then ls else [], case reply of None \<Rightarrow> out | Some r \<Rightarrow> out @ [(l, r)])])"
| unreadable: "i < length ts \<Longrightarrow> ts ! i = (Inl u # ls, out) \<Longrightarrow> served step (s, ts) (s, ts[i := ([], out)])"

lemma served_one_line:
  assumes "request_lines c = [Inr l]" and "step l s = (s', Some r, go_on)"
  shows "(served step)\<^sup>*\<^sup>* (s, ts) (s', ts @ [([], [(l, r)])])"
proof -
  have "served step (s, ts) (s, ts @ [([Inr l], [])])"
    using served.accept [of step s ts c] assms(1) by simp
  moreover have "served step (s, ts @ [([Inr l], [])]) (s', ts @ [([], [(l, r)])])"
    using served.handle [of "length ts" "ts @ [([Inr l], [])]" l "[]" "[]" step s s' "Some r" go_on] assms(2)
    by simp
  ultimately show ?thesis by (meson converse_rtranclp_into_rtranclp r_into_rtranclp)
qed

lemma request_lines_short:
  "length l < read_limit \<Longrightarrow> l \<noteq> [] \<Longrightarrow> CHR 10 \<notin> set l \<Longrightarrow> is_ascii l \<Longrightarrow>
     request_lines \<lparr>c_bytes = l, c_open = False\<rparr> = [Inr l]"
  by (simp add: request_lines_def split_on_no_sep decode_line_def valid_utf8_ascii Let_def)

locale threaded_service =
  line_service step inv "\<lambda>_. True" for step :: "string \<Rightarrow> 's \<Rightarrow> 's \<times> json option \<times> bool" and inv +
  fixes answer_ok :: "'s \<Rightarrow> string \<Rightarrow> json \<Rightarrow> bool"
  assumes step_answer: "inv s \<Longrightarrow> step l s = (s', Some r, go_on) \<Longrightarrow> answer_ok s' l r"
    and answer_stable: "inv s \<Longrightarrow> step l s = (s', reply, go_on) \<Longrightarrow> answer_ok s l' r \<Longrightarrow> answer_ok s' l' r"
begin

definition threads_ok :: "'s \<times> thread list \<Rightarrow> bool" where
  "threads_ok = (\<lambda>(s, ts). inv s \<and> (\<forall>(ls, out) \<in> set ts. \<forall>(l, r) \<in> set out. answer_ok s l r))"

lemma threads_step: "served step p q \<Longrightarrow> threads_ok p \<Longrightarrow> threads_ok q"
proof (induction rule: served.induct)
  case (accept s ts c)
  then show ?case by (auto simp: threads_ok_def)
next
  case (handle i ts l ls out s s' reply go_on)
  have mem: "(Inr l # ls, out) \<in> set ts" using handle.hyps(1,2) by (metis nth_mem)
  have inv: "inv s" and old: "\<And>ls' out' l' r. (ls', out') \<in> set ts \<Longrightarrow> (l', r) \<in> set out' \<Longrightarrow> answer_ok s l' r"
    using handle.prems by (fastforce simp: threads_ok_def)+
  have keep: "answer_ok s' l' r" if "answer_ok s l' r" for l' r
    using answer_stable [OF inv handle.hyps(3) that] .
  have new: "answer_ok s' l r" if "reply = Some r" for r
    using step_answer [OF inv] handle.hyps(3) that by simp
  have inv': "inv s'" using step_inv [OF inv handle.hyps(3)] .
  have "answer_ok s' l' r"
    if t: "t \<in> set (ts[i := (if go_on then ls else [], case reply of None \<Rightarrow> out | Some r \<Rightarrow> out @ [(l, r)])])"
      "(l', r) \<in> set (snd t)" for t l' r
  proof -
    from t(1) set_update_subset_insert consider "t \<in> set ts"
      | "snd t = (case reply of None \<Rightarrow> out | Some r \<Rightarrow> out @ [(l, r)])" by fastforce
    then show ?thesis
    proof cases
      case 1
      with t(2) old keep show ?thesis by (metis prod.collapse)
    next
      case 2
      with t(2) mem old keep new show ?thesis by (cases reply) auto
    qed
  qed
  with inv' show ?case by (fastforce simp: threads_ok_def)
next
  case (unreadable i ts u ls out s)
  have "(Inl u # ls, out) \<in> set ts" using unreadable.hyps by (metis nth_mem)
  then show ?case using unreadable.prems set_update_subset_insert by (fastforce simp: threads_ok_def)
qed

lemma threads_reachable:
  "(served step)\<^sup>*\<^sup>* (s, []) q \<Longrightarrow> inv s \<Longrightarrow> threads_ok q"
  by (induction rule: rtranclp_induct) (auto simp: threads_step, simp add: threads_ok_def)

lemma threads_inv: "(served step)\<^sup>*\<^sup>* (s0, []) (s, ts) \<Longrightarrow> inv s0 \<Longrightarrow> inv s"
  using threads_reachable [of s0 "(s, ts)"] by (simp add: threads_ok_def)

lemma threads_answer:
  "(served step)\<^sup>*\<^sup>* (s0, []) (s, ts) \<Longrightarrow> inv s0 \<Longrightarrow> (ls, out) \<in> set ts \<Longrightarrow> (l, r) \<in> set out \<Longrightarrow>
     answer_ok s l r"
  using threads_reachable [of s0 "(s, ts)"] by (auto simp: threads_ok_def)

end

end
