(* ===== verification/Fs.thy ===== *)
theory Fs
  imports Text
begin

text \<open>
  The file system calls that the daemons make, on a map from paths to nodes. Every call consults an
  oracle, indexed by the number of the call, that may make it fail; a failing write may leave a prefix
  of the data in the file, as the kernel allows. A rename either happens completely or not at all.
\<close>

datatype node = Dir | File string nat | Socket nat

record fs =
  nodes :: "(string, node) hashmap"
  fs_calls :: nat

text \<open>\<open>Some (e, n)\<close>: the call fails with \<open>e\<close>, a write after \<open>n\<close> bytes.\<close>

type_synonym io_oracle = "nat \<Rightarrow> (io_error \<times> nat) option"

definition default_mode :: nat where
  "default_mode = 420"

definition fs_tick :: "fs \<Rightarrow> fs" where
  "fs_tick f = f\<lparr>fs_calls := fs_calls f + 1\<rparr>"

definition set_node :: "string \<Rightarrow> node \<Rightarrow> fs \<Rightarrow> fs" where
  "set_node p n f = f\<lparr>nodes := AList.update p n (nodes f)\<rparr>"

definition del_node :: "string \<Rightarrow> fs \<Rightarrow> fs" where
  "del_node p f = f\<lparr>nodes := AList.delete p (nodes f)\<rparr>"

definition fs_exists :: "string \<Rightarrow> fs \<Rightarrow> bool" where
  "fs_exists p f \<longleftrightarrow> map_of (nodes f) p \<noteq> None"

definition file_of :: "fs \<Rightarrow> string \<Rightarrow> string option" where
  "file_of f p = (case map_of (nodes f) p of Some (File c _) \<Rightarrow> Some c | _ \<Rightarrow> None)"

definition mode_of :: "node option \<Rightarrow> nat" where
  "mode_of n = (case n of Some (File _ m) \<Rightarrow> m | Some (Socket m) \<Rightarrow> m | _ \<Rightarrow> default_mode)"

definition no_file :: "node option \<Rightarrow> io_error option" where
  "no_file n =
     (case n of
        Some Dir \<Rightarrow> Some ''Is a directory (os error 21)''
      | Some (Socket _) \<Rightarrow> Some ''No such device or address (os error 6)''
      | _ \<Rightarrow> None)"

definition fs_write :: "io_oracle \<Rightarrow> string \<Rightarrow> string \<Rightarrow> fs \<Rightarrow> (io_error + unit) \<times> fs" where
  "fs_write io p content f =
     (case no_file (map_of (nodes f) p) of
        Some e \<Rightarrow> (Inl e, fs_tick f)
      | None \<Rightarrow>
          (case io (fs_calls f) of
             None \<Rightarrow> (Inr (), set_node p (File content (mode_of (map_of (nodes f) p))) (fs_tick f))
           | Some (e, 0) \<Rightarrow> (Inl e, fs_tick f)
           | Some (e, Suc n) \<Rightarrow>
               (Inl e, set_node p (File (take n content) (mode_of (map_of (nodes f) p))) (fs_tick f))))"

definition fs_read :: "io_oracle \<Rightarrow> string \<Rightarrow> fs \<Rightarrow> (io_error + string) \<times> fs" where
  "fs_read io p f =
     (case io (fs_calls f) of
        Some (e, _) \<Rightarrow> (Inl e, fs_tick f)
      | None \<Rightarrow>
          ((case (file_of f p, no_file (map_of (nodes f) p)) of
              (Some c, _) \<Rightarrow> Inr c
            | (None, Some e) \<Rightarrow> Inl e
            | (None, None) \<Rightarrow> Inl ''No such file or directory (os error 2)''), fs_tick f))"

definition fs_rename :: "io_oracle \<Rightarrow> string \<Rightarrow> string \<Rightarrow> fs \<Rightarrow> (io_error + unit) \<times> fs" where
  "fs_rename io p q f =
     (case io (fs_calls f) of
        Some (e, _) \<Rightarrow> (Inl e, fs_tick f)
      | None \<Rightarrow>
          (case map_of (nodes f) p of
             None \<Rightarrow> (Inl ''No such file or directory (os error 2)'', fs_tick f)
           | Some n \<Rightarrow>
               (if map_of (nodes f) q = Some Dir \<and> n \<noteq> Dir then (Inl ''Is a directory (os error 21)'', fs_tick f)
                else (Inr (), set_node q n (del_node p (fs_tick f))))))"

definition fs_remove :: "io_oracle \<Rightarrow> string \<Rightarrow> fs \<Rightarrow> (io_error + unit) \<times> fs" where
  "fs_remove io p f =
     (case io (fs_calls f) of
        Some (e, _) \<Rightarrow> (Inl e, fs_tick f)
      | None \<Rightarrow>
          (if map_of (nodes f) p = Some Dir then (Inl ''Is a directory (os error 21)'', fs_tick f)
           else if fs_exists p f then (Inr (), del_node p (fs_tick f))
           else (Inl ''No such file or directory (os error 2)'', fs_tick f)))"

definition fs_mkdirs :: "io_oracle \<Rightarrow> string \<Rightarrow> fs \<Rightarrow> (io_error + unit) \<times> fs" where
  "fs_mkdirs io p f =
     (case io (fs_calls f) of
        Some (e, _) \<Rightarrow> (Inl e, fs_tick f)
      | None \<Rightarrow>
          (case map_of (nodes f) p of
             None \<Rightarrow> (Inr (), set_node p Dir (fs_tick f))
           | Some Dir \<Rightarrow> (Inr (), fs_tick f)
           | Some _ \<Rightarrow> (Inl ''File exists (os error 17)'', fs_tick f)))"

definition fs_chmod :: "io_oracle \<Rightarrow> string \<Rightarrow> nat \<Rightarrow> fs \<Rightarrow> (io_error + unit) \<times> fs" where
  "fs_chmod io p m f =
     (case io (fs_calls f) of
        Some (e, _) \<Rightarrow> (Inl e, fs_tick f)
      | None \<Rightarrow>
          (case map_of (nodes f) p of
             None \<Rightarrow> (Inl ''No such file or directory (os error 2)'', fs_tick f)
           | Some Dir \<Rightarrow> (Inr (), fs_tick f)
           | Some (File c _) \<Rightarrow> (Inr (), set_node p (File c m) (fs_tick f))
           | Some (Socket _) \<Rightarrow> (Inr (), set_node p (Socket m) (fs_tick f))))"

text \<open>\<open>UnixListener::bind\<close> creates the socket node and fails if the path exists.\<close>

definition fs_bind :: "io_oracle \<Rightarrow> string \<Rightarrow> fs \<Rightarrow> (io_error + unit) \<times> fs" where
  "fs_bind io p f =
     (case io (fs_calls f) of
        Some (e, _) \<Rightarrow> (Inl e, fs_tick f)
      | None \<Rightarrow>
          (if fs_exists p f then (Inl ''Address already in use (os error 98)'', fs_tick f)
           else (Inr (), set_node p (Socket 493) (fs_tick f))))"

text \<open>How every daemon opens its socket: remove a stale one, bind, restrict the mode to 0600.\<close>

definition open_socket :: "io_oracle \<Rightarrow> string \<Rightarrow> fs \<Rightarrow> (io_error + unit) \<times> fs" where
  "open_socket io p f =
     (let (r0, f0) = (if fs_exists p f then fs_remove io p f else (Inr (), f))
      in case r0 of
           Inl e \<Rightarrow> (Inl e, f0)
         | Inr _ \<Rightarrow>
             (case fs_bind io p f0 of
                (Inl e, f1) \<Rightarrow> (Inl e, f1)
              | (Inr _, f1) \<Rightarrow> fs_chmod io p 384 f1))"

text \<open>\<open>set_nonblocking\<close> on a socket that is open: no node changes.\<close>

definition fs_nonblock :: "io_oracle \<Rightarrow> fs \<Rightarrow> (io_error + unit) \<times> fs" where
  "fs_nonblock io f =
     (case io (fs_calls f) of Some (e, _) \<Rightarrow> (Inl e, fs_tick f) | None \<Rightarrow> (Inr (), fs_tick f))"

section \<open>Lemmas\<close>

lemma node_simps [simp]:
  "map_of (nodes (set_node p n f)) q = (if q = p then Some n else map_of (nodes f) q)"
  "map_of (nodes (del_node p f)) q = (if q = p then None else map_of (nodes f) q)"
  "nodes (fs_tick f) = nodes f"
  by (simp_all add: set_node_def del_node_def fs_tick_def)

lemma call_simps [simp]:
  "fs_calls (set_node p n f) = fs_calls f" "fs_calls (del_node p f) = fs_calls f"
  "fs_calls (fs_tick f) = Suc (fs_calls f)"
  by (simp_all add: set_node_def del_node_def fs_tick_def)

lemma no_file_simps [simp]:
  "no_file None = None" "no_file (Some (File c m)) = None"
  "no_file (Some Dir) = Some ''Is a directory (os error 21)''"
  by (simp_all add: no_file_def)

lemma no_file_iff: "no_file n = None \<longleftrightarrow> n = None \<or> (\<exists>c m. n = Some (File c m))"
  by (auto simp: no_file_def split: option.splits node.splits)

lemma file_of_set [simp]:
  "file_of (set_node p n f) q =
     (if q = p then (case n of File c _ \<Rightarrow> Some c | _ \<Rightarrow> None) else file_of f q)"
  by (auto simp: file_of_def split: node.split)

lemma file_of_del [simp]: "file_of (del_node p f) q = (if q = p then None else file_of f q)"
  by (simp add: file_of_def)

lemma file_of_tick [simp]: "file_of (fs_tick f) = file_of f"
  by (simp add: file_of_def fun_eq_iff)

lemma fs_write_other:
  "q \<noteq> p \<Longrightarrow> map_of (nodes (snd (fs_write io p c f))) q = map_of (nodes f) q"
  by (auto simp: fs_write_def split: option.split nat.split)

lemma fs_write_ok:
  "fs_write io p c f = (Inr (), f') \<Longrightarrow> file_of f' p = Some c"
  by (auto simp: fs_write_def split: option.splits nat.splits prod.splits)

lemma fs_rename_other:
  "r \<noteq> p \<Longrightarrow> r \<noteq> q \<Longrightarrow> map_of (nodes (snd (fs_rename io p q f))) r = map_of (nodes f) r"
  by (auto simp: fs_rename_def split: option.split if_splits)

lemma fs_rename_ok:
  "fs_rename io p q f = (Inr (), f') \<Longrightarrow> p \<noteq> q \<Longrightarrow>
     map_of (nodes f') q = map_of (nodes f) p \<and> map_of (nodes f') p = None"
  by (auto simp: fs_rename_def split: option.splits if_splits)

lemma fs_rename_err:
  "fs_rename io p q f = (Inl e, f') \<Longrightarrow> nodes f' = nodes f"
  by (auto simp: fs_rename_def split: option.splits if_splits)

lemma open_socket_ok:
  "open_socket io p f = (Inr (), f') \<Longrightarrow>
     map_of (nodes f') p = Some (Socket 384) \<and> (\<forall>q. q \<noteq> p \<longrightarrow> map_of (nodes f') q = map_of (nodes f) q)"
  by (auto simp: open_socket_def fs_remove_def fs_bind_def fs_chmod_def fs_exists_def
      split: option.splits if_splits prod.splits sum.splits node.splits)

text \<open>The nodes that differ between two states, and calls that touch only some paths.\<close>

definition changed :: "fs \<Rightarrow> fs \<Rightarrow> string set" where
  "changed f f' = {q. map_of (nodes f') q \<noteq> map_of (nodes f) q}"

definition touches :: "string set \<Rightarrow> (fs \<Rightarrow> 'a \<times> fs) \<Rightarrow> bool" where
  "touches S op \<longleftrightarrow> (\<forall>f. changed f (snd (op f)) \<subseteq> S)"

named_theorems touches_intros

lemma changed_same [simp]: "changed f f = {}"
  by (simp add: changed_def)

lemma changed_trans: "changed f g \<subseteq> S \<Longrightarrow> changed g h \<subseteq> S \<Longrightarrow> changed f h \<subseteq> S"
  unfolding changed_def subset_iff mem_Collect_eq by metis

lemma touches_result [touches_intros]: "touches S (\<lambda>f. (r, f))"
  by (simp add: touches_def)

lemma touches_write [touches_intros]: "p \<in> S \<Longrightarrow> touches S (fs_write io p c)"
  by (auto simp: touches_def changed_def fs_write_def split: option.splits nat.splits if_splits)

lemma touches_mkdirs [touches_intros]: "p \<in> S \<Longrightarrow> touches S (fs_mkdirs io p)"
  by (auto simp: touches_def changed_def fs_mkdirs_def split: option.splits node.splits if_splits)

lemma touches_chmod [touches_intros]: "p \<in> S \<Longrightarrow> touches S (fs_chmod io p m)"
  by (auto simp: touches_def changed_def fs_chmod_def split: option.splits node.splits if_splits)

end
