(* ===== verification/Control.thy ===== *)
theory Control
  imports Supervisor Json Fs
begin

text \<open>
  Model of \<open>cmd/nulld/src/control.rs\<close>: the control socket of nulld. The supervisor polls it once per
  tick; a connection is a list of JSON lines, of which \<open>status\<close> reads the supervisor and \<open>shutdown\<close>
  sets the shutdown flag. No request changes the supervisor.
\<close>

section \<open>Requests and responses\<close>

definition socket_path :: string where
  "socket_path = ''/run/nulld.sock''"

text \<open>
  The derived deserializer of \<open>struct Request\<close>: an object with exactly one string member \<open>method\<close>, or
  an array of one string. \<open>err\<close> is the text of serde's error for the line.
\<close>

definition deserialize_request :: "(string \<Rightarrow> string) \<Rightarrow> string \<Rightarrow> json \<Rightarrow> string + string" where
  "deserialize_request err line v =
     (case v of
        JObj ms \<Rightarrow>
          (case filter (\<lambda>(k, _). k = ''method'') ms of
             [(_, JStr m)] \<Rightarrow> Inr m
           | _ \<Rightarrow> Inl (err line))
      | JArr [JStr m] \<Rightarrow> Inr m
      | _ \<Rightarrow> Inl (err line))"

definition status_json :: "service_status \<Rightarrow> json" where
  "status_json st =
     JObj [(''name'', JStr (st_name st)), (''state'', JStr (st_state st)),
       (''pid'', (case st_pid st of None \<Rightarrow> JNull | Some p \<Rightarrow> JNum (uint p))),
       (''restart_count'', JNum (uint (st_restart_count st)))]"

definition status_response :: "service_status list \<Rightarrow> json" where
  "status_response sts = JObj [(''services'', JArr (map status_json sts))]"

definition ok_response :: json where
  "ok_response = JObj [(''ok'', JBool True)]"

section \<open>Connections\<close>

text \<open>One line of \<open>handle_connection\<close>; the state is the shutdown flag.\<close>

definition control_step ::
    "(string \<Rightarrow> string + json) \<Rightarrow> (string \<Rightarrow> string) \<Rightarrow> supervisor \<Rightarrow> string \<Rightarrow> bool \<Rightarrow>
     bool \<times> json option \<times> bool" where
  "control_step serde err sv line flag =
     (if line = [] then (flag, None, True)
      else (case res_bind (serde line) (deserialize_request err line) of
              Inl e \<Rightarrow> (flag, Some (error_json (''invalid request: '' @ e)), False)
            | Inr m \<Rightarrow>
                (if m = ''status'' then (flag, Some (status_response (status sv)), True)
                 else if m = ''shutdown'' then (True, Some ok_response, True)
                 else (flag, Some (error_json (''unknown method: '' @ m)), True))))"

text \<open>What \<open>accept\<close> gives on the non-blocking listener; both failures end the poll.\<close>

datatype accept_result = Accepted conn | WouldBlock | AcceptError io_error

fun poll ::
    "(string \<Rightarrow> string + json) \<Rightarrow> (string \<Rightarrow> string) \<Rightarrow> supervisor \<Rightarrow> accept_result list \<Rightarrow> bool \<Rightarrow>
     bool \<times> json list" where
  "poll serde err sv [] flag = (flag, [])"
| "poll serde err sv (a # as) flag =
     (case a of
        Accepted c \<Rightarrow>
          (let (flag1, out1) = serve_conn (control_step serde err sv) c flag;
               (flag2, out2) = poll serde err sv as flag1
           in (flag2, out1 @ out2))
      | WouldBlock \<Rightarrow> (flag, [])
      | AcceptError _ \<Rightarrow> (flag, []))"

definition bind_control :: "io_oracle \<Rightarrow> fs \<Rightarrow> (io_error + unit) \<times> fs" where
  "bind_control io f =
     (case open_socket io socket_path f of
        (Inl e, f1) \<Rightarrow> (Inl e, f1)
      | (Inr _, f1) \<Rightarrow> fs_nonblock io f1)"

section \<open>The loop never clears the flag\<close>

interpretation control_up: line_service "control_step serde err sv" "\<lambda>flag. flag" "\<lambda>_. True"
  for serde err sv
  by unfold_locales (auto simp: control_step_def split: if_splits sum.splits)

section \<open>When the flag is set\<close>

definition method_of :: "(string \<Rightarrow> string + json) \<Rightarrow> string \<Rightarrow> string option" where
  "method_of serde line =
     (case res_bind (serde line) (deserialize_request (\<lambda>_. []) line) of Inl _ \<Rightarrow> None | Inr m \<Rightarrow> Some m)"

definition line_fine :: "(string \<Rightarrow> string + json) \<Rightarrow> string \<Rightarrow> bool" where
  "line_fine serde line \<longleftrightarrow> line = [] \<or> method_of serde line \<noteq> None"

text \<open>A line of the connection asks for a shutdown and every line before it is well formed.\<close>

definition asks_shutdown :: "(string \<Rightarrow> string + json) \<Rightarrow> (unit + string) list \<Rightarrow> bool" where
  "asks_shutdown serde ls \<longleftrightarrow>
     (\<exists>pre l post. ls = map Inr pre @ Inr l # post \<and> (\<forall>p \<in> set pre. line_fine serde p) \<and>
        l \<noteq> [] \<and> method_of serde l = Some ''shutdown'')"

definition poll_shutdown :: "(string \<Rightarrow> string + json) \<Rightarrow> accept_result list \<Rightarrow> bool" where
  "poll_shutdown serde as \<longleftrightarrow>
     (\<exists>pre c post. as = map Accepted pre @ Accepted c # post \<and> asks_shutdown serde (request_lines c))"

lemma deserialize_request_err:
  "deserialize_request err line v = Inr m \<longleftrightarrow> deserialize_request err' line v = Inr m"
  by (auto simp: deserialize_request_def split: json.split list.split prod.split)

lemma method_of_iff:
  "method_of serde line = Some m \<longleftrightarrow> res_bind (serde line) (deserialize_request err line) = Inr m"
  by (auto simp: method_of_def res_bind_eq_Inr deserialize_request_err [of err line _ m "\<lambda>_. []"]
      split: sum.splits)

lemma asks_shutdown_simps [simp]:
  "\<not> asks_shutdown serde []" "\<not> asks_shutdown serde (Inl u # ls)"
  "asks_shutdown serde (Inr l # ls) \<longleftrightarrow>
     (l \<noteq> [] \<and> method_of serde l = Some ''shutdown'') \<or> (line_fine serde l \<and> asks_shutdown serde ls)"
proof -
  show "\<not> asks_shutdown serde []" "\<not> asks_shutdown serde (Inl u # ls)"
    by (auto simp: asks_shutdown_def Cons_eq_append_conv)
  show "asks_shutdown serde (Inr l # ls) \<longleftrightarrow>
     (l \<noteq> [] \<and> method_of serde l = Some ''shutdown'') \<or> (line_fine serde l \<and> asks_shutdown serde ls)"
  proof
    assume "asks_shutdown serde (Inr l # ls)"
    then obtain pre k post where *: "Inr l # ls = map Inr pre @ Inr k # post"
      "\<forall>p \<in> set pre. line_fine serde p" "k \<noteq> []" "method_of serde k = Some ''shutdown''"
      by (auto simp: asks_shutdown_def)
    then show "(l \<noteq> [] \<and> method_of serde l = Some ''shutdown'') \<or> (line_fine serde l \<and> asks_shutdown serde ls)"
      by (cases pre) (auto simp: asks_shutdown_def)
  next
    assume "(l \<noteq> [] \<and> method_of serde l = Some ''shutdown'') \<or> (line_fine serde l \<and> asks_shutdown serde ls)"
    then show "asks_shutdown serde (Inr l # ls)"
    proof
      assume "l \<noteq> [] \<and> method_of serde l = Some ''shutdown''"
      then show ?thesis unfolding asks_shutdown_def
        by (intro exI [of _ "[]"] exI [of _ l] exI [of _ ls]) simp
    next
      assume a: "line_fine serde l \<and> asks_shutdown serde ls"
      then obtain pre k post where *: "ls = map Inr pre @ Inr k # post"
        "\<forall>p \<in> set pre. line_fine serde p" "k \<noteq> []" "method_of serde k = Some ''shutdown''"
        by (auto simp: asks_shutdown_def)
      with a show ?thesis unfolding asks_shutdown_def
        by (intro exI [of _ "l # pre"] exI [of _ k] exI [of _ post]) simp
    qed
  qed
qed

lemma poll_shutdown_simps [simp]:
  "\<not> poll_shutdown serde []" "\<not> poll_shutdown serde (WouldBlock # as)"
  "\<not> poll_shutdown serde (AcceptError e # as)"
  "poll_shutdown serde (Accepted c # as) \<longleftrightarrow> asks_shutdown serde (request_lines c) \<or> poll_shutdown serde as"
proof -
  show "\<not> poll_shutdown serde []" "\<not> poll_shutdown serde (WouldBlock # as)"
    "\<not> poll_shutdown serde (AcceptError e # as)"
    by (auto simp: poll_shutdown_def Cons_eq_append_conv)
  show "poll_shutdown serde (Accepted c # as) \<longleftrightarrow> asks_shutdown serde (request_lines c) \<or> poll_shutdown serde as"
  proof
    assume "poll_shutdown serde (Accepted c # as)"
    then obtain pre d post where "Accepted c # as = map Accepted pre @ Accepted d # post"
      "asks_shutdown serde (request_lines d)" by (auto simp: poll_shutdown_def)
    then show "asks_shutdown serde (request_lines c) \<or> poll_shutdown serde as"
      by (cases pre) (auto simp: poll_shutdown_def)
  next
    assume "asks_shutdown serde (request_lines c) \<or> poll_shutdown serde as"
    then show "poll_shutdown serde (Accepted c # as)"
    proof
      assume "asks_shutdown serde (request_lines c)"
      then show ?thesis unfolding poll_shutdown_def
        by (intro exI [of _ "[]"] exI [of _ c] exI [of _ as]) simp
    next
      assume "poll_shutdown serde as"
      then obtain pre d post where "as = map Accepted pre @ Accepted d # post"
        "asks_shutdown serde (request_lines d)" by (auto simp: poll_shutdown_def)
      then show ?thesis unfolding poll_shutdown_def
        by (intro exI [of _ "c # pre"] exI [of _ d] exI [of _ post]) simp
    qed
  qed
qed

lemma control_step_flag:
  "control_step serde err sv line flag = (flag', reply, go_on) \<Longrightarrow>
     flag' = (flag \<or> (line \<noteq> [] \<and> method_of serde line = Some ''shutdown'')) \<and>
     go_on = line_fine serde line"
proof (cases "res_bind (serde line) (deserialize_request err line)")
  case (Inl e)
  then have "method_of serde line = None"
    using method_of_iff [of serde line _ err] by (metis Inl_Inr_False option.exhaust)
  then show "control_step serde err sv line flag = (flag', reply, go_on) \<Longrightarrow> ?thesis"
    using Inl by (auto simp: control_step_def line_fine_def split: if_splits)
next
  case (Inr m)
  then have "method_of serde line = Some m" by (simp add: method_of_iff [of _ _ _ err])
  then show "control_step serde err sv line flag = (flag', reply, go_on) \<Longrightarrow> ?thesis"
    using Inr by (auto simp: control_step_def line_fine_def split: if_splits)
qed

lemma loop_flag:
  "fst (line_loop (control_step serde err sv) ls flag) \<longleftrightarrow> flag \<or> asks_shutdown serde ls"
proof (induction ls arbitrary: flag)
  case Nil
  show ?case by simp
next
  case (Cons l ls)
  show ?case
  proof (cases l)
    case (Inl u)
    then show ?thesis by simp
  next
    case (Inr x)
    obtain flag' reply go_on where st: "control_step serde err sv x flag = (flag', reply, go_on)"
      by (cases "control_step serde err sv x flag") auto
    from control_step_flag [OF st] Cons.IH [of flag'] show ?thesis
      unfolding Inr line_loop_fst st by auto
  qed
qed

lemma poll_flag: "fst (poll serde err sv as flag) \<longleftrightarrow> flag \<or> poll_shutdown serde as"
proof (induction as arbitrary: flag)
  case Nil
  show ?case by simp
next
  case (Cons a as)
  have "fst (poll serde err sv (Accepted c # as) flag) =
      fst (poll serde err sv as (fst (serve_conn (control_step serde err sv) c flag)))" for c
    by (simp add: Let_def split: prod.split)
  with Cons show ?case by (cases a) (simp_all add: serve_conn_def loop_flag)
qed

end
