(* ===== verification/Mount.thy ===== *)
theory Mount
  imports Text
begin

text \<open>
  Model of \<open>cmd/nulld/src/mount.rs\<close>: the mounts of the virtual file systems and the probe for a
  persistent data partition. The kernel answers through an oracle on the history of calls; the history
  itself, every call with its outcome, is the state.
\<close>

section \<open>Data\<close>

definition MS_RDONLY :: u64 where "MS_RDONLY = 1"
definition MS_NOSUID :: u64 where "MS_NOSUID = 2"
definition MS_NODEV :: u64 where "MS_NODEV = 4"
definition MS_NOEXEC :: u64 where "MS_NOEXEC = 8"
definition MS_REMOUNT :: u64 where "MS_REMOUNT = 32"
definition MS_NOATIME :: u64 where "MS_NOATIME = 1024"
definition MS_BIND :: u64 where "MS_BIND = 4096"

record mount_entry =
  me_source :: string
  me_target :: string
  me_fstype :: string
  me_flags :: u64
  me_data :: "string option"

datatype mount_call =
    MountCall "string option" string "string option" u64 "string option"
  | UmountCall string
  | MkdirCall string

text \<open>The calls so far, latest last, each with the error it gave.\<close>

type_synonym history = "(mount_call \<times> io_error option) list"

record kernel =
  k_result :: "history \<Rightarrow> mount_call \<Rightarrow> io_error option"
  k_exists :: "history \<Rightarrow> string \<Rightarrow> bool"

datatype mount_error = MountFailed string string io_error | MkdirFailed string io_error

definition entry :: "string \<Rightarrow> string \<Rightarrow> string \<Rightarrow> u64 \<Rightarrow> string option \<Rightarrow> mount_entry" where
  "entry src tgt ty fl data =
     \<lparr>me_source = src, me_target = tgt, me_fstype = ty, me_flags = fl, me_data = data\<rparr>"

definition MOUNTS :: "mount_entry list" where
  "MOUNTS =
     [entry ''proc'' ''/proc'' ''proc'' (MS_NOSUID OR MS_NODEV OR MS_NOEXEC) None,
      entry ''sysfs'' ''/sys'' ''sysfs'' (MS_NOSUID OR MS_NODEV OR MS_NOEXEC) None,
      entry ''devtmpfs'' ''/dev'' ''devtmpfs'' MS_NOSUID (Some ''mode=0755''),
      entry ''devpts'' ''/dev/pts'' ''devpts'' (MS_NOSUID OR MS_NOEXEC)
        (Some ''mode=0620,ptmxmode=0666''),
      entry ''tmpfs'' ''/dev/shm'' ''tmpfs'' (MS_NOSUID OR MS_NODEV) (Some ''mode=1777''),
      entry ''tmpfs'' ''/tmp'' ''tmpfs'' (MS_NOSUID OR MS_NODEV OR MS_NOEXEC)
        (Some ''mode=1777,size=256m''),
      entry ''tmpfs'' ''/run'' ''tmpfs'' (MS_NOSUID OR MS_NODEV OR MS_NOEXEC)
        (Some ''mode=0755,size=64m''),
      entry ''tmpfs'' ''/var'' ''tmpfs'' (MS_NOSUID OR MS_NODEV) (Some ''mode=0755,size=512m'')]"

definition show_mount_error :: "mount_error \<Rightarrow> string" where
  "show_mount_error e =
     (case e of
        MountFailed tgt ty src \<Rightarrow> ''failed to mount '' @ ty @ '' on '' @ tgt @ '': '' @ src
      | MkdirFailed path src \<Rightarrow> ''failed to create directory '' @ path @ '': '' @ src)"

section \<open>Operations\<close>

definition kcall :: "kernel \<Rightarrow> mount_call \<Rightarrow> history \<Rightarrow> io_error option \<times> history" where
  "kcall k c h = (let r = k_result k h c in (r, h @ [(c, r)]))"

definition mkdir_p :: "kernel \<Rightarrow> string \<Rightarrow> history \<Rightarrow> (mount_error + unit) \<times> history" where
  "mkdir_p k path h =
     (case kcall k (MkdirCall path) h of
        (Some e, h') \<Rightarrow> (Inl (MkdirFailed path e), h')
      | (None, h') \<Rightarrow> (Inr (), h'))"

definition ensure_mountpoint :: "kernel \<Rightarrow> string \<Rightarrow> history \<Rightarrow> (mount_error + unit) \<times> history" where
  "ensure_mountpoint k path h = (if k_exists k h path then (Inr (), h) else mkdir_p k path h)"

definition mount_one :: "kernel \<Rightarrow> mount_entry \<Rightarrow> history \<Rightarrow> (mount_error + unit) \<times> history" where
  "mount_one k e h =
     (case ensure_mountpoint k (me_target e) h of
        (Inl er, h1) \<Rightarrow> (Inl er, h1)
      | (Inr _, h1) \<Rightarrow>
          (case kcall k (MountCall (Some (me_source e)) (me_target e) (Some (me_fstype e))
                   (me_flags e) (me_data e)) h1 of
             (Some er, h2) \<Rightarrow> (Inl (MountFailed (me_target e) (me_fstype e) er), h2)
           | (None, h2) \<Rightarrow> (Inr (), h2)))"

fun mount_each :: "kernel \<Rightarrow> mount_entry list \<Rightarrow> history \<Rightarrow> (mount_error + unit) \<times> history" where
  "mount_each k [] h = (Inr (), h)"
| "mount_each k (e # es) h =
     (case mount_one k e h of
        (Inl er, h1) \<Rightarrow> (Inl er, h1)
      | (Inr _, h1) \<Rightarrow> mount_each k es h1)"

definition var_dirs :: "string list" where
  "var_dirs = [''/var/log'', ''/var/run'', ''/var/run/ctxgraph'', ''/var/lib'', ''/var/lib/ctxgraph'',
     ''/agent'']"

fun create_dirs :: "kernel \<Rightarrow> string list \<Rightarrow> history \<Rightarrow> (mount_error + unit) \<times> history" where
  "create_dirs k [] h = (Inr (), h)"
| "create_dirs k (d # ds) h =
     (case mkdir_p k d h of
        (Inl er, h1) \<Rightarrow> (Inl er, h1)
      | (Inr _, h1) \<Rightarrow> create_dirs k ds h1)"

definition mount_all :: "kernel \<Rightarrow> history \<Rightarrow> (mount_error + unit) \<times> history" where
  "mount_all k h =
     (case mount_each k MOUNTS h of
        (Inl er, h1) \<Rightarrow> (Inl er, h1)
      | (Inr _, h1) \<Rightarrow> create_dirs k var_dirs h1)"

definition devs :: "string list" where
  "devs = [''/dev/sda1'', ''/dev/sda2'', ''/dev/sda3'', ''/dev/sdb1'', ''/dev/sdb2'',
     ''/dev/nvme0n1p1'', ''/dev/nvme0n1p2'', ''/dev/nvme0n1p3'', ''/dev/vda1'', ''/dev/vda2'']"

definition sentinel :: string where
  "sentinel = ''/data/.nullbox-data''"

definition probe_call :: "string \<Rightarrow> mount_call" where
  "probe_call dev = MountCall (Some dev) ''/data'' (Some ''ext4'') (MS_RDONLY OR MS_NOATIME) None"

text \<open>What is done once the sentinel was found; every error is ignored.\<close>

definition adopt_calls :: "string \<Rightarrow> mount_call list" where
  "adopt_calls dev =
     [MountCall (Some dev) ''/data'' (Some ''ext4'') (MS_REMOUNT OR MS_NOATIME) None,
      MkdirCall ''/data/vault'', MkdirCall ''/data/ctxgraph'', MkdirCall ''/data/snapshots'',
      MkdirCall ''/run/warden'',
      MountCall (Some ''/data/vault'') ''/run/warden'' None MS_BIND None]"

definition kcalls :: "kernel \<Rightarrow> mount_call list \<Rightarrow> history \<Rightarrow> history" where
  "kcalls k cs h = fold (\<lambda>c h. snd (kcall k c h)) cs h"

fun probe :: "kernel \<Rightarrow> string list \<Rightarrow> history \<Rightarrow> history" where
  "probe k [] h = h"
| "probe k (dev # ds) h =
     (if \<not> k_exists k h dev then probe k ds h
      else (case kcall k (probe_call dev) h of
              (Some _, h1) \<Rightarrow> probe k ds h1
            | (None, h1) \<Rightarrow>
                (if k_exists k h1 sentinel then kcalls k (adopt_calls dev) h1
                 else probe k ds (snd (kcall k (UmountCall ''/data'') h1)))))"

definition mount_persistent :: "kernel \<Rightarrow> history \<Rightarrow> history" where
  "mount_persistent k h = probe k devs h"

section \<open>Lemmas\<close>

lemma snd_kcall [simp]: "snd (kcall k c h) = h @ [(c, k_result k h c)]"
  by (simp add: kcall_def Let_def)

lemma kcalls_calls: "\<exists>rs. length rs = length cs \<and> kcalls k cs h = h @ zip cs rs"
proof (induction cs arbitrary: h)
  case Nil
  show ?case by (simp add: kcalls_def)
next
  case (Cons c cs)
  from Cons.IH [of "h @ [(c, k_result k h c)]"] obtain rs where
    "length rs = length cs" "kcalls k cs (h @ [(c, k_result k h c)]) = h @ (c, k_result k h c) # zip cs rs"
    by auto
  then show ?case
    by (intro exI [of _ "k_result k h c # rs"]) (simp add: kcalls_def)
qed

text \<open>A call that can modify a disk: it mounts a device without the read-only flag.\<close>

definition writes_disk :: "mount_call \<Rightarrow> bool" where
  "writes_disk c = (case c of
     MountCall (Some src) tgt ty fl _ \<Rightarrow> tgt = ''/data'' \<and> fl AND MS_RDONLY = 0
   | _ \<Rightarrow> False)"

lemma probe_call_ro: "\<not> writes_disk (probe_call dev)"
  by (simp add: writes_disk_def probe_call_def MS_RDONLY_def MS_NOATIME_def)

text \<open>The shape of a run: unsuccessful probes, then possibly the adoption of one device.\<close>

inductive probed :: "kernel \<Rightarrow> history \<Rightarrow> history \<Rightarrow> bool" for k where
  none: "probed k h h"
| unmountable: "probed k h h1 \<Longrightarrow> probed k h (h1 @ [(probe_call dev, Some e)])"
| foreign: "probed k h h1 \<Longrightarrow> \<not> k_exists k (h1 @ [(probe_call dev, None)]) sentinel \<Longrightarrow>
    probed k h (h1 @ [(probe_call dev, None), (UmountCall ''/data'', r)])"

lemma probed_trans: "probed k h1 h2 \<Longrightarrow> probed k h h1 \<Longrightarrow> probed k h h2"
  by (induction rule: probed.induct) (auto intro: probed.intros)

lemma probe_shape:
  "probed k h (probe k ds h) \<or>
   (\<exists>h1 dev. dev \<in> set ds \<and> probed k h h1 \<and> k_exists k h1 dev \<and>
      k_result k h1 (probe_call dev) = None \<and> k_exists k (h1 @ [(probe_call dev, None)]) sentinel \<and>
      probe k ds h = kcalls k (adopt_calls dev) (h1 @ [(probe_call dev, None)]))"
proof (induction ds arbitrary: h)
  case Nil
  show ?case by (simp add: probed.none)
next
  case (Cons dev ds)
  have lift: ?case if "probe k (dev # ds) h = probe k ds h2" and "probed k h h2" for h2
    using Cons.IH [of h2] that probed_trans [OF _ that(2)] by (metis list.set_intros(2))
  show ?case
  proof (cases "k_exists k h dev")
    case False
    then show ?thesis by (intro lift [of h]) (simp_all add: probed.none)
  next
    case True
    show ?thesis
    proof (cases "k_result k h (probe_call dev)")
      case (Some e)
      with True show ?thesis
        by (intro lift [of "h @ [(probe_call dev, Some e)]"])
          (simp_all add: kcall_def Let_def probed.none probed.unmountable)
    next
      case None
      show ?thesis
      proof (cases "k_exists k (h @ [(probe_call dev, None)]) sentinel")
        case False
        let ?h1 = "h @ [(probe_call dev, None)]"
        let ?h2 = "h @ [(probe_call dev, None), (UmountCall ''/data'', k_result k ?h1 (UmountCall ''/data''))]"
        from True None False show ?thesis
          by (intro lift [of ?h2])
            (simp_all add: kcall_def Let_def probed.none probed.foreign)
      next
        case t: True
        from True None t have "probe k (dev # ds) h = kcalls k (adopt_calls dev) (h @ [(probe_call dev, None)])"
          by (simp add: kcall_def Let_def)
        with True None t show ?thesis using probed.none [of k h] by fastforce
      qed
    qed
  qed
qed

lemma writes_disk_other [simp]: "\<not> writes_disk (UmountCall p)" "\<not> writes_disk (MkdirCall p)"
  by (simp_all add: writes_disk_def)

lemma probed_ro: "probed k h h' \<Longrightarrow> \<exists>t. h' = h @ t \<and> (\<forall>(c, r) \<in> set t. \<not> writes_disk c)"
proof (induction rule: probed.induct)
  case (none h)
  then show ?case by simp
next
  case (unmountable h h1 dev e)
  then show ?case using probe_call_ro [of dev] by auto
next
  case (foreign h h1 dev r)
  then show ?case using probe_call_ro [of dev] by auto
qed

definition remount_call :: "string \<Rightarrow> mount_call" where
  "remount_call dev = MountCall (Some dev) ''/data'' (Some ''ext4'') (MS_REMOUNT OR MS_NOATIME) None"

lemma adopt_shape:
  "\<exists>r rest. kcalls k (adopt_calls dev) h = h @ (remount_call dev, r) # rest \<and>
     (\<forall>(c, r) \<in> set rest. \<not> writes_disk c)"
proof -
  obtain rs where rs: "length rs = length (adopt_calls dev)"
    "kcalls k (adopt_calls dev) h = h @ zip (adopt_calls dev) rs" using kcalls_calls by blast
  then obtain r rs' where r: "rs = r # rs'" by (cases rs) (auto simp: adopt_calls_def)
  have "\<forall>c \<in> set (tl (adopt_calls dev)). \<not> writes_disk c"
    by (simp add: adopt_calls_def writes_disk_def)
  then have "\<forall>(c, r) \<in> set (zip (tl (adopt_calls dev)) rs'). \<not> writes_disk c"
    by (auto dest: set_zip_leftD)
  moreover have "zip (adopt_calls dev) rs = (remount_call dev, r) # zip (tl (adopt_calls dev)) rs'"
    by (simp add: r adopt_calls_def remount_call_def)
  ultimately show ?thesis using rs(2) by auto
qed

text \<open>What \<open>mount_each\<close> and \<open>create_dirs\<close> leave in the history.\<close>

definition entry_call :: "mount_entry \<Rightarrow> mount_call" where
  "entry_call e = MountCall (Some (me_source e)) (me_target e) (Some (me_fstype e)) (me_flags e) (me_data e)"

definition mounted :: "history \<Rightarrow> mount_call list" where
  "mounted t = map fst (filter (\<lambda>(c, r). r = None \<and> (case c of MountCall _ _ _ _ _ \<Rightarrow> True | _ \<Rightarrow> False)) t)"

definition made :: "history \<Rightarrow> string list" where
  "made t = List.map_filter (\<lambda>(c, r). case c of MkdirCall p \<Rightarrow> (if r = None then Some p else None) | _ \<Rightarrow> None) t"

lemma mounted_simps [simp]:
  "mounted [] = []" "mounted (s @ t) = mounted s @ mounted t"
  "mounted ((MkdirCall p, r) # t) = mounted t"
  "mounted ((MountCall a b c d e, None) # t) = MountCall a b c d e # mounted t"
  "mounted ((MountCall a b c d e, Some er) # t) = mounted t"
  by (simp_all add: mounted_def)

lemma made_simps [simp]:
  "made [] = []" "made (s @ t) = made s @ made t" "made ((MkdirCall p, None) # t) = p # made t"
  "made ((MkdirCall p, Some er) # t) = made t" "made ((MountCall a b c d e, r) # t) = made t"
  by (simp_all add: made_def map_filter_def)

lemma mount_one_run:
  "\<exists>t. snd (mount_one k e h) = h @ t \<and>
     mounted t = (if fst (mount_one k e h) = Inr () then [entry_call e] else [])"
  by (cases "k_result k h (MkdirCall (me_target e))";
      cases "k_result k h (entry_call e)";
      cases "k_result k (h @ [(MkdirCall (me_target e), None)]) (entry_call e)")
    (auto simp: mount_one_def ensure_mountpoint_def mkdir_p_def kcall_def Let_def entry_call_def)

lemma mount_each_run:
  "\<exists>t n. snd (mount_each k es h) = h @ t \<and> n \<le> length es \<and> mounted t = map entry_call (take n es) \<and>
     (fst (mount_each k es h) = Inr () \<longleftrightarrow> n = length es)"
proof (induction es arbitrary: h)
  case Nil
  show ?case by simp
next
  case (Cons e es)
  obtain t where t: "snd (mount_one k e h) = h @ t"
    "mounted t = (if fst (mount_one k e h) = Inr () then [entry_call e] else [])"
    using mount_one_run by blast
  show ?case
  proof (cases "fst (mount_one k e h)")
    case (Inl er)
    with t have "mount_one k e h = (Inl er, h @ t)" by (metis prod.collapse)
    with t Inl show ?thesis
      by (intro exI [of _ t] exI [of _ 0]) simp
  next
    case (Inr u)
    with t have one: "mount_one k e h = (Inr (), h @ t)" by (metis old.unit.exhaust prod.collapse)
    from Cons.IH [of "h @ t"] obtain t' n where ih: "snd (mount_each k es (h @ t)) = (h @ t) @ t'"
      "n \<le> length es" "mounted t' = map entry_call (take n es)"
      "fst (mount_each k es (h @ t)) = Inr () \<longleftrightarrow> n = length es" by blast
    with one t show ?thesis
      by (intro exI [of _ "t @ t'"] exI [of _ "Suc n"]) simp
  qed
qed

lemma create_dirs_run:
  "\<exists>t n. snd (create_dirs k ds h) = h @ t \<and> mounted t = [] \<and> n \<le> length ds \<and> made t = take n ds \<and>
     (fst (create_dirs k ds h) = Inr () \<longleftrightarrow> n = length ds)"
proof (induction ds arbitrary: h)
  case Nil
  show ?case by simp
next
  case (Cons d ds)
  show ?case
  proof (cases "k_result k h (MkdirCall d)")
    case (Some e)
    then show ?thesis
      by (intro exI [of _ "[(MkdirCall d, Some e)]"] exI [of _ 0])
        (simp add: mkdir_p_def kcall_def Let_def)
  next
    case None
    from Cons.IH [of "h @ [(MkdirCall d, None)]"] obtain t n where
      "snd (create_dirs k ds (h @ [(MkdirCall d, None)])) = (h @ [(MkdirCall d, None)]) @ t"
      "mounted t = []" "n \<le> length ds" "made t = take n ds"
      "fst (create_dirs k ds (h @ [(MkdirCall d, None)])) = Inr () \<longleftrightarrow> n = length ds" by blast
    with None show ?thesis
      by (intro exI [of _ "(MkdirCall d, None) # t"] exI [of _ "Suc n"])
        (simp add: mkdir_p_def kcall_def Let_def)
  qed
qed

section \<open>Properties\<close>

text \<open>
  \<open>mount_all\<close> mounts a prefix of the eight entries of \<open>MOUNTS\<close> in their order, with exactly the
  flags and options of the table, and it succeeds only when all of them are mounted and the six
  writable directories exist; on the first error nothing more is mounted.
\<close>

lemma mount_all_prefix:
  "\<exists>t n m. snd (mount_all k h) = h @ t \<and> mounted t = map entry_call (take n MOUNTS) \<and>
     n \<le> length MOUNTS \<and> m \<le> length var_dirs \<and>
     (fst (mount_all k h) = Inr () \<longleftrightarrow> n = length MOUNTS \<and> m = length var_dirs) \<and>
     (if n = length MOUNTS then \<exists>t1 t2. t = t1 @ t2 \<and> made t2 = take m var_dirs else m = 0)"
proof -
  obtain t n where t: "snd (mount_each k MOUNTS h) = h @ t" "n \<le> length MOUNTS"
    "mounted t = map entry_call (take n MOUNTS)"
    "fst (mount_each k MOUNTS h) = Inr () \<longleftrightarrow> n = length MOUNTS"
    using mount_each_run by blast
  show ?thesis
  proof (cases "fst (mount_each k MOUNTS h)")
    case (Inl er)
    then have "mount_all k h = (Inl er, h @ t)"
      using t(1) by (cases "mount_each k MOUNTS h") (simp add: mount_all_def)
    with t Inl show ?thesis by (intro exI [of _ t] exI [of _ n] exI [of _ 0]) simp
  next
    case (Inr u)
    obtain t' m where t': "snd (create_dirs k var_dirs (h @ t)) = (h @ t) @ t'" "mounted t' = []"
      "m \<le> length var_dirs" "made t' = take m var_dirs"
      "fst (create_dirs k var_dirs (h @ t)) = Inr () \<longleftrightarrow> m = length var_dirs"
      using create_dirs_run by blast
    have "mount_all k h = create_dirs k var_dirs (h @ t)"
      using t(1) Inr by (cases "mount_each k MOUNTS h") (simp add: mount_all_def)
    with t t' Inr show ?thesis
      by (intro exI [of _ "t @ t'"] exI [of _ n] exI [of _ m]) auto
  qed
qed

text \<open>
  C23: the probe for the data partition never writes to a foreign disk. Whatever the devices answer,
  \<open>mount_persistent\<close> makes no call that mounts a device on \<open>/data\<close> writable, or it makes exactly one:
  the remount of the device whose read-only mount directly before succeeded and showed the sentinel.
\<close>

theorem persistent_probe_safe:
  "\<exists>t. mount_persistent k h = h @ t \<and>
     (list_all (\<lambda>c. \<not> writes_disk (fst c)) t \<or>
      (\<exists>t1 dev r rest. t = t1 @ [(probe_call dev, None), (remount_call dev, r)] @ rest \<and>
         dev \<in> set devs \<and> k_exists k (h @ t1 @ [(probe_call dev, None)]) sentinel \<and>
         list_all (\<lambda>c. \<not> writes_disk (fst c)) (t1 @ rest)))"
proof -
  consider (a) "probed k h (mount_persistent k h)"
    | (b) h1 dev where "dev \<in> set devs" "probed k h h1"
      "k_exists k (h1 @ [(probe_call dev, None)]) sentinel"
      "mount_persistent k h = kcalls k (adopt_calls dev) (h1 @ [(probe_call dev, None)])"
    using probe_shape [of k h devs] by (auto simp: mount_persistent_def)
  then show ?thesis
  proof cases
    case a
    then show ?thesis using probed_ro [OF a] by (fastforce simp: list_all_iff)
  next
    case b
    from probed_ro [OF b(2)] obtain t1 where t1: "h1 = h @ t1" "\<forall>(c, r) \<in> set t1. \<not> writes_disk c" by blast
    from adopt_shape [of k dev "h1 @ [(probe_call dev, None)]"] obtain r rest where
      r: "kcalls k (adopt_calls dev) (h1 @ [(probe_call dev, None)]) =
        (h1 @ [(probe_call dev, None)]) @ (remount_call dev, r) # rest"
      "\<forall>(c, r) \<in> set rest. \<not> writes_disk c" by blast
    let ?t = "t1 @ [(probe_call dev, None), (remount_call dev, r)] @ rest"
    have "mount_persistent k h = h @ ?t" using b(4) r(1) t1(1) by simp
    moreover have "list_all (\<lambda>c. \<not> writes_disk (fst c)) (t1 @ rest)"
      using t1(2) r(2) by (auto simp: list_all_iff)
    ultimately show ?thesis using b(1,3) t1(1)
      by (intro exI [of _ ?t] conjI disjI2 exI [of _ t1] exI [of _ dev] exI [of _ r] exI [of _ rest]) simp_all
  qed
qed

end
