(* ===== verification/Nulld.thy ===== *)
theory Nulld
  imports Control Mount
begin

text \<open>
  Model of \<open>cmd/nulld/src/main.rs\<close>, of the main loop in \<open>supervisor.rs\<close> and of the signal handlers in
  \<open>signal.rs\<close>: PID 1 from its first instruction to the reboot. A run is driven by a list of ticks, the
  input of one iteration of the main loop each; a list that ends before a shutdown stands for a system
  that is still running.
\<close>

section \<open>Signals\<close>

datatype handler = SigDfl | HandleShutdown

fun sigactions ::
    "(string \<Rightarrow> io_error option) \<Rightarrow> (string \<times> handler) list \<Rightarrow> io_error + (string \<times> handler) list" where
  "sigactions sig [] = Inr []"
| "sigactions sig ((s, h) # rest) =
     (case sig s of
        Some e \<Rightarrow> Inl e
      | None \<Rightarrow> res_bind (sigactions sig rest) (\<lambda>hs. Inr ((s, h) # hs)))"

definition install_handlers :: "(string \<Rightarrow> io_error option) \<Rightarrow> string + (string \<times> handler) list" where
  "install_handlers sig =
     map_err (\<lambda>e. ''sigaction failed: '' @ e)
       (sigactions sig [(''SIGCHLD'', SigDfl), (''SIGTERM'', HandleShutdown), (''SIGINT'', HandleShutdown)])"

section \<open>The main loop\<close>

text \<open>
  What happens during one iteration: whether SIGTERM or SIGINT arrived before the test of the flag,
  the answers of \<open>waitpid\<close>, and the connections on the control socket.
\<close>

record tick =
  t_signal :: bool
  t_waits :: "wait_result list"
  t_accepts :: "accept_result list"

text \<open>\<open>None\<close>: the loop has not returned within the ticks.\<close>

fun run_until_shutdown ::
    "((string \<times> managed) list \<Rightarrow> (string \<times> managed) list) \<Rightarrow> os \<Rightarrow> (string \<Rightarrow> string + json) \<Rightarrow>
     (string \<Rightarrow> string) \<Rightarrow> tick list \<Rightarrow> supervisor \<times> world \<Rightarrow> bool \<Rightarrow> (supervisor \<times> world) option" where
  "run_until_shutdown it os serde err [] s flag = None"
| "run_until_shutdown it os serde err (t # ts) s flag =
     (if flag \<or> t_signal t then Some s
      else
        (let s1 = handle_exits it os (reap_children (t_waits t)) s;
             s2 = process_restarts it os s1;
             (flag', _) = poll serde err (fst s2) (t_accepts t) False;
             s3 = (fst s2, sleep main_loop_interval (snd s2))
         in run_until_shutdown it os serde err ts s3 flag'))"

section \<open>Main\<close>

text \<open>The machine nulld boots on: what the kernel, the disk and the libraries answer.\<close>

record machine =
  b_pid :: u32
  b_kernel :: kernel
  b_sig :: "string \<Rightarrow> io_error option"
  b_config :: "(io_error + string) option"
  b_toml :: "string \<Rightarrow> string + (string, raw_entry) hashmap"
  b_io :: io_oracle
  b_os :: os
  b_serde :: "string \<Rightarrow> string + json"
  b_serde_error :: "string \<Rightarrow> string"

text \<open>The iteration orders of the three hash maps.\<close>

record orders =
  o_config :: "(string \<times> service_entry) list \<Rightarrow> (string \<times> service_entry) list"
  o_services :: "(string \<times> managed) list \<Rightarrow> (string \<times> managed) list"
  o_degrees :: "(string \<times> nat) list \<Rightarrow> (string \<times> nat) list"

definition orders_ok :: "orders \<Rightarrow> bool" where
  "orders_ok o' \<longleftrightarrow> is_iter (o_config o') \<and> is_iter (o_services o') \<and> is_iter (o_degrees o')"

datatype run_result = Stopped_ok "supervisor \<times> world" | Run_error string | Still_running | Panicked

definition boot_services :: "machine \<Rightarrow> orders \<Rightarrow> fs \<Rightarrow> string + service_def list" where
  "boot_services b o' f =
     (case mount_all (b_kernel b) [] of
        (Inl e, _) \<Rightarrow> Inl (show_mount_error e)
      | (Inr _, _) \<Rightarrow>
          res_bind (install_handlers (b_sig b)) (\<lambda>_.
          res_bind (map_err show_config_error (load_services (b_toml b) (o_config o') (b_config b))) (\<lambda>svcs.
          (case bind_control (b_io b) f of
             (Inl e, _) \<Rightarrow> Inl e
           | (Inr _, _) \<Rightarrow> Inr svcs))))"

definition run :: "machine \<Rightarrow> orders \<Rightarrow> fs \<Rightarrow> world \<Rightarrow> tick list \<Rightarrow> run_result" where
  "run b o' f w ticks =
     (if b_pid b \<noteq> 1 then Run_error (''nulld must run as PID 1, got PID '' @ show_nat (unat (b_pid b)))
      else
        (case boot_services b o' f of
           Inl e \<Rightarrow> Run_error e
         | Inr svcs \<Rightarrow>
             (case start_all (o_services o') (o_degrees o') (b_os b) (new_supervisor svcs, w) of
                None \<Rightarrow> Panicked
              | Some (Inl e, _) \<Rightarrow> Run_error (show_supervisor_error e)
              | Some (Inr _, s) \<Rightarrow>
                  (case run_until_shutdown (o_services o') (b_os b) (b_serde b) (b_serde_error b) ticks s False of
                     None \<Rightarrow> Still_running
                   | Some s' \<Rightarrow> Stopped_ok (stop_all (b_os b) s')))))"

text \<open>The mounts that a run leaves behind, the probe for the data partition included.\<close>

definition run_mounts :: "machine \<Rightarrow> history" where
  "run_mounts b =
     (case mount_all (b_kernel b) [] of
        (Inl _, h) \<Rightarrow> h
      | (Inr _, h) \<Rightarrow> mount_persistent (b_kernel b) h)"

text \<open>
  How \<open>main\<close> ends. \<open>unwinds\<close> is the panic strategy of the build: with \<open>panic = "abort"\<close> the
  \<open>catch_unwind\<close> of \<open>main\<close> catches nothing and PID 1 dies, which the kernel answers with a panic.
\<close>

datatype outcome = Reboots | Recovery_hold | Kernel_panic | Runs

definition nulld_main :: "bool \<Rightarrow> run_result \<Rightarrow> outcome" where
  "nulld_main unwinds r =
     (case r of
        Stopped_ok _ \<Rightarrow> Reboots
      | Run_error _ \<Rightarrow> Recovery_hold
      | Panicked \<Rightarrow> (if unwinds then Recovery_hold else Kernel_panic)
      | Still_running \<Rightarrow> Runs)"

section \<open>Lemmas\<close>

text \<open>The loop returns at the first tick whose test sees the flag.\<close>

fun shuts_down :: "(string \<Rightarrow> string + json) \<Rightarrow> bool \<Rightarrow> tick list \<Rightarrow> bool" where
  "shuts_down serde flag [] = False"
| "shuts_down serde flag (t # ts) =
     (flag \<or> t_signal t \<or> shuts_down serde (poll_shutdown serde (t_accepts t)) ts)"

lemma run_until_shutdown_Cons:
  "\<not> flag \<Longrightarrow> \<not> t_signal t \<Longrightarrow>
   \<exists>s'. (fst s', snd s') = s' \<and> run_until_shutdown it os serde err (t # ts) s flag =
       run_until_shutdown it os serde err ts s' (poll_shutdown serde (t_accepts t)) \<and>
     (sv_step it os)\<^sup>*\<^sup>* s s'"
proof -
  assume f: "\<not> flag" "\<not> t_signal t"
  let ?s1 = "handle_exits it os (reap_children (t_waits t)) s"
  let ?s2 = "process_restarts it os ?s1"
  let ?s3 = "(fst ?s2, sleep main_loop_interval (snd ?s2))"
  obtain fl out where p: "poll serde err (fst ?s2) (t_accepts t) False = (fl, out)"
    by (cases "poll serde err (fst ?s2) (t_accepts t) False")
  then have "fl = poll_shutdown serde (t_accepts t)"
    using poll_flag [of serde err "fst ?s2" "t_accepts t" False] by simp
  with p f have "run_until_shutdown it os serde err (t # ts) s flag =
      run_until_shutdown it os serde err ts ?s3 (poll_shutdown serde (t_accepts t))"
    unfolding run_until_shutdown.simps Let_def by simp
  moreover have "(sv_step it os)\<^sup>*\<^sup>* s ?s1"
  proof -
    have "(sv_step it os)\<^sup>*\<^sup>* u (handle_exits it os rs u)" for rs u
      by (induction it os rs u rule: handle_exits.induct)
        (auto intro: converse_rtranclp_into_rtranclp sv_step.Exit)
    then show ?thesis .
  qed
  moreover have "sv_step it os ?s1 ?s2" by (rule sv_step.Restarts)
  moreover have "sv_step it os ?s2 ?s3"
    using sv_step.Sleep [of it os "fst ?s2" "snd ?s2"] by simp
  ultimately show ?thesis
    by (intro exI [of _ ?s3]) (auto intro: rtranclp.rtrancl_into_rtrancl)
qed

lemma run_until_shutdown_result:
  "if shuts_down serde flag ts
   then \<exists>s'. run_until_shutdown it os serde err ts s flag = Some s' \<and> (sv_step it os)\<^sup>*\<^sup>* s s'
   else run_until_shutdown it os serde err ts s flag = None"
proof (induction ts arbitrary: s flag)
  case Nil
  show ?case by simp
next
  case (Cons t ts)
  show ?case
  proof (cases "flag \<or> t_signal t")
    case True
    then show ?thesis by auto
  next
    case False
    then obtain s' where s': "run_until_shutdown it os serde err (t # ts) s flag =
       run_until_shutdown it os serde err ts s' (poll_shutdown serde (t_accepts t))"
      "(sv_step it os)\<^sup>*\<^sup>* s s'"
      using run_until_shutdown_Cons [of flag t] by blast
    show ?thesis
      using Cons.IH [of "poll_shutdown serde (t_accepts t)" s'] False s'
      by (auto intro: rtranclp_trans split: if_splits)
  qed
qed

lemma reachable_steps:
  "(sv_step it os)\<^sup>*\<^sup>* s s' \<Longrightarrow> reachable it git os defs s \<Longrightarrow> reachable it git os defs s'"
  by (induction rule: rtranclp_induct) (auto intro: reachable.Step)

lemma load_services_distinct:
  assumes "is_iter cit" and "\<And>c raws. toml c = Inr raws \<Longrightarrow> hm_ok raws"
    and "load_services toml cit cfg = Inr svcs"
  shows "distinct (map name svcs)"
proof (cases cfg)
  case None
  with assms(3) have "svcs = builtin_services" by (simp add: load_services_def)
  then show ?thesis by (simp add: builtin_names base_services_def)
next
  case (Some r)
  with assms(3) obtain c where "parse_config toml cit c = Inr svcs"
    by (auto simp: load_services_def res_bind_eq_Inr)
  then obtain raws where "toml c = Inr raws"
    by (auto simp: parse_config_def res_bind_eq_Inr)
  with assms(1,2) \<open>parse_config toml cit c = Inr svcs\<close> show ?thesis
    using services_distinct(1) by blast
qed

lemma stop_each_clears:
  "n \<in> set ns \<Longrightarrow> pid_of (fst (fold (stop_service os) ns s)) n = None"
proof (induction ns arbitrary: s)
  case Nil
  then show ?case by simp
next
  case (Cons m ns)
  have keep: "pid_of (fst s) n = None \<Longrightarrow> pid_of (fst (fold (stop_service os) ns s)) n = None" for ns s
  proof (induction ns arbitrary: s)
    case Nil
    then show ?case by simp
  next
    case (Cons m ns)
    have "pid_of (fst (stop_service os m s)) n = None" using Cons.prems
      by (cases s) (auto simp: stop_service_def pid_of_def Let_def split: option.split prod.split)
    then show ?case using Cons.IH by simp
  qed
  have "pid_of (fst (stop_service os n s)) n = None"
    by (cases s) (auto simp: stop_service_def pid_of_def Let_def split: option.split prod.split)
  with Cons keep show ?case by (cases "n = m") auto
qed

lemma stop_all_clears: "n \<in> set (start_order (fst s)) \<Longrightarrow> pid_of (fst (stop_all os s)) n = None"
  by (simp add: stop_all_def stop_each_clears)

lemma sv_step_frame:
  assumes "sv_step it os s s'" and "is_iter it" and "sv_inv (fst s)"
  shows "start_order (fst s') = start_order (fst s) \<and>
    hm_keys (services (fst s')) = hm_keys (services (fst s))"
proof -
  have keys: "hm_keys (services (fst s')) = hm_keys (services (fst s))"
  proof -
    have "rel_option (\<lambda>a b. a = b \<or> life a b) (state_of (fst s) n) (state_of (fst s') n)" for n
      using sv_step_life [OF assms] by (simp add: life_keeps_def)
    then have "(state_of (fst s) n = None) = (state_of (fst s') n = None)" for n
      by (metis option.rel_distinct(1) option.rel_distinct(2) option.exhaust)
    then show ?thesis by (simp add: hm_keys_dom state_of_def dom_def)
  qed
  have restart: "start_order (fst (restart_each os ns u)) = start_order (fst u)" for ns u
    by (induction os ns u rule: restart_each.induct) simp_all
  have "start_order (fst s') = start_order (fst s)"
    using assms(1)
  proof cases
    case (Exit pid reason)
    then show ?thesis
      by (cases s) (auto simp: handle_child_exit_def Let_def split: option.split prod.split)
  next
    case Restarts
    then show ?thesis by (cases s) (simp add: process_restarts_eq restart)
  next
    case (Sleep sv w d)
    then show ?thesis by simp
  next
    case (Stop n)
    then show ?thesis
      by (cases s) (auto simp: stop_service_def Let_def split: option.split prod.split)
  qed
  with keys show ?thesis by simp
qed

lemma sv_steps_frame:
  assumes "(sv_step it os)\<^sup>*\<^sup>* s s'" and "is_iter it" and "sv_inv (fst s)"
  shows "start_order (fst s') = start_order (fst s) \<and>
    hm_keys (services (fst s')) = hm_keys (services (fst s)) \<and> sv_inv (fst s')"
  using assms(1)
proof (induction rule: rtranclp_induct)
  case base
  show ?case using assms(3) by simp
next
  case (step a b)
  then show ?case using sv_step_frame [OF step.hyps(2) assms(2)] sv_step_inv [OF step.hyps(2) assms(2)] by simp
qed

lemma start_each_frame:
  "start_order (fst (snd (start_each os ns s))) = start_order (fst s) \<and>
   hm_keys (services (fst (snd (start_each os ns s)))) = hm_keys (services (fst s))"
proof (induction os ns s rule: start_each.induct)
  case (1 os s)
  show ?case by simp
next
  case (2 os n ns s)
  obtain r s' where r: "start_service os n s = (r, s')" by (cases "start_service os n s")
  with start_service_order [of os n s] start_service_names [of os n s]
  have f: "start_order (fst s') = start_order (fst s)" "hm_keys (services (fst s')) = hm_keys (services (fst s))"
    by simp_all
  show ?case
  proof (cases r)
    case (Inl e)
    with r f show ?thesis by simp
  next
    case (Inr u)
    with 2 r f show ?thesis by simp
  qed
qed

lemma start_all_total:
  assumes "is_iter git"
  shows "\<exists>r s. start_all it git os u = Some (r, s)"
proof (cases u)
  case (Pair sv w)
  obtain r where r: "resolve_start_order git (map (m_def \<circ> snd) (it (services sv))) = Some r"
    using kahn.total [OF assms] by fastforce
  then show ?thesis
    by (cases r; cases "start_each os (projr r) (sv\<lparr>start_order := projr r\<rparr>, w)")
      (simp_all add: start_all_def Pair)
qed

lemma start_all_covers:
  assumes "is_iter it" and "is_iter git"
    and "start_all it git os (new_supervisor defs, w) = Some (Inr (), s)"
  shows "set (start_order (fst s)) = hm_keys (services (fst s)) \<and> distinct (start_order (fst s))"
proof (rule start_all_cases [OF assms(1,2), of os "new_supervisor defs" w])
  fix e
  assume "start_all it git os (new_supervisor defs, w) =
    Some (Inl (DependencyError (show_dep_error e)), new_supervisor defs, w)"
  with assms(3) show ?thesis by simp
next
  fix order
  let ?sv = "new_supervisor defs\<lparr>start_order := order\<rparr>"
  assume run: "start_all it git os (new_supervisor defs, w) = Some (start_each os order (?sv, w))"
    and ok: "resolve_start_order git (map (m_def \<circ> snd) (it (services (new_supervisor defs)))) = Some (Inr order)"
  from run assms(3) have s: "start_each os order (?sv, w) = (Inr (), s)" by simp
  have "set order = hm_keys (services (new_supervisor defs))" "distinct order"
    using kahn.names [OF assms(2) ok] defs_names [OF sv_inv_new assms(1), of defs] by simp_all
  with start_each_frame [of os order "(?sv, w)"] s show ?thesis by simp
qed

section \<open>Properties\<close>

text \<open>
  C24: a request to shut down is honoured, and nothing else ends the main loop. Over any list of ticks
  the loop returns exactly when some tick sees SIGTERM or SIGINT, or a tick before the last has a
  connection with a well-formed \<open>shutdown\<close> line that no malformed line precedes; it returns before
  the next reaping, and the supervisor it returns is reached by supervisor operations only.
\<close>

theorem shutdown_honoured:
  "((\<exists>s'. run_until_shutdown it os serde err ts s False = Some s') \<longleftrightarrow>
      (\<exists>t \<in> set ts. t_signal t) \<or> (\<exists>t \<in> set (butlast ts). poll_shutdown serde (t_accepts t))) \<and>
   (case run_until_shutdown it os serde err ts s False of
      None \<Rightarrow> True
    | Some s' \<Rightarrow> (sv_step it os)\<^sup>*\<^sup>* s s')"
proof -
  have down: "shuts_down serde flag ts \<longleftrightarrow>
      (flag \<and> ts \<noteq> []) \<or> (\<exists>t \<in> set ts. t_signal t) \<or> (\<exists>t \<in> set (butlast ts). poll_shutdown serde (t_accepts t))" for flag
    by (induction ts arbitrary: flag) auto
  show ?thesis
    using run_until_shutdown_result [of serde False ts it os err s] down [of False]
    by (cases "shuts_down serde False ts") auto
qed

lemma stop_service_frame:
  "n \<noteq> m \<Longrightarrow> map_of (services (fst (stop_service os m u))) n = map_of (services (fst u)) n"
  by (cases u) (auto simp: stop_service_def Let_def split: option.split prod.split)

lemma stop_each_frame:
  "n \<notin> set ns \<Longrightarrow> map_of (services (fst (fold (stop_service os) ns u))) n = map_of (services (fst u)) n"
  by (induction ns arbitrary: u) (simp_all add: stop_service_frame)

text \<open>When every service is in the start order, nothing is left running after the stop.\<close>

lemma stop_all_no_pid:
  assumes "set (start_order (fst s)) = hm_keys (services (fst s))"
  shows "pid_of (fst (stop_all os s)) n = None"
proof (cases "n \<in> set (start_order (fst s))")
  case True
  then show ?thesis by (rule stop_all_clears)
next
  case False
  then have "map_of (services (fst s)) n = None" using assms by (auto simp: hm_keys_dom)
  then show ?thesis using False by (simp add: stop_all_def pid_of_def stop_each_frame)
qed

lemma run_covers:
  assumes "is_iter it" "is_iter git" "start_all it git os (new_supervisor svcs, w) = Some (Inr (), s)"
    and "run_until_shutdown it os serde err ticks s False = Some s'"
  shows "set (start_order (fst s')) = hm_keys (services (fst s'))"
proof -
  have "(sv_step it os)\<^sup>*\<^sup>* s s'"
    using run_until_shutdown_result [of serde False ticks it os err s] assms(4) by (auto split: if_splits)
  from sv_steps_frame [OF this assms(1) start_all_inv [OF assms(1-3)]] start_all_covers [OF assms(1-3)]
  show ?thesis by simp
qed


definition sample_orders :: orders where
  "sample_orders = \<lparr>o_config = id, o_services = rev, o_degrees = id\<rparr>"

definition sample_machine :: "u32 \<Rightarrow> machine" where
  "sample_machine pid = \<lparr>b_pid = pid, b_kernel = \<lparr>k_result = (\<lambda>_ _. None), k_exists = (\<lambda>_ _. True)\<rparr>,
     b_sig = (\<lambda>_. None), b_config = None, b_toml = (\<lambda>_. Inr []), b_io = (\<lambda>_. None), b_os = sample_os,
     b_serde = (\<lambda>_. Inl ''eof''), b_serde_error = (\<lambda>_. ''missing'')\<rparr>"


end
