(* ===== verification/Ip.thy ===== *)
theory Ip
  imports Text
begin

text \<open>
  \<open>std::net::IpAddr\<close> as egress uses it: the two address kinds with the derived order (so that a
  \<open>BTreeSet\<close> of addresses is a sorted list), their textual form, and the parser of dotted IPv4
  addresses. Parsing undoes printing on IPv4 addresses.
\<close>

section \<open>Addresses and their order\<close>

datatype ip_addr = V4 u8 u8 u8 u8 | V6 "128 word"

definition v4_num :: "u8 \<Rightarrow> u8 \<Rightarrow> u8 \<Rightarrow> u8 \<Rightarrow> nat" where
  "v4_num a b c d = ((unat a * 256 + unat b) * 256 + unat c) * 256 + unat d"

fun ip_key :: "ip_addr \<Rightarrow> nat" where
  "ip_key (V4 a b c d) = v4_num a b c d"
| "ip_key (V6 w) = 2 ^ 32 + unat w"

lemma digit256_eq:
  assumes "b < 256" and "d < 256"
  shows "a * 256 + b = c * 256 + d \<longleftrightarrow> a = c \<and> b = (d :: nat)"
proof
  assume e: "a * 256 + b = c * 256 + d"
  have "(a * 256 + b) div 256 = a" "(a * 256 + b) mod 256 = b"
    "(c * 256 + d) div 256 = c" "(c * 256 + d) mod 256 = d" using assms by simp_all
  with e show "a = c \<and> b = d" by metis
qed simp

lemma unat_u8: "unat (a :: u8) < 256"
  using unsigned_less [of a] by simp

lemma v4_num_inject:
  "v4_num a b c d = v4_num a' b' c' d' \<longleftrightarrow> a = a' \<and> b = b' \<and> c = c' \<and> d = d'"
  by (simp only: v4_num_def digit256_eq [OF unat_u8 unat_u8] word_unat_eq_iff conj_assoc)

lemma v4_num_less: "v4_num a b c d < 2 ^ 32"
  using unat_u8 [of a] unat_u8 [of b] unat_u8 [of c] unat_u8 [of d] by (simp add: v4_num_def)

lemma ip_key_inject: "ip_key x = ip_key y \<longleftrightarrow> x = y"
  using v4_num_less by (cases x; cases y) (auto simp: v4_num_inject word_unat_eq_iff, (metis not_add_less1)+)

instantiation ip_addr :: linorder
begin

definition less_eq_ip_addr :: "ip_addr \<Rightarrow> ip_addr \<Rightarrow> bool" where
  "x \<le> y \<longleftrightarrow> ip_key x \<le> ip_key y"

definition less_ip_addr :: "ip_addr \<Rightarrow> ip_addr \<Rightarrow> bool" where
  "x < y \<longleftrightarrow> ip_key x < ip_key y"

instance
  by intro_classes (auto simp: less_eq_ip_addr_def less_ip_addr_def ip_key_inject)

end

type_synonym ip_set = "ip_addr list"

definition ip_insert :: "ip_addr \<Rightarrow> ip_set \<Rightarrow> ip_set" where
  "ip_insert ip s = insort_insert ip s"

definition ip_set_ok :: "ip_set \<Rightarrow> bool" where
  "ip_set_ok s \<longleftrightarrow> sorted s \<and> distinct s"

lemma ip_insert_set [simp]: "set (ip_insert ip s) = insert ip (set s)"
  by (simp add: ip_insert_def set_insort_insert)

lemma ip_insert_ok [simp]: "ip_set_ok s \<Longrightarrow> ip_set_ok (ip_insert ip s)"
  by (simp add: ip_insert_def ip_set_ok_def sorted_insort_insert distinct_insort_insert)

lemma ip_set_ok_filter [simp]: "ip_set_ok s \<Longrightarrow> ip_set_ok (filter P s)"
  by (simp add: ip_set_ok_def sorted_wrt_filter)

section \<open>Text\<close>

definition show_v4 :: "u8 \<Rightarrow> u8 \<Rightarrow> u8 \<Rightarrow> u8 \<Rightarrow> string" where
  "show_v4 a b c d = join ''.'' (map (show_nat \<circ> unat) [a, b, c, d])"

definition hex_digit :: "nat \<Rightarrow> char" where
  "hex_digit d = (if d < 10 then char_of (48 + d) else char_of (87 + d))"

fun show_hex :: "nat \<Rightarrow> string" where
  "show_hex n = (if n < 16 then [hex_digit n] else show_hex (n div 16) @ [hex_digit (n mod 16)])"

declare show_hex.simps [simp del]

definition segments :: "128 word \<Rightarrow> nat list" where
  "segments w = map (\<lambda>i. unat w div 65536 ^ (7 - i) mod 65536) [0..<8]"

text \<open>The first longest run of zero segments: its start and length.\<close>

fun zero_run :: "nat list \<Rightarrow> nat" where
  "zero_run (0 # xs) = Suc (zero_run xs)"
| "zero_run _ = 0"

definition longest_zeros :: "nat list \<Rightarrow> nat \<times> nat" where
  "longest_zeros xs =
     foldl (\<lambda>(s, l) i. let r = zero_run (drop i xs) in if l < r then (i, r) else (s, l)) (0, 0) [0..<length xs]"

definition show_v6 :: "128 word \<Rightarrow> string" where
  "show_v6 w =
     (let xs = segments w; (s, l) = longest_zeros xs; n = unat w
      in if take 6 xs = [0, 0, 0, 0, 0, 65535] then
           ''::ffff:'' @ join ''.'' (map show_nat [n div 16777216 mod 256, n div 65536 mod 256, n div 256 mod 256, n mod 256])
         else if 1 < l then join '':'' (map show_hex (take s xs)) @ ''::'' @ join '':'' (map show_hex (drop (s + l) xs))
         else join '':'' (map show_hex xs))"

fun show_ip :: "ip_addr \<Rightarrow> string" where
  "show_ip (V4 a b c d) = show_v4 a b c d"
| "show_ip (V6 w) = show_v6 w"

text \<open>One octet: one to three digits without a leading zero, at most 255.\<close>

definition parse_octet :: "string \<Rightarrow> u8 option" where
  "parse_octet s =
     (if s \<noteq> [] \<and> length s \<le> 3 \<and> (\<forall>c \<in> set s. is_digit c) \<and>
         (length s = 1 \<or> hd s \<noteq> CHR ''0'') \<and> nat_of_digits 0 s \<le> 255
      then Some (of_nat (nat_of_digits 0 s)) else None)"

definition parse_v4 :: "string \<Rightarrow> ip_addr option" where
  "parse_v4 s =
     (case split_on (CHR ''.'') s of
        [p, q, r, t] \<Rightarrow>
          (case (parse_octet p, parse_octet q, parse_octet r, parse_octet t) of
             (Some a, Some b, Some c, Some d) \<Rightarrow> Some (V4 a b c d)
           | _ \<Rightarrow> None)
      | _ \<Rightarrow> None)"

section \<open>Round trip\<close>

lemma is_digit_simps: "is_digit c \<Longrightarrow> c \<noteq> CHR ''.'' \<and> c \<noteq> CHR '' '' \<and> c \<noteq> CHR 10 \<and> c \<noteq> CHR ''/''"
  by (auto simp: is_digit_def)

lemma show_nat_free: "CHR ''.'' \<notin> set (show_nat n)" "CHR '' '' \<notin> set (show_nat n)"
  "CHR 10 \<notin> set (show_nat n)" "CHR ''/'' \<notin> set (show_nat n)"
  using show_nat_digits is_digit_simps by blast+

lemma show_nat_length: "n < 1000 \<Longrightarrow> length (show_nat n) \<le> 3"
  by (subst show_nat.simps, simp, subst show_nat.simps, simp, subst show_nat.simps, simp)

lemma digit_0: "digit 0 = CHR ''0''"
proof -
  have "of_char (digit 0) = (of_char (CHR ''0'') :: nat)" by (simp add: digit_def)
  then show ?thesis by (simp only: of_char_eq_iff)
qed

lemma digit_zero: "d < 10 \<Longrightarrow> digit d = CHR ''0'' \<longleftrightarrow> d = 0"
  by (metis digit_0 digit_val_digit zero_less_numeral)

lemma hd_show_nat: "0 < n \<Longrightarrow> hd (show_nat n) \<noteq> CHR ''0''"
proof (induction n rule: show_nat.induct)
  case (1 n)
  show ?case
  proof (cases "n < 10")
    case True
    with 1 show ?thesis by (subst show_nat.simps) (simp add: digit_zero)
  next
    case False
    with 1 have "hd (show_nat (n div 10)) \<noteq> CHR ''0''" by simp
    with False show ?thesis by (subst show_nat.simps) simp
  qed
qed

lemma show_nat_zero: "show_nat 0 = ''0''"
  by (subst show_nat.simps) (simp add: digit_0)

lemma parse_octet_show [simp]: "parse_octet (show_nat (unat a)) = Some a"
proof -
  have u: "unat a < 256" by (rule unat_u8)
  have "length (show_nat (unat a)) = 1 \<or> hd (show_nat (unat a)) \<noteq> CHR ''0''"
    by (cases "unat a = 0") (auto simp: show_nat_zero hd_show_nat)
  moreover have "\<forall>c \<in> set (show_nat (unat a)). is_digit c" using show_nat_digits by blast
  ultimately show ?thesis
    using u show_nat_length [of "unat a"] by (simp add: parse_octet_def)
qed

lemma split_show_v4: "split_on (CHR ''.'') (show_v4 a b c d) = map (show_nat \<circ> unat) [a, b, c, d]"
  unfolding show_v4_def by (rule split_on_join_sep_free) (auto simp: show_nat_free)

lemma parse_show_v4 [simp]: "parse_v4 (show_v4 a b c d) = Some (V4 a b c d)"
  unfolding parse_v4_def split_show_v4 by simp

lemma show_v4_free:
  "CHR '' '' \<notin> set (show_v4 a b c d)" "CHR 10 \<notin> set (show_v4 a b c d)" "CHR ''/'' \<notin> set (show_v4 a b c d)"
  by (simp_all add: show_v4_def show_nat_free)

end
