(* ===== verification/Blocklist.thy ===== *)
theory Blocklist
  imports Ip
begin

text \<open>
  Model of \<open>pkg/egress/src/blocklist.rs\<close>: the address ranges no agent may reach and the test of one
  address. The test is hand-coded on the octets; the lemmas compare it with the CIDR lists.
\<close>

section \<open>The lists and the test\<close>

definition CLOUD_METADATA_CIDRS :: "string list" where
  "CLOUD_METADATA_CIDRS = [''169.254.169.254/32'', ''100.100.100.200/32'', ''fd00:ec2::254/128'']"

definition RFC1918_CIDRS :: "string list" where
  "RFC1918_CIDRS = [''10.0.0.0/8'', ''172.16.0.0/12'', ''192.168.0.0/16'']"

definition LINK_LOCAL_CIDRS :: "string list" where
  "LINK_LOCAL_CIDRS = [''169.254.0.0/16'', ''fe80::/10'']"

fun is_blocked :: "ip_addr \<Rightarrow> bool" where
  "is_blocked (V4 a b c d) =
     (if a = 10 then True
      else if a = 172 \<and> 16 \<le> b \<and> b \<le> 31 then True
      else if a = 192 \<and> b = 168 then True
      else if a = 169 \<and> b = 254 then True
      else if [a, b, c, d] = [100, 100, 100, 200] then True
      else False)"
| "is_blocked (V6 w) = True"

section \<open>CIDR blocks\<close>

text \<open>An IPv4 block: its network address and the length of the prefix.\<close>

type_synonym cidr4 = "nat \<times> nat"

definition parse_cidr4 :: "string \<Rightarrow> cidr4 option" where
  "parse_cidr4 s =
     (case split_on (CHR ''/'') s of
        [p, l] \<Rightarrow> map_option (\<lambda>ip. (ip_key ip, nat_of_digits 0 l)) (parse_v4 p)
      | _ \<Rightarrow> None)"

definition in_cidr4 :: "cidr4 \<Rightarrow> ip_addr \<Rightarrow> bool" where
  "in_cidr4 c ip =
     (case ip of
        V4 a b c' d \<Rightarrow> v4_num a b c' d div 2 ^ (32 - snd c) = fst c div 2 ^ (32 - snd c)
      | V6 _ \<Rightarrow> False)"

definition blocked_cidrs :: "cidr4 list" where
  "blocked_cidrs = List.map_filter parse_cidr4 (CLOUD_METADATA_CIDRS @ RFC1918_CIDRS @ LINK_LOCAL_CIDRS)"

lemma blocked_cidrs_values:
  "blocked_cidrs = [(v4_num 169 254 169 254, 32), (v4_num 100 100 100 200, 32), (v4_num 10 0 0 0, 8),
     (v4_num 172 16 0 0, 12), (v4_num 192 168 0 0, 16), (v4_num 169 254 0 0, 16)]"
  by (simp add: blocked_cidrs_def CLOUD_METADATA_CIDRS_def RFC1918_CIDRS_def LINK_LOCAL_CIDRS_def
      map_filter_simps parse_cidr4_def parse_v4_def parse_octet_def is_digit_def digit_val_def)

lemma v4_num_div:
  "v4_num a b c d div 2 ^ 24 = unat a" "v4_num a b c d div 2 ^ 16 = unat a * 256 + unat b"
  "v4_num a b c d div 2 ^ 20 = unat a * 16 + unat b div 16"
proof -
  note u = unat_u8 [of a] unat_u8 [of b] unat_u8 [of c] unat_u8 [of d]
  let ?ab = "unat a * 256 + unat b"
  have "v4_num a b c d div 256 div 256 = ?ab" using u by (simp add: v4_num_def)
  then show ab: "v4_num a b c d div 2 ^ 16 = ?ab" by (simp add: div_mult2_eq)
  then show "v4_num a b c d div 2 ^ 24 = unat a"
    using u div_mult2_eq [of "v4_num a b c d" "2 ^ 16" 256] by simp
  have "?ab div 16 = unat a * 16 + unat b div 16"
    using div_mult_self3 [of 16 "unat a * 16" "unat b"] by simp
  then show "v4_num a b c d div 2 ^ 20 = unat a * 16 + unat b div 16"
    using ab div_mult2_eq [of "v4_num a b c d" "2 ^ 16" 16] by simp
qed

lemma in_cidr4_32: "in_cidr4 (v4_num x y z w, 32) (V4 a b c d) \<longleftrightarrow> [a, b, c, d] = [x, y, z, w]"
  by (simp add: in_cidr4_def v4_num_inject)

lemma in_cidr4_16: "in_cidr4 (v4_num x y z w, 16) (V4 a b c d) \<longleftrightarrow> a = x \<and> b = y"
proof -
  have "32 - 16 = (16 :: nat)" by simp
  then show ?thesis
    unfolding in_cidr4_def by (simp only: ip_addr.case snd_conv fst_conv v4_num_div
        digit256_eq [OF unat_u8 unat_u8] word_unat_eq_iff)
qed

lemma in_cidr4_8: "in_cidr4 (v4_num x y z w, 8) (V4 a b c d) \<longleftrightarrow> a = x"
proof -
  have "32 - 8 = (24 :: nat)" by simp
  then show ?thesis
    unfolding in_cidr4_def by (simp only: ip_addr.case snd_conv fst_conv v4_num_div word_unat_eq_iff)
qed

lemma in_cidr4_12: "in_cidr4 (v4_num 172 16 0 0, 12) (V4 a b c d) \<longleftrightarrow> a = 172 \<and> 16 \<le> b \<and> b \<le> 31"
proof -
  have "32 - 12 = (20 :: nat)" by simp
  then have "in_cidr4 (v4_num 172 16 0 0, 12) (V4 a b c d) \<longleftrightarrow>
      unat a * 16 + unat b div 16 = unat (172 :: u8) * 16 + unat (16 :: u8) div 16"
    unfolding in_cidr4_def by (simp only: ip_addr.case snd_conv fst_conv v4_num_div)
  also have "\<dots> \<longleftrightarrow> unat a = 172 \<and> unat b div 16 = 1"
  proof -
    have "unat b div 16 < 16" using unat_u8 [of b] by simp
    moreover have "x * 16 + q = 2753 \<longleftrightarrow> x = 172 \<and> q = 1" if "q < 16" for x q :: nat
      using that by presburger
    ultimately show ?thesis by simp
  qed
  also have "\<dots> \<longleftrightarrow> a = 172 \<and> 16 \<le> b \<and> b \<le> 31"
  proof -
    have "unat b div 16 = 1 \<longleftrightarrow> 16 \<le> unat b \<and> unat b < 32" by auto
    then show ?thesis by (auto simp: word_unat_eq_iff word_le_nat_alt)
  qed
  finally show ?thesis .
qed

lemma blocked_iff:
  "is_blocked (V4 a b c d) \<longleftrightarrow> (\<exists>cidr \<in> set blocked_cidrs. in_cidr4 cidr (V4 a b c d))"
  unfolding blocked_cidrs_values set_simps bex_simps in_cidr4_32 in_cidr4_16 in_cidr4_8 in_cidr4_12
  by auto

section \<open>Properties\<close>

text \<open>
  C26: \<open>is_blocked\<close> decides the published lists exactly: an IPv4 address is blocked if and only if it
  lies in one of the IPv4 CIDR blocks written in \<open>CLOUD_METADATA_CIDRS\<close>, \<open>RFC1918_CIDRS\<close> or
  \<open>LINK_LOCAL_CIDRS\<close>, read as network and prefix length; every IPv6 address is blocked.
\<close>

theorem is_blocked_correct:
  "is_blocked ip \<longleftrightarrow>
     (case ip of V4 a b c d \<Rightarrow> list_ex (\<lambda>cidr. in_cidr4 cidr ip) blocked_cidrs | V6 w \<Rightarrow> True)"
  using blocked_iff by (cases ip) (auto simp: list_ex_iff)

end
