(* ===== verification/Firewall.thy ===== *)
theory Firewall
  imports Blocklist
begin

text \<open>
  Model of \<open>pkg/egress/src/firewall.rs\<close>: the nftables rulesets that egress generates, as text, built by
  the same sequence of appends. An independent reader of the generated subset of the nft language and
  a first-match evaluation of packets give the text its meaning.
\<close>

section \<open>Generation\<close>

record agent_allow_rule =
  aa_name :: string
  aa_tap :: string
  aa_ips :: ip_set

record tsi_agent_rule =
  ta_name :: string
  ta_ips :: ip_set

definition nl :: string where
  "nl = [CHR 10]"

definition dq :: string where
  "dq = [CHR 34]"

definition line :: "string \<Rightarrow> string" where
  "line s = s @ nl"

definition family_of :: "string \<Rightarrow> string" where
  "family_of cidr = (if CHR '':'' \<in> set cidr then ''ip6'' else ''ip'')"

definition drop_line :: "string \<Rightarrow> string \<Rightarrow> string \<Rightarrow> string" where
  "drop_line family cidr why =
     line (''    '' @ family @ '' daddr '' @ cidr @ '' drop comment '' @ dq @ why @ dq)"

definition metadata_lines :: string where
  "metadata_lines = concat (map (\<lambda>c. drop_line (family_of c) c ''block cloud metadata'') CLOUD_METADATA_CIDRS)"

definition agent_accept_line :: "string \<Rightarrow> ip_addr \<Rightarrow> string" where
  "agent_accept_line n ip =
     line (''    ip daddr '' @ show_ip ip @ '' accept comment '' @ dq @ ''allow for '' @ n @ dq)"

definition agent_lines :: "tsi_agent_rule \<Rightarrow> string" where
  "agent_lines r =
     line (''    # Agent: '' @ ta_name r) @ concat (map (agent_accept_line (ta_name r)) (ta_ips r)) @ nl"

definition em_dash :: string where
  "em_dash = [CHR 0xE2, CHR 0x80, CHR 0x94]"

definition input_chain :: string where
  "input_chain =
     nl @ line ''  chain input {'' @ line ''    type filter hook input priority 0; policy drop;'' @
     line ''    iif lo accept'' @ line ''    ct state established,related accept'' @ line ''  }''"

definition generate_tsi_ruleset :: "tsi_agent_rule list \<Rightarrow> string" where
  "generate_tsi_ruleset agents =
     line ''flush ruleset'' @ nl @
     line ''table inet nullbox {'' @
     line ''  chain output {'' @
     line ''    type filter hook output priority 0; policy drop;'' @ nl @
     line ''    oif lo accept'' @ nl @
     line ''    ct state established,related accept'' @ nl @
     line (''    udp dport 53 accept comment '' @ dq @ ''allow DNS'' @ dq) @
     line (''    tcp dport 53 accept comment '' @ dq @ ''allow DNS'' @ dq) @ nl @
     metadata_lines @ nl @
     concat (map (\<lambda>c. drop_line ''ip'' c ''block private ranges'') RFC1918_CIDRS) @
     concat (map (\<lambda>c. drop_line (family_of c) c ''block link-local'') LINK_LOCAL_CIDRS) @ nl @
     (if agents = [] then line (''    # No agents registered '' @ em_dash @ '' all external traffic blocked'')
      else concat (map agent_lines agents)) @
     line (''    log prefix '' @ dq @ ''nullbox-deny: '' @ dq @ '' drop'') @
     line ''  }'' @
     input_chain @
     line ''}''"

definition generate_ruleset :: "agent_allow_rule list \<Rightarrow> string" where
  "generate_ruleset agents =
     line ''flush ruleset'' @ nl @
     line ''table inet nullbox {'' @
     line ''  chain forward {'' @
     line ''    type filter hook forward priority 0; policy drop;'' @ nl @
     line ''    ct state established,related accept'' @ nl @
     metadata_lines @ nl @
     concat (map (\<lambda>c. concat (map (\<lambda>a.
       line (''    iifname '' @ dq @ aa_tap a @ dq @ '' ip daddr '' @ c @ '' drop comment '' @ dq @
         ''block RFC-1918 from '' @ aa_name a @ dq)) agents)) RFC1918_CIDRS) @ nl @
     concat (map (\<lambda>a. line (''    # Agent: '' @ aa_name a) @
       concat (map (\<lambda>ip. line (''    iifname '' @ dq @ aa_tap a @ dq @ '' ip daddr '' @ show_ip ip @ '' accept''))
         (aa_ips a)) @ nl) agents) @
     line ''  }'' @
     nl @ line ''  chain output {'' @ line ''    type filter hook output priority 0; policy accept;'' @ line ''  }'' @
     input_chain @
     line ''}''"

section \<open>Reading a ruleset\<close>

datatype proto = Udp | Tcp | Other_proto

record packet =
  p_loopback :: bool
  p_established :: bool
  p_proto :: proto
  p_dport :: nat
  p_dst :: ip_addr

datatype verdict = Accept | Drop

datatype cond = Oif_lo | Established | Dport proto nat | Daddr4 cidr4 | Daddr6 string | Always_true

datatype rule = Rule cond verdict

text \<open>What a line of a chain is: nothing (blank or a comment), a policy, a rule, or not understood.\<close>

datatype item = Nothing | Policy verdict | Item rule | Unknown

definition skip_blanks :: "string \<Rightarrow> string" where
  "skip_blanks s = dropWhile (\<lambda>c. c = CHR '' '') s"

definition parse_verdict :: "string \<Rightarrow> verdict option" where
  "parse_verdict s = (if s = ''accept'' then Some Accept else if s = ''drop'' then Some Drop else None)"

text \<open>A quoted string that ends exactly at the end of the line.\<close>

definition quoted_to_end :: "string \<Rightarrow> bool" where
  "quoted_to_end s \<longleftrightarrow>
     (case s of [] \<Rightarrow> False
      | c # r \<Rightarrow> c = CHR 34 \<and> r \<noteq> [] \<and> last r = CHR 34 \<and> CHR 34 \<notin> set (butlast r))"

text \<open>The verdict of a rule and its comment, which has no effect.\<close>

definition read_tail :: "string list \<Rightarrow> verdict option" where
  "read_tail ws =
     (case ws of
        [v] \<Rightarrow> parse_verdict v
      | v # k # rest \<Rightarrow>
          (if k = ''comment'' \<and> quoted_to_end (join '' '' rest) then parse_verdict v else None)
      | [] \<Rightarrow> None)"

definition parse_dest4 :: "string \<Rightarrow> cidr4 option" where
  "parse_dest4 s =
     (if CHR ''/'' \<in> set s then parse_cidr4 s else map_option (\<lambda>ip. (ip_key ip, 32)) (parse_v4 s))"

definition rule_item :: "cond option \<Rightarrow> verdict option \<Rightarrow> item" where
  "rule_item c v = (case (c, v) of (Some c', Some v') \<Rightarrow> Item (Rule c' v') | _ \<Rightarrow> Unknown)"

definition read_line :: "string \<Rightarrow> item" where
  "read_line l =
     (let s = skip_blanks l; ws = split_on (CHR '' '') s
      in if s = [] \<or> hd s = CHR ''#'' then Nothing
         else if s = ''type filter hook output priority 0; policy drop;'' then Policy Drop
         else if s = ''type filter hook output priority 0; policy accept;'' then Policy Accept
         else if s = ''log prefix '' @ dq @ ''nullbox-deny: '' @ dq @ '' drop'' then Item (Rule Always_true Drop)
         else if take 2 ws = [''oif'', ''lo''] then rule_item (Some Oif_lo) (read_tail (drop 2 ws))
         else if take 3 ws = [''ct'', ''state'', ''established,related''] then
           rule_item (Some Established) (read_tail (drop 3 ws))
         else if take 3 ws = [''udp'', ''dport'', ''53''] then rule_item (Some (Dport Udp 53)) (read_tail (drop 3 ws))
         else if take 3 ws = [''tcp'', ''dport'', ''53''] then rule_item (Some (Dport Tcp 53)) (read_tail (drop 3 ws))
         else if take 2 ws = [''ip'', ''daddr''] \<and> 3 \<le> length ws then
           rule_item (map_option Daddr4 (parse_dest4 (ws ! 2))) (read_tail (drop 3 ws))
         else if take 2 ws = [''ip6'', ''daddr''] \<and> 3 \<le> length ws then
           rule_item (Some (Daddr6 (ws ! 2))) (read_tail (drop 3 ws))
         else Unknown)"

text \<open>The lines of a chain: from its header to the first closing brace at its indentation.\<close>

definition chain_lines :: "string \<Rightarrow> string list \<Rightarrow> string list" where
  "chain_lines n ls =
     takeWhile (\<lambda>l. l \<noteq> ''  }'') (drop 1 (dropWhile (\<lambda>l. l \<noteq> ''  chain '' @ n @ '' {'') ls))"

definition read_chain :: "string \<Rightarrow> string \<Rightarrow> item list" where
  "read_chain n text = filter (\<lambda>i. i \<noteq> Nothing) (map read_line (chain_lines n (split_on (CHR 10) text)))"

section \<open>Evaluation\<close>

text \<open>\<open>m6\<close> says which IPv6 addresses an IPv6 prefix matches; no claim depends on it.\<close>

fun matches :: "(string \<Rightarrow> ip_addr \<Rightarrow> bool) \<Rightarrow> cond \<Rightarrow> packet \<Rightarrow> bool" where
  "matches m6 Oif_lo p = p_loopback p"
| "matches m6 Established p = p_established p"
| "matches m6 (Dport pr n) p = (p_proto p = pr \<and> p_dport p = n)"
| "matches m6 (Daddr4 c) p = in_cidr4 c (p_dst p)"
| "matches m6 (Daddr6 s) p = (case p_dst p of V4 _ _ _ _ \<Rightarrow> False | V6 _ \<Rightarrow> m6 s (p_dst p))"
| "matches m6 Always_true p = True"

text \<open>The first matching rule decides; a policy is the verdict at the end of the chain.\<close>

fun eval_chain :: "(string \<Rightarrow> ip_addr \<Rightarrow> bool) \<Rightarrow> verdict \<Rightarrow> item list \<Rightarrow> packet \<Rightarrow> verdict option" where
  "eval_chain m6 pol [] p = Some pol"
| "eval_chain m6 pol (Item (Rule c v) # is) p = (if matches m6 c p then Some v else eval_chain m6 pol is p)"
| "eval_chain m6 pol (Policy v # is) p = eval_chain m6 v is p"
| "eval_chain m6 pol (Nothing # is) p = eval_chain m6 pol is p"
| "eval_chain m6 pol (Unknown # is) p = None"

definition output_verdict :: "(string \<Rightarrow> ip_addr \<Rightarrow> bool) \<Rightarrow> string \<Rightarrow> packet \<Rightarrow> verdict option" where
  "output_verdict m6 text p = eval_chain m6 Accept (read_chain ''output'' text) p"

section \<open>The text as lines\<close>

definition body_lines :: "tsi_agent_rule list \<Rightarrow> string list" where
  "body_lines agents =
     [''    type filter hook output priority 0; policy drop;'', [], ''    oif lo accept'', [],
      ''    ct state established,related accept'', [],
      ''    udp dport 53 accept comment '' @ dq @ ''allow DNS'' @ dq,
      ''    tcp dport 53 accept comment '' @ dq @ ''allow DNS'' @ dq, []] @
     map (\<lambda>c. ''    '' @ family_of c @ '' daddr '' @ c @ '' drop comment '' @ dq @ ''block cloud metadata'' @ dq)
       CLOUD_METADATA_CIDRS @ [[]] @
     map (\<lambda>c. ''    ip daddr '' @ c @ '' drop comment '' @ dq @ ''block private ranges'' @ dq) RFC1918_CIDRS @
     map (\<lambda>c. ''    '' @ family_of c @ '' daddr '' @ c @ '' drop comment '' @ dq @ ''block link-local'' @ dq)
       LINK_LOCAL_CIDRS @ [[]] @
     (if agents = [] then [''    # No agents registered '' @ em_dash @ '' all external traffic blocked'']
      else concat (map (\<lambda>r. [''    # Agent: '' @ ta_name r] @
        map (\<lambda>ip. ''    ip daddr '' @ show_ip ip @ '' accept comment '' @ dq @ ''allow for '' @ ta_name r @ dq)
          (ta_ips r) @ [[]]) agents)) @
     [''    log prefix '' @ dq @ ''nullbox-deny: '' @ dq @ '' drop'']"

definition tsi_lines :: "tsi_agent_rule list \<Rightarrow> string list" where
  "tsi_lines agents =
     [''flush ruleset'', [], ''table inet nullbox {'', ''  chain output {''] @ body_lines agents @
     [''  }'', [], ''  chain input {'', ''    type filter hook input priority 0; policy drop;'',
      ''    iif lo accept'', ''    ct state established,related accept'', ''  }'', ''}'']"

lemma concat_lines: "concat (map line (xs @ ys)) = concat (map line xs) @ concat (map line ys)"
  by simp

lemma agent_lines_eq:
  "agent_lines r = concat (map line ([''    # Agent: '' @ ta_name r] @
     map (\<lambda>ip. ''    ip daddr '' @ show_ip ip @ '' accept comment '' @ dq @ ''allow for '' @ ta_name r @ dq)
       (ta_ips r) @ [[]]))"
  by (simp add: agent_lines_def agent_accept_line_def [abs_def] line_def comp_def)

lemma all_agent_lines:
  "concat (map agent_lines agents) = concat (map line (concat (map (\<lambda>r. [''    # Agent: '' @ ta_name r] @
     map (\<lambda>ip. ''    ip daddr '' @ show_ip ip @ '' accept comment '' @ dq @ ''allow for '' @ ta_name r @ dq)
       (ta_ips r) @ [[]]) agents)))"
  by (induction agents) (simp_all only: list.map concat.simps agent_lines_eq map_append concat_append)

lemma generate_tsi_lines: "generate_tsi_ruleset agents = concat (map line (tsi_lines agents))"
  by (simp add: generate_tsi_ruleset_def tsi_lines_def body_lines_def metadata_lines_def drop_line_def
      input_chain_def all_agent_lines comp_def nl_def line_def)

lemma split_lines:
  "\<forall>l \<in> set ls. CHR 10 \<notin> set l \<Longrightarrow> split_on (CHR 10) (concat (map line ls)) = ls @ [[]]"
  by (induction ls) (simp_all add: line_def nl_def split_on_append_sep)

text \<open>Names that cannot leave the comment they are printed in.\<close>

definition name_safe :: "string \<Rightarrow> bool" where
  "name_safe n \<longleftrightarrow> CHR 10 \<notin> set n \<and> CHR 34 \<notin> set n"

definition rules_safe :: "tsi_agent_rule list \<Rightarrow> bool" where
  "rules_safe agents \<longleftrightarrow> (\<forall>r \<in> set agents. name_safe (ta_name r) \<and> (\<forall>ip \<in> set (ta_ips r). \<exists>a b c d. ip = V4 a b c d))"

lemma cidr_lists_nl: "c \<in> set (CLOUD_METADATA_CIDRS @ RFC1918_CIDRS @ LINK_LOCAL_CIDRS) \<Longrightarrow> CHR 10 \<notin> set c"
  by (auto simp: CLOUD_METADATA_CIDRS_def RFC1918_CIDRS_def LINK_LOCAL_CIDRS_def)

lemma family_nl: "CHR 10 \<notin> set (family_of c)"
  by (simp add: family_of_def)

lemma tsi_lines_nl:
  assumes "rules_safe agents"
  shows "\<forall>l \<in> set (tsi_lines agents). CHR 10 \<notin> set l"
proof -
  have "CHR 10 \<notin> set (show_ip ip)" if "r \<in> set agents" "ip \<in> set (ta_ips r)" for r ip
  proof -
    from assms that obtain a b c d where "ip = V4 a b c d" unfolding rules_safe_def by blast
    then show ?thesis by (simp add: show_v4_free)
  qed
  with assms cidr_lists_nl show ?thesis
    by (auto simp: tsi_lines_def body_lines_def rules_safe_def name_safe_def dq_def family_nl em_dash_def)
qed

lemma body_lines_open:
  "l \<in> set (body_lines agents) \<Longrightarrow> l \<noteq> ''  }''"
  by (auto simp: body_lines_def dq_def split: if_splits)

lemma chain_of_tsi:
  "chain_lines ''output'' (tsi_lines agents @ [[]]) = body_lines agents"
proof -
  have "takeWhile (\<lambda>l. l \<noteq> ''  }'') (body_lines agents @ ''  }'' # rest) = body_lines agents" for rest
    using body_lines_open by (simp add: takeWhile_append2)
  then show ?thesis by (simp add: chain_lines_def tsi_lines_def)
qed

section \<open>Reading the generated lines\<close>

lemma agent_words:
  assumes "CHR '' '' \<notin> set a"
  shows "split_on (CHR '' '') (''ip daddr '' @ a @ '' accept comment '' @ q) =
    ''ip'' # ''daddr'' # a # ''accept'' # ''comment'' # split_on (CHR '' '') q"
proof -
  let ?rest = "''ip'' @ CHR '' '' # (''daddr'' @ CHR '' '' # (a @ CHR '' '' #
    (''accept'' @ CHR '' '' # (''comment'' @ CHR '' '' # q))))"
  have e: "''ip daddr '' @ a @ '' accept comment '' @ q = ?rest" by simp
  have "split_on (CHR '' '') ?rest =
    ''ip'' # ''daddr'' # a # ''accept'' # ''comment'' # split_on (CHR '' '') q"
    using assms by (subst split_on_append_sep, simp)+ (rule refl)
  then show ?thesis by (subst e)
qed

lemma quoted_safe: "name_safe n \<Longrightarrow> quoted_to_end (dq @ ''allow for '' @ n @ dq)"
proof -
  assume n: "name_safe n"
  have "dq @ ''allow for '' @ n @ dq = CHR 34 # ((''allow for '' @ n) @ [CHR 34])" by (simp add: dq_def)
  then show ?thesis using n
    unfolding quoted_to_end_def by (simp only: list.case last_snoc butlast_snoc) (simp add: name_safe_def)
qed

lemma read_agent_line:
  assumes "name_safe n"
  shows "read_line (''    ip daddr '' @ show_v4 a b c d @ '' accept comment '' @ dq @ ''allow for '' @ n @ dq) =
    Item (Rule (Daddr4 (v4_num a b c d, 32)) Accept)"
proof -
  let ?q = "dq @ ''allow for '' @ n @ dq"
  let ?s = "''ip daddr '' @ show_v4 a b c d @ '' accept comment '' @ ?q"
  have sk: "skip_blanks (''    '' @ ?s) = ?s" by (simp add: skip_blanks_def)
  have ws: "split_on (CHR '' '') ?s =
    ''ip'' # ''daddr'' # show_v4 a b c d # ''accept'' # ''comment'' # split_on (CHR '' '') ?q"
    by (rule agent_words) (rule show_v4_free)
  have tail: "read_tail (''accept'' # ''comment'' # split_on (CHR '' '') ?q) = Some Accept"
    using quoted_safe [OF assms] by (simp add: read_tail_def parse_verdict_def split_on_join)
  have dest: "parse_dest4 (show_v4 a b c d) = Some (v4_num a b c d, 32)"
    by (simp add: parse_dest4_def show_v4_free)
  have "read_line (''    '' @ ?s) = Item (Rule (Daddr4 (v4_num a b c d, 32)) Accept)"
    unfolding read_line_def Let_def sk ws
    using tail dest by (simp add: rule_item_def)
  then show ?thesis by simp
qed

lemma read_blank [simp]: "read_line [] = Nothing"
  by (simp add: read_line_def skip_blanks_def)

lemma read_comment: "read_line (''    # Agent: '' @ n) = Nothing" "read_line (''    # No agents registered '' @ n) = Nothing"
  by (simp_all add: read_line_def skip_blanks_def)

definition fixed_items :: "item list" where
  "fixed_items =
     [Policy Drop, Item (Rule Oif_lo Accept), Item (Rule Established Accept),
      Item (Rule (Dport Udp 53) Accept), Item (Rule (Dport Tcp 53) Accept),
      Item (Rule (Daddr4 (v4_num 169 254 169 254, 32)) Drop),
      Item (Rule (Daddr4 (v4_num 100 100 100 200, 32)) Drop),
      Item (Rule (Daddr6 ''fd00:ec2::254/128'') Drop),
      Item (Rule (Daddr4 (v4_num 10 0 0 0, 8)) Drop), Item (Rule (Daddr4 (v4_num 172 16 0 0, 12)) Drop),
      Item (Rule (Daddr4 (v4_num 192 168 0 0, 16)) Drop), Item (Rule (Daddr4 (v4_num 169 254 0 0, 16)) Drop),
      Item (Rule (Daddr6 ''fe80::/10'') Drop)]"

lemmas read_defs = read_line_def skip_blanks_def rule_item_def read_tail_def parse_verdict_def quoted_to_end_def dq_def

lemma read_policy: "read_line ''    type filter hook output priority 0; policy drop;'' = Policy Drop"
  by (simp add: read_line_def skip_blanks_def)

lemma read_lo: "read_line ''    oif lo accept'' = Item (Rule Oif_lo Accept)"
  by (simp add: read_defs)

lemma read_est: "read_line ''    ct state established,related accept'' = Item (Rule Established Accept)"
  by (simp add: read_defs)

lemma read_dns:
  "read_line (''    udp dport 53 accept comment '' @ dq @ ''allow DNS'' @ dq) = Item (Rule (Dport Udp 53) Accept)"
  "read_line (''    tcp dport 53 accept comment '' @ dq @ ''allow DNS'' @ dq) = Item (Rule (Dport Tcp 53) Accept)"
  by (simp_all add: read_defs)

lemma read_log: "read_line (''    log prefix '' @ dq @ ''nullbox-deny: '' @ dq @ '' drop'') = Item (Rule Always_true Drop)"
  by (simp add: read_line_def skip_blanks_def dq_def)

lemma drop_words:
  assumes "CHR '' '' \<notin> set f" and "CHR '' '' \<notin> set c"
  shows "split_on (CHR '' '') (f @ '' daddr '' @ c @ '' drop comment '' @ q) =
    f # ''daddr'' # c # ''drop'' # ''comment'' # split_on (CHR '' '') q"
proof -
  let ?rest = "f @ CHR '' '' # (''daddr'' @ CHR '' '' # (c @ CHR '' '' #
    (''drop'' @ CHR '' '' # (''comment'' @ CHR '' '' # q))))"
  have e: "f @ '' daddr '' @ c @ '' drop comment '' @ q = ?rest" by simp
  have "split_on (CHR '' '') ?rest = f # ''daddr'' # c # ''drop'' # ''comment'' # split_on (CHR '' '') q"
    using assms by (subst split_on_append_sep, simp)+ (rule refl)
  then show ?thesis by (subst e)
qed

text \<open>A drop line for a CIDR block, IPv4 or IPv6, with any comment that is free of quotes.\<close>

lemma read_drop_line:
  assumes "CHR '' '' \<notin> set c" and "CHR 34 \<notin> set q" and "f = ''ip'' \<or> f = ''ip6''"
  shows "read_line (''    '' @ f @ '' daddr '' @ c @ '' drop comment '' @ dq @ q @ dq) =
    (if f = ''ip6'' then Item (Rule (Daddr6 c) Drop)
     else rule_item (map_option Daddr4 (parse_dest4 c)) (Some Drop))"
proof -
  let ?q = "dq @ q @ dq"
  let ?s = "f @ '' daddr '' @ c @ '' drop comment '' @ ?q"
  have f: "f \<noteq> []" "CHR '' '' \<notin> set f" "hd f = CHR ''i''" "f \<noteq> ''oif''" using assms(3) by auto
  have sk: "skip_blanks (''    '' @ ?s) = ?s" using assms(3) by (auto simp: skip_blanks_def)
  have ws: "split_on (CHR '' '') ?s = f # ''daddr'' # c # ''drop'' # ''comment'' # split_on (CHR '' '') ?q"
    using f(2) assms(1) by (rule drop_words)
  have "?q = CHR 34 # (q @ [CHR 34])" by (simp add: dq_def)
  then have "quoted_to_end ?q"
    using assms(2) unfolding quoted_to_end_def by (simp only: list.case last_snoc butlast_snoc) simp
  then have tail: "read_tail (''drop'' # ''comment'' # split_on (CHR '' '') ?q) = Some Drop"
    by (simp add: read_tail_def parse_verdict_def split_on_join)
  have n: "?s \<noteq> []" "hd ?s \<noteq> CHR ''#''" "?s \<noteq> ''type filter hook output priority 0; policy drop;''"
    "?s \<noteq> ''type filter hook output priority 0; policy accept;''"
    "?s \<noteq> ''log prefix '' @ dq @ ''nullbox-deny: '' @ dq @ '' drop''"
    using assms(3) by auto
  have "read_line (''    '' @ ?s) =
    (if f = ''ip6'' then Item (Rule (Daddr6 c) Drop)
     else rule_item (map_option Daddr4 (parse_dest4 c)) (Some Drop))"
    unfolding read_line_def Let_def sk ws
    using n tail assms(3) by (auto simp: rule_item_def)
  then show ?thesis by simp
qed

lemma fixed_dests:
  "parse_dest4 ''169.254.169.254/32'' = Some (v4_num 169 254 169 254, 32)"
  "parse_dest4 ''100.100.100.200/32'' = Some (v4_num 100 100 100 200, 32)"
  "parse_dest4 ''10.0.0.0/8'' = Some (v4_num 10 0 0 0, 8)"
  "parse_dest4 ''172.16.0.0/12'' = Some (v4_num 172 16 0 0, 12)"
  "parse_dest4 ''192.168.0.0/16'' = Some (v4_num 192 168 0 0, 16)"
  "parse_dest4 ''169.254.0.0/16'' = Some (v4_num 169 254 0 0, 16)"
  by (simp_all add: parse_dest4_def parse_cidr4_def parse_v4_def parse_octet_def is_digit_def digit_val_def)

lemma read_drops:
  "map (\<lambda>c. read_line (''    '' @ family_of c @ '' daddr '' @ c @ '' drop comment '' @ dq @ ''block cloud metadata'' @ dq))
     CLOUD_METADATA_CIDRS =
     [Item (Rule (Daddr4 (v4_num 169 254 169 254, 32)) Drop),
      Item (Rule (Daddr4 (v4_num 100 100 100 200, 32)) Drop), Item (Rule (Daddr6 ''fd00:ec2::254/128'') Drop)]"
  "map (\<lambda>c. read_line (''    ip daddr '' @ c @ '' drop comment '' @ dq @ ''block private ranges'' @ dq)) RFC1918_CIDRS =
     [Item (Rule (Daddr4 (v4_num 10 0 0 0, 8)) Drop), Item (Rule (Daddr4 (v4_num 172 16 0 0, 12)) Drop),
      Item (Rule (Daddr4 (v4_num 192 168 0 0, 16)) Drop)]"
  "map (\<lambda>c. read_line (''    '' @ family_of c @ '' daddr '' @ c @ '' drop comment '' @ dq @ ''block link-local'' @ dq))
     LINK_LOCAL_CIDRS =
     [Item (Rule (Daddr4 (v4_num 169 254 0 0, 16)) Drop), Item (Rule (Daddr6 ''fe80::/10'') Drop)]"
proof -
  have fam: "family_of c = ''ip'' \<or> family_of c = ''ip6''" for c by (simp add: family_of_def)
  have ip: "''    ip daddr '' @ s = ''    '' @ ''ip'' @ '' daddr '' @ s" for s by simp
  show "map (\<lambda>c. read_line (''    '' @ family_of c @ '' daddr '' @ c @ '' drop comment '' @ dq @ ''block cloud metadata'' @ dq))
     CLOUD_METADATA_CIDRS =
     [Item (Rule (Daddr4 (v4_num 169 254 169 254, 32)) Drop),
      Item (Rule (Daddr4 (v4_num 100 100 100 200, 32)) Drop), Item (Rule (Daddr6 ''fd00:ec2::254/128'') Drop)]"
    unfolding CLOUD_METADATA_CIDRS_def list.map
    by (subst (1 2 3) read_drop_line) (simp_all add: fam fixed_dests family_of_def rule_item_def)
  show "map (\<lambda>c. read_line (''    '' @ family_of c @ '' daddr '' @ c @ '' drop comment '' @ dq @ ''block link-local'' @ dq))
     LINK_LOCAL_CIDRS =
     [Item (Rule (Daddr4 (v4_num 169 254 0 0, 16)) Drop), Item (Rule (Daddr6 ''fe80::/10'') Drop)]"
    unfolding LINK_LOCAL_CIDRS_def list.map
    by (subst (1 2) read_drop_line) (simp_all add: fam fixed_dests family_of_def rule_item_def)
  show "map (\<lambda>c. read_line (''    ip daddr '' @ c @ '' drop comment '' @ dq @ ''block private ranges'' @ dq)) RFC1918_CIDRS =
     [Item (Rule (Daddr4 (v4_num 10 0 0 0, 8)) Drop), Item (Rule (Daddr4 (v4_num 172 16 0 0, 12)) Drop),
      Item (Rule (Daddr4 (v4_num 192 168 0 0, 16)) Drop)]"
    unfolding RFC1918_CIDRS_def list.map ip
    by (subst (1 2 3) read_drop_line) (simp_all add: fixed_dests rule_item_def)
qed

section \<open>Meaning of the ruleset\<close>

definition accept_ip :: "ip_addr \<Rightarrow> item" where
  "accept_ip ip = Item (Rule (Daddr4 (ip_key ip, 32)) Accept)"

lemma items_filter [simp]: "filter (\<lambda>i. i \<noteq> Nothing) (map accept_ip ips) = map accept_ip ips"
  by (induction ips) (simp_all add: accept_ip_def)

lemma read_agent:
  assumes "name_safe (ta_name r)" and "\<forall>ip \<in> set (ta_ips r). \<exists>a b c d. ip = V4 a b c d"
  shows "filter (\<lambda>i. i \<noteq> Nothing) (map read_line ([''    # Agent: '' @ ta_name r] @
      map (\<lambda>ip. ''    ip daddr '' @ show_ip ip @ '' accept comment '' @ dq @ ''allow for '' @ ta_name r @ dq)
        (ta_ips r) @ [[]])) = map accept_ip (ta_ips r)"
proof -
  have "read_line (''    ip daddr '' @ show_ip ip @ '' accept comment '' @ dq @ ''allow for '' @ ta_name r @ dq) = accept_ip ip"
    if ip: "ip \<in> set (ta_ips r)" for ip
  proof -
    from assms(2) ip obtain a b c d where v: "ip = V4 a b c d" by blast
    show ?thesis
      unfolding v show_ip.simps accept_ip_def ip_key.simps by (rule read_agent_line [OF assms(1)])
  qed
  then have "map read_line (map (\<lambda>ip. ''    ip daddr '' @ show_ip ip @ '' accept comment '' @ dq @ ''allow for '' @ ta_name r @ dq)
        (ta_ips r)) = map accept_ip (ta_ips r)"
    unfolding map_map comp_def by (intro map_cong) auto
  then show ?thesis
    by (simp only: map_append filter_append list.map read_comment read_blank items_filter) simp
qed

lemma read_agents:
  assumes "rules_safe agents"
  shows "filter (\<lambda>i. i \<noteq> Nothing) (map read_line
     (concat (map (\<lambda>r. [''    # Agent: '' @ ta_name r] @
        map (\<lambda>ip. ''    ip daddr '' @ show_ip ip @ '' accept comment '' @ dq @ ''allow for '' @ ta_name r @ dq)
          (ta_ips r) @ [[]]) agents))) = map accept_ip (concat (map ta_ips agents))"
  using assms
proof (induction agents)
  case Nil
  show ?case by simp
next
  case (Cons r agents)
  then have r: "name_safe (ta_name r)" "\<forall>ip \<in> set (ta_ips r). \<exists>a b c d. ip = V4 a b c d"
    and rest: "rules_safe agents" by (simp_all add: rules_safe_def)
  show ?case
    unfolding list.map concat.simps map_append filter_append
    using read_agent [OF r] Cons.IH [OF rest] by (simp only: map_append filter_append list.map)
qed

lemma read_chain_tsi:
  assumes "rules_safe agents"
  shows "read_chain ''output'' (generate_tsi_ruleset agents) =
    fixed_items @ map accept_ip (concat (map ta_ips agents)) @ [Item (Rule Always_true Drop)]"
proof -
  have "read_chain ''output'' (generate_tsi_ruleset agents) =
    filter (\<lambda>i. i \<noteq> Nothing) (map read_line (body_lines agents))"
    by (simp only: read_chain_def generate_tsi_lines split_lines [OF tsi_lines_nl [OF assms]] chain_of_tsi)
  also have "\<dots> = fixed_items @ map accept_ip (concat (map ta_ips agents)) @ [Item (Rule Always_true Drop)]"
  proof (cases "agents = []")
    case True
    show ?thesis
      unfolding True body_lines_def fixed_items_def if_True simp_thms map_append list.map map_map comp_def
        read_drops read_policy read_lo read_est read_dns read_log read_blank read_comment
      by simp
  next
    case False
    have i: "filter (\<lambda>i. i \<noteq> Nothing) (x @ y) = filter (\<lambda>i. i \<noteq> Nothing) x @ filter (\<lambda>i. i \<noteq> Nothing) y" for x y
      by simp
    show ?thesis
      unfolding body_lines_def fixed_items_def if_not_P [OF False] map_append i read_agents [OF assms]
      unfolding list.map map_map comp_def
        read_drops read_policy read_lo read_est read_dns read_log read_blank
      by simp
  qed
  finally show ?thesis .
qed

lemma in_cidr4_host:
  "ip = V4 a b c d \<Longrightarrow> in_cidr4 (ip_key ip, 32) dst \<longleftrightarrow> dst = ip"
  by (cases dst) (auto simp: in_cidr4_def v4_num_inject)

lemma eval_append_accepts:
  assumes "\<forall>ip \<in> set ips. \<exists>a b c d. ip = V4 a b c d"
  shows "eval_chain m6 pol (map accept_ip ips @ is) p =
     (if p_dst p \<in> set ips then Some Accept else eval_chain m6 pol is p)"
  using assms
proof (induction ips)
  case Nil
  show ?case by simp
next
  case (Cons ip ips)
  then obtain a b c d where "ip = V4 a b c d" by auto
  then have "in_cidr4 (ip_key ip, 32) (p_dst p) \<longleftrightarrow> p_dst p = ip" by (rule in_cidr4_host)
  with Cons show ?case by (simp add: accept_ip_def)
qed

lemma blocked_list:
  "is_blocked (V4 a b c d) \<longleftrightarrow>
     in_cidr4 (v4_num 169 254 169 254, 32) (V4 a b c d) \<or> in_cidr4 (v4_num 100 100 100 200, 32) (V4 a b c d) \<or>
     in_cidr4 (v4_num 10 0 0 0, 8) (V4 a b c d) \<or> in_cidr4 (v4_num 172 16 0 0, 12) (V4 a b c d) \<or>
     in_cidr4 (v4_num 192 168 0 0, 16) (V4 a b c d) \<or> in_cidr4 (v4_num 169 254 0 0, 16) (V4 a b c d)"
  unfolding blocked_iff blocked_cidrs_values by simp

definition tsi_allows :: "tsi_agent_rule list \<Rightarrow> packet \<Rightarrow> bool" where
  "tsi_allows agents p \<longleftrightarrow>
     p_loopback p \<or> p_established p \<or> (p_dport p = 53 \<and> p_proto p \<noteq> Other_proto) \<or>
     (\<not> is_blocked (p_dst p) \<and> (\<exists>r \<in> set agents. p_dst p \<in> set (ta_ips r)))"

text \<open>The accepts, the drops and the end of the generated chain, as a fact about twelve conditions.\<close>

lemma first_match:
  assumes "u \<or> t \<longleftrightarrow> d" and "m \<Longrightarrow> b \<longleftrightarrow> b1 \<or> b2 \<or> b4 \<or> b5 \<or> b6 \<or> b7"
    and "b3 \<Longrightarrow> \<not> m" and "b8 \<Longrightarrow> \<not> m"
  shows "(if l then Some Accept else if e then Some Accept else if u then Some Accept else if t then Some Accept
     else if b1 then Some Drop else if b2 then Some Drop else if b3 then Some Drop else if b4 then Some Drop
     else if b5 then Some Drop else if b6 then Some Drop else if b7 then Some Drop else if b8 then Some Drop
     else Some (if m then Accept else Drop)) = Some (if l \<or> e \<or> d \<or> (\<not> b \<and> m) then Accept else Drop)"
  using assms by (cases l; cases e; cases u; cases t; cases m; auto)

lemma output_verdict_tsi:
  assumes "rules_safe agents"
  shows "output_verdict m6 (generate_tsi_ruleset agents) p = Some (if tsi_allows agents p then Accept else Drop)"
proof -
  let ?ips = "concat (map ta_ips agents)"
  have v4: "\<forall>ip \<in> set ?ips. \<exists>a b c d. ip = V4 a b c d" using assms by (auto simp: rules_safe_def)
  have tl: "eval_chain m6 Drop (map accept_ip ?ips @ [Item (Rule Always_true Drop)]) p =
    Some (if p_dst p \<in> set ?ips then Accept else Drop)"
    unfolding eval_append_accepts [OF v4] by simp
  have mem: "p_dst p \<in> set ?ips \<longleftrightarrow> (\<exists>r \<in> set agents. p_dst p \<in> set (ta_ips r))" by auto
  have dns: "(p_proto p = Udp \<and> p_dport p = 53) \<or> (p_proto p = Tcp \<and> p_dport p = 53) \<longleftrightarrow>
      p_dport p = 53 \<and> p_proto p \<noteq> Other_proto" by (cases "p_proto p") auto
  have "\<not> in_cidr4 c (V6 w)" for c w by (simp add: in_cidr4_def)
  then have v6: "p_dst p \<in> set ?ips \<Longrightarrow> is_blocked (p_dst p) \<longleftrightarrow>
     in_cidr4 (v4_num 169 254 169 254, 32) (p_dst p) \<or> in_cidr4 (v4_num 100 100 100 200, 32) (p_dst p) \<or>
     in_cidr4 (v4_num 10 0 0 0, 8) (p_dst p) \<or> in_cidr4 (v4_num 172 16 0 0, 12) (p_dst p) \<or>
     in_cidr4 (v4_num 192 168 0 0, 16) (p_dst p) \<or> in_cidr4 (v4_num 169 254 0 0, 16) (p_dst p)"
    using v4 blocked_list by metis
  have d6: "(case p_dst p of V4 _ _ _ _ \<Rightarrow> False | V6 _ \<Rightarrow> m6 s (p_dst p)) \<Longrightarrow> p_dst p \<notin> set ?ips" for s
    using v4 by fastforce
  show ?thesis
    unfolding output_verdict_def read_chain_tsi [OF assms] fixed_items_def append.simps eval_chain.simps tl
      matches.simps tsi_allows_def mem [symmetric]
    by (rule first_match) (use dns v6 d6 in blast)+
qed

section \<open>Properties\<close>

text \<open>
  C27: the ruleset text means default deny. Read back as nftables reads it (first matching rule, base
  policy), the output chain that \<open>generate_tsi_ruleset\<close> prints for agents with harmless names accepts a
  packet exactly if it is loopback, belongs to an established connection, goes to port 53 over UDP or
  TCP, or its destination is an allowed address of some agent and not a blocked one. The text has no
  line the reader does not understand, and the verdict does not depend on the IPv6 prefixes.
\<close>

theorem tsi_ruleset_meaning:
  assumes "rules_safe agents"
  shows "output_verdict m6 (generate_tsi_ruleset agents) p = Some (if tsi_allows agents p then Accept else Drop)"
  using assms by (rule output_verdict_tsi)

definition sample_packet :: "ip_addr \<Rightarrow> nat \<Rightarrow> packet" where
  "sample_packet dst port = \<lparr>p_loopback = False, p_established = False, p_proto = Tcp, p_dport = port, p_dst = dst\<rparr>"

definition sample_rule :: tsi_agent_rule where
  "sample_rule = \<lparr>ta_name = ''researcher'', ta_ips = [V4 10 0 0 7, V4 104 18 0 1]\<rparr>"

theorem tsi_ruleset_meaning_witness:
  "output_verdict (\<lambda>_ _. False) (generate_tsi_ruleset [sample_rule]) (sample_packet (V4 104 18 0 1) 443) = Some Accept \<and>
   output_verdict (\<lambda>_ _. False) (generate_tsi_ruleset [sample_rule]) (sample_packet (V4 10 0 0 7) 443) = Some Drop"
proof -
  have "rules_safe [sample_rule]" by (simp add: rules_safe_def sample_rule_def name_safe_def)
  from tsi_ruleset_meaning [OF this] show ?thesis
    by (simp add: tsi_allows_def sample_packet_def sample_rule_def)
qed

text \<open>
  The port 53 rules come before the drops: also the metadata service is reachable on that port, with no
  agent registered.
\<close>

lemma metadata_on_port_53:
  "output_verdict m6 (generate_tsi_ruleset []) (sample_packet (V4 169 254 169 254) 53) = Some Accept"
  using output_verdict_tsi [of "[]"] by (simp add: rules_safe_def tsi_allows_def sample_packet_def)

text \<open>
  A name with a newline and a quote is printed as it is and adds a rule of its own: here the reader finds
  an unconditional accept of 10.0.0.0/8 before the agent's own (empty) list.
\<close>

definition evil_name :: string where
  "evil_name = ''x'' @ nl @ ''    ip daddr 10.0.0.0/9 accept''"

lemma newline_in_name_injects:
  "Item (Rule (Daddr4 (v4_num 10 0 0 0, 9)) Accept) \<in>
     set (read_chain ''output'' (generate_tsi_ruleset [\<lparr>ta_name = evil_name, ta_ips = []\<rparr>]))"
proof -
  let ?evil = "''    ip daddr 10.0.0.0/9 accept''"
  define pre where "pre = [''    type filter hook output priority 0; policy drop;'', [], ''    oif lo accept'', [],
      ''    ct state established,related accept'', [],
      ''    udp dport 53 accept comment '' @ dq @ ''allow DNS'' @ dq,
      ''    tcp dport 53 accept comment '' @ dq @ ''allow DNS'' @ dq, []] @
     map (\<lambda>c. ''    '' @ family_of c @ '' daddr '' @ c @ '' drop comment '' @ dq @ ''block cloud metadata'' @ dq)
       CLOUD_METADATA_CIDRS @ [[]] @
     map (\<lambda>c. ''    ip daddr '' @ c @ '' drop comment '' @ dq @ ''block private ranges'' @ dq) RFC1918_CIDRS @
     map (\<lambda>c. ''    '' @ family_of c @ '' daddr '' @ c @ '' drop comment '' @ dq @ ''block link-local'' @ dq)
       LINK_LOCAL_CIDRS @ [[]]"
  define post where "post = [[], ''    log prefix '' @ dq @ ''nullbox-deny: '' @ dq @ '' drop'', ''  }'', [],
      ''  chain input {'', ''    type filter hook input priority 0; policy drop;'',
      ''    iif lo accept'', ''    ct state established,related accept'', ''  }'', ''}'']"
  let ?L = "[''flush ruleset'', [], ''table inet nullbox {'', ''  chain output {''] @ pre @
     [''    # Agent: x'', ?evil] @ post"
  have lines: "generate_tsi_ruleset [\<lparr>ta_name = evil_name, ta_ips = []\<rparr>] = concat (map line ?L)"
    by (simp add: generate_tsi_lines tsi_lines_def body_lines_def pre_def post_def evil_name_def line_def nl_def)
  have nl: "\<forall>l \<in> set ?L. CHR 10 \<notin> set l"
    using cidr_lists_nl by (auto simp: pre_def post_def family_nl dq_def)
  have open': "\<forall>l \<in> set (pre @ [''    # Agent: x'', ?evil]). l \<noteq> ''  }''"
    by (auto simp: pre_def dq_def)
  have "chain_lines ''output'' (?L @ [[]]) =
      takeWhile (\<lambda>l. l \<noteq> ''  }'') ((pre @ [''    # Agent: x'', ?evil]) @ post @ [[]])"
    by (simp add: chain_lines_def)
  then have mem: "?evil \<in> set (chain_lines ''output'' (?L @ [[]]))"
    using open' by (simp only: takeWhile_append2 set_append Un_iff) simp
  have read: "read_line ?evil = Item (Rule (Daddr4 (v4_num 10 0 0 0, 9)) Accept)"
    by (simp add: read_defs parse_dest4_def parse_cidr4_def parse_v4_def parse_octet_def is_digit_def digit_val_def)
  have "Item (Rule (Daddr4 (v4_num 10 0 0 0, 9)) Accept) \<in> set (map read_line (chain_lines ''output'' (?L @ [[]])))"
    unfolding set_map by (rule image_eqI [where f = read_line, OF read [symmetric] mem])
  then show ?thesis
    unfolding read_chain_def lines split_lines [OF nl] set_filter
    by (intro CollectI conjI, assumption) (rule item.distinct)
qed

end
