(* ===== verification/Egress.thy ===== *)
theory Egress
  imports Firewall Json Fs
begin

text \<open>
  Model of \<open>pkg/egress/src/main.rs\<close> and \<open>resolve.rs\<close>: the egress daemon. Its state is the map of
  registered agents, the rules file, and the ruleset that the kernel has loaded. The name resolver,
  the file system, the \<open>nft\<close> command and the JSON parser are parameters. The lemmas show the invariant
  of the daemon, and what the rules file it writes means for a packet.
\<close>

section \<open>State\<close>

record agent_entry =
  ae_domains :: "string list"
  ae_ips :: ip_set

record egress =
  eg_agents :: "(string, agent_entry) hashmap"
  eg_fs :: fs
  eg_kernel :: "string option"
  eg_nft :: nat
  eg_dns :: nat

text \<open>
  \<open>ev_dns\<close> is the system resolver (\<open>None\<close>: it failed), \<open>ev_p6\<close> the parser of IPv6 literals, \<open>ev_nft\<close>
  says which runs of \<open>nft\<close> succeed, \<open>ev_it\<close> is the iteration order of the agent map.
\<close>

record egress_env =
  ev_dns :: "nat \<Rightarrow> string \<Rightarrow> ip_addr list option"
  ev_p6 :: "string \<Rightarrow> 128 word option"
  ev_io :: io_oracle
  ev_nft :: "nat \<Rightarrow> bool"
  ev_it :: "(string \<times> agent_entry) list \<Rightarrow> (string \<times> agent_entry) list"
  ev_parse :: "string \<Rightarrow> string + json"

definition egress_socket :: string where
  "egress_socket = ''/run/egress.sock''"

definition nft_rules_path :: string where
  "nft_rules_path = ''/run/egress-rules.nft''"

section \<open>Resolution\<close>

definition parse_ip :: "(string \<Rightarrow> 128 word option) \<Rightarrow> string \<Rightarrow> ip_addr option" where
  "parse_ip p6 s = (case parse_v4 s of Some ip \<Rightarrow> Some ip | None \<Rightarrow> map_option V6 (p6 s))"

fun resolve_domains :: "egress_env \<Rightarrow> string list \<Rightarrow> nat \<Rightarrow> ip_set \<Rightarrow> ip_set \<times> nat" where
  "resolve_domains env [] n ips = (ips, n)"
| "resolve_domains env (d # ds) n ips =
     (case parse_ip (ev_p6 env) d of
        Some ip \<Rightarrow> resolve_domains env ds n (ip_insert ip ips)
      | None \<Rightarrow>
          (case ev_dns env n d of
             Some addrs \<Rightarrow> resolve_domains env ds (n + 1) (fold ip_insert addrs ips)
           | None \<Rightarrow> resolve_domains env ds (n + 1) ips))"

section \<open>Rules\<close>

definition tsi_rules :: "egress_env \<Rightarrow> (string, agent_entry) hashmap \<Rightarrow> tsi_agent_rule list" where
  "tsi_rules env agents = map (\<lambda>(n, e). \<lparr>ta_name = n, ta_ips = ae_ips e\<rparr>) (ev_it env agents)"

text \<open>\<open>nft -f\<close>: loads the rules file when it succeeds; a failure is logged and otherwise ignored.\<close>

definition apply_ruleset :: "egress_env \<Rightarrow> egress \<Rightarrow> (io_error + unit) \<times> egress" where
  "apply_ruleset env st =
     (Inr (),
      st\<lparr>eg_nft := eg_nft st + 1,
         eg_kernel := (if ev_nft env (eg_nft st) then file_of (eg_fs st) nft_rules_path else eg_kernel st)\<rparr>)"

definition regenerate_and_apply :: "egress_env \<Rightarrow> egress \<Rightarrow> (io_error + unit) \<times> egress" where
  "regenerate_and_apply env st =
     (let ruleset = generate_tsi_ruleset (tsi_rules env (eg_agents st));
          tmp = nft_rules_path @ ''.tmp''
      in case fs_write (ev_io env) tmp ruleset (eg_fs st) of
           (Inl e, f1) \<Rightarrow> (Inl e, st\<lparr>eg_fs := f1\<rparr>)
         | (Inr _, f1) \<Rightarrow>
             (case fs_rename (ev_io env) tmp nft_rules_path f1 of
                (Inl e, f2) \<Rightarrow> (Inl e, st\<lparr>eg_fs := f2\<rparr>)
              | (Inr _, f2) \<Rightarrow> apply_ruleset env (st\<lparr>eg_fs := f2\<rparr>)))"

section \<open>Requests\<close>

definition agent_field :: "json \<Rightarrow> string option" where
  "agent_field req = (case str_field req ''agent'' of Some n \<Rightarrow> (if n \<noteq> [] then Some n else None) | None \<Rightarrow> None)"

definition missing_agent :: json where
  "missing_agent = error_json (''missing or empty '' @ quote ''agent'' @ '' field'')"

definition handle_add_agent :: "egress_env \<Rightarrow> json \<Rightarrow> egress \<Rightarrow> egress \<times> json" where
  "handle_add_agent env req st =
     (case agent_field req of
        None \<Rightarrow> (st, missing_agent)
      | Some n \<Rightarrow>
          (let domains = strings_of req ''domains'';
               (ips, calls) = resolve_domains env domains (eg_dns st) [];
               resolved = filter (\<lambda>ip. \<not> is_blocked ip) ips;
               st1 = st\<lparr>eg_dns := calls,
                        eg_agents := AList.update n \<lparr>ae_domains = domains, ae_ips = resolved\<rparr> (eg_agents st)\<rparr>
           in (case regenerate_and_apply env st1 of
                 (Inr _, st2) \<Rightarrow>
                   (st2, JObj [(''ok'', JBool True), (''agent'', JStr n), (''allowed_ips'', JNum (int (length resolved)))])
               | (Inl e, st2) \<Rightarrow> (st2, error_json (''rules apply failed: '' @ e)))))"

definition handle_remove_agent :: "egress_env \<Rightarrow> json \<Rightarrow> egress \<Rightarrow> egress \<times> json" where
  "handle_remove_agent env req st =
     (case agent_field req of
        None \<Rightarrow> (st, missing_agent)
      | Some n \<Rightarrow>
          (case map_of (eg_agents st) n of
             None \<Rightarrow> (st, error_json (''agent '' @ quote n @ '' not registered''))
           | Some _ \<Rightarrow>
               (let st1 = st\<lparr>eg_agents := AList.delete n (eg_agents st)\<rparr>
                in (case regenerate_and_apply env st1 of
                      (Inr _, st2) \<Rightarrow> (st2, JObj [(''ok'', JBool True), (''agent'', JStr n)])
                    | (Inl e, st2) \<Rightarrow> (st2, error_json (''rules apply failed: '' @ e))))))"

definition handle_list :: "egress_env \<Rightarrow> egress \<Rightarrow> json" where
  "handle_list env st =
     JObj [(''agents'', JArr (map (\<lambda>(n, e).
       JObj [(''agent'', JStr n), (''domains'', strs (ae_domains e)), (''allowed_ips'', strs (map show_ip (ae_ips e)))])
       (ev_it env (eg_agents st))))]"

definition egress_step :: "egress_env \<Rightarrow> string \<Rightarrow> egress \<Rightarrow> egress \<times> json option \<times> bool" where
  "egress_step env line' st =
     (case ev_parse env line' of
        Inl _ \<Rightarrow> (st, Some (error_json ''invalid JSON''), False)
      | Inr req \<Rightarrow>
          (let m = str_or [] req ''method'';
               (st', r) =
                 (if m = ''add-agent'' then handle_add_agent env req st
                  else if m = ''remove-agent'' then handle_remove_agent env req st
                  else if m = ''list'' then (st, handle_list env st)
                  else (st, error_json (''unknown method: '' @ m)))
           in (st', Some r, True)))"

text \<open>Start-up: the base ruleset, the socket; then the connections, one after the other.\<close>

definition egress_start :: "egress_env \<Rightarrow> fs \<Rightarrow> (io_error + unit) \<times> egress" where
  "egress_start env f =
     (let st0 = \<lparr>eg_agents = [], eg_fs = f, eg_kernel = None, eg_nft = 0, eg_dns = 0\<rparr>
      in case regenerate_and_apply env st0 of
           (Inl e, st1) \<Rightarrow> (Inl e, st1)
         | (Inr _, st1) \<Rightarrow>
             (case open_socket (ev_io env) egress_socket (eg_fs st1) of
                (r, f2) \<Rightarrow> (r, st1\<lparr>eg_fs := f2\<rparr>)))"

definition egress_run :: "egress_env \<Rightarrow> fs \<Rightarrow> conn list \<Rightarrow> egress" where
  "egress_run env f cs =
     (case egress_start env f of
        (Inl _, st) \<Rightarrow> st
      | (Inr _, st) \<Rightarrow> serve_conns (egress_step env) cs st)"

text \<open>\<open>main\<close>: the exit code of the process, \<open>None\<close> if it goes on.\<close>

definition egress_main :: "egress_env \<Rightarrow> fs \<Rightarrow> nat option" where
  "egress_main env f = (case fst (egress_start env f) of Inl _ \<Rightarrow> Some 1 | Inr _ \<Rightarrow> None)"

section \<open>Invariant\<close>

definition entry_ok :: "agent_entry \<Rightarrow> bool" where
  "entry_ok e \<longleftrightarrow> ip_set_ok (ae_ips e) \<and> (\<forall>ip \<in> set (ae_ips e). \<not> is_blocked ip)"

text \<open>\<open>P\<close> is what is known of the names in the requests and of the entries made for them.\<close>

definition agents_ok :: "(string \<Rightarrow> agent_entry \<Rightarrow> bool) \<Rightarrow> (string, agent_entry) hashmap \<Rightarrow> bool" where
  "agents_ok P agents \<longleftrightarrow> hm_ok agents \<and> (\<forall>(n, e) \<in> set agents. n \<noteq> [] \<and> P n e \<and> entry_ok e)"

text \<open>The text of a file is a ruleset for some agents that satisfy the invariant.\<close>

definition good_rules :: "(string \<Rightarrow> agent_entry \<Rightarrow> bool) \<Rightarrow> egress_env \<Rightarrow> string option \<Rightarrow> bool" where
  "good_rules P env t \<longleftrightarrow>
     (\<exists>agents. agents_ok P agents \<and> t = Some (generate_tsi_ruleset (tsi_rules env agents)))"

definition egress_inv :: "(string \<Rightarrow> agent_entry \<Rightarrow> bool) \<Rightarrow> egress_env \<Rightarrow> egress \<Rightarrow> bool" where
  "egress_inv P env st \<longleftrightarrow> agents_ok P (eg_agents st) \<and> good_rules P env (file_of (eg_fs st) nft_rules_path) \<and>
     (eg_kernel st = None \<or> good_rules P env (eg_kernel st))"

text \<open>The entry that a request registers when the resolver is asked for the \<open>k\<close>-th time.\<close>

definition entry_of :: "egress_env \<Rightarrow> nat \<Rightarrow> json \<Rightarrow> agent_entry" where
  "entry_of env k req =
     \<lparr>ae_domains = strings_of req ''domains'',
      ae_ips = filter (\<lambda>ip. \<not> is_blocked ip) (fst (resolve_domains env (strings_of req ''domains'') k []))\<rparr>"

definition requests_in :: "(string \<Rightarrow> agent_entry \<Rightarrow> bool) \<Rightarrow> egress_env \<Rightarrow> bool" where
  "requests_in P env \<longleftrightarrow>
     (\<forall>l req n k. ev_parse env l = Inr req \<longrightarrow> agent_field req = Some n \<longrightarrow> str_or [] req ''method'' = ''add-agent'' \<longrightarrow>
        P n (entry_of env k req))"

definition names_in :: "(string \<Rightarrow> bool) \<Rightarrow> egress_env \<Rightarrow> bool" where
  "names_in P env \<longleftrightarrow> (\<forall>l req n. ev_parse env l = Inr req \<longrightarrow> agent_field req = Some n \<longrightarrow> P n)"

lemma names_requests: "names_in P env \<Longrightarrow> requests_in (\<lambda>n _. P n) env"
  by (auto simp: names_in_def requests_in_def)

text \<open>Entries whose names cannot leave an nft comment.\<close>

abbreviation named_safely :: "string \<Rightarrow> agent_entry \<Rightarrow> bool" where
  "named_safely n e \<equiv> name_safe n"

lemma fold_ip_insert: "ip_set_ok ips \<Longrightarrow> ip_set_ok (fold ip_insert xs ips)"
  by (induction xs arbitrary: ips) simp_all

lemma resolve_domains_ok: "ip_set_ok ips \<Longrightarrow> ip_set_ok (fst (resolve_domains env ds n ips))"
  by (induction env ds n ips rule: resolve_domains.induct) (auto simp: fold_ip_insert split: option.split)

lemma ip_set_ok_Nil [simp]: "ip_set_ok []"
  by (simp add: ip_set_ok_def)

lemma regenerate_agents [simp]: "eg_agents (snd (regenerate_and_apply env st)) = eg_agents st"
  by (auto simp: regenerate_and_apply_def apply_ruleset_def Let_def split: prod.split sum.split)

lemma tmp_path_neq [simp]: "nft_rules_path @ ''.tmp'' \<noteq> nft_rules_path" "nft_rules_path \<noteq> nft_rules_path @ ''.tmp''"
  by simp_all

lemma regenerate_file:
  assumes "regenerate_and_apply env st = (r, st')"
  shows "file_of (eg_fs st') nft_rules_path =
    (if r = Inr () then Some (generate_tsi_ruleset (tsi_rules env (eg_agents st)))
     else file_of (eg_fs st) nft_rules_path)"
    and "eg_kernel st' = eg_kernel st \<or> (r = Inr () \<and> eg_kernel st' = file_of (eg_fs st') nft_rules_path)"
proof -
  let ?tmp = "nft_rules_path @ ''.tmp''" and ?rt = "generate_tsi_ruleset (tsi_rules env (eg_agents st))"
  obtain r1 f1 where w: "fs_write (ev_io env) ?tmp ?rt (eg_fs st) = (r1, f1)"
    by (cases "fs_write (ev_io env) ?tmp ?rt (eg_fs st)")
  have other: "file_of f1 nft_rules_path = file_of (eg_fs st) nft_rules_path"
    using fs_write_other [of nft_rules_path ?tmp "ev_io env" ?rt "eg_fs st"] w by (simp add: file_of_def)
  have "file_of (eg_fs st') nft_rules_path =
      (if r = Inr () then Some ?rt else file_of (eg_fs st) nft_rules_path) \<and>
    (eg_kernel st' = eg_kernel st \<or> (r = Inr () \<and> eg_kernel st' = file_of (eg_fs st') nft_rules_path))"
  proof (cases r1)
    case (Inl e)
    with w assms other show ?thesis by (auto simp: regenerate_and_apply_def Let_def)
  next
    case (Inr u)
    obtain r2 f2 where n: "fs_rename (ev_io env) ?tmp nft_rules_path f1 = (r2, f2)"
      by (cases "fs_rename (ev_io env) ?tmp nft_rules_path f1")
    show ?thesis
    proof (cases r2)
      case (Inl e)
      then have "file_of f2 nft_rules_path = file_of f1 nft_rules_path"
        using n fs_rename_err by (simp add: file_of_def)
      with Inl Inr w n assms other show ?thesis by (auto simp: regenerate_and_apply_def Let_def)
    next
      case r2: (Inr v)
      have "file_of f1 ?tmp = Some ?rt" using w Inr fs_write_ok by fastforce
      moreover have "map_of (nodes f2) nft_rules_path = map_of (nodes f1) ?tmp"
        using n r2 fs_rename_ok [of "ev_io env" ?tmp nft_rules_path f1 f2] by auto
      ultimately have "file_of f2 nft_rules_path = Some ?rt" by (simp add: file_of_def)
      with r2 Inr w n assms show ?thesis
        by (auto simp: regenerate_and_apply_def apply_ruleset_def Let_def)
    qed
  qed
  then show "file_of (eg_fs st') nft_rules_path =
      (if r = Inr () then Some ?rt else file_of (eg_fs st) nft_rules_path)"
    and "eg_kernel st' = eg_kernel st \<or> (r = Inr () \<and> eg_kernel st' = file_of (eg_fs st') nft_rules_path)"
    by blast+
qed

lemma agents_ok_update:
  "agents_ok P agents \<Longrightarrow> n \<noteq> [] \<Longrightarrow> P n e \<Longrightarrow> entry_ok e \<Longrightarrow> agents_ok P (AList.update n e agents)"
  by (auto simp: agents_ok_def hm_ok_mem_iff split: if_splits)

lemma agents_ok_delete: "agents_ok P agents \<Longrightarrow> agents_ok P (AList.delete n agents)"
  by (auto simp: agents_ok_def hm_ok_mem_iff split: if_splits)

lemma regenerate_inv:
  assumes "agents_ok P (eg_agents st)" and "file_of (eg_fs st) nft_rules_path = None \<or>
      good_rules P env (file_of (eg_fs st) nft_rules_path)"
    and "eg_kernel st = None \<or> good_rules P env (eg_kernel st)"
    and "regenerate_and_apply env st = (r, st')"
    and "r = Inr () \<or> file_of (eg_fs st) nft_rules_path \<noteq> None"
  shows "egress_inv P env st'"
proof -
  have ag: "eg_agents st' = eg_agents st" using regenerate_agents [of env st] assms(4) by simp
  note rfile = regenerate_file [OF assms(4)]
  have "good_rules P env (Some (generate_tsi_ruleset (tsi_rules env (eg_agents st))))"
    unfolding good_rules_def using assms(1) by blast
  then have g: "good_rules P env (file_of (eg_fs st') nft_rules_path)"
    using rfile(1) assms(2,5) by (cases "r = Inr ()") auto
  with rfile(2) assms(1,3) ag show ?thesis by (auto simp: egress_inv_def)
qed

lemma inv_file: "egress_inv P env st \<Longrightarrow> file_of (eg_fs st) nft_rules_path \<noteq> None"
  by (auto simp: egress_inv_def good_rules_def)

lemma agent_field_nonempty: "agent_field req = Some n \<Longrightarrow> n \<noteq> []"
  by (auto simp: agent_field_def split: option.splits if_splits)

lemma regenerate_inv':
  assumes "egress_inv P env st" and "agents_ok P agents"
    and "regenerate_and_apply env (st\<lparr>eg_dns := d, eg_agents := agents\<rparr>) = (r, st')"
  shows "egress_inv P env st'"
  using assms inv_file [OF assms(1)]
  by (intro regenerate_inv [OF _ _ _ assms(3)]) (auto simp: egress_inv_def)

lemma handle_add_agent_inv:
  assumes inv: "egress_inv P env st" and name: "\<And>n. agent_field req = Some n \<Longrightarrow> P n (entry_of env (eg_dns st) req)"
  shows "egress_inv P env (fst (handle_add_agent env req st))"
proof (cases "agent_field req")
  case None
  with inv show ?thesis by (simp add: handle_add_agent_def)
next
  case (Some n)
  obtain ips calls where res: "resolve_domains env (strings_of req ''domains'') (eg_dns st) [] = (ips, calls)"
    by (cases "resolve_domains env (strings_of req ''domains'') (eg_dns st) []")
  let ?e = "\<lparr>ae_domains = strings_of req ''domains'', ae_ips = filter (\<lambda>ip. \<not> is_blocked ip) ips\<rparr>"
  have "ip_set_ok ips" using resolve_domains_ok [of "[]" env _ _] res by (metis fst_conv ip_set_ok_Nil)
  then have "entry_ok ?e" by (simp add: entry_ok_def)
  then have ok: "agents_ok P (AList.update n ?e (eg_agents st))"
    using inv name [OF Some] res agent_field_nonempty [OF Some]
    by (intro agents_ok_update) (auto simp: egress_inv_def entry_of_def)
  obtain r st2 where r: "regenerate_and_apply env
      (st\<lparr>eg_dns := calls, eg_agents := AList.update n ?e (eg_agents st)\<rparr>) = (r, st2)" by fastforce
  from regenerate_inv' [OF inv ok r] have "egress_inv P env st2" .
  with Some res r show ?thesis by (cases r) (simp_all add: handle_add_agent_def Let_def)
qed

lemma handle_remove_agent_inv:
  assumes inv: "egress_inv P env st"
  shows "egress_inv P env (fst (handle_remove_agent env req st))"
proof (cases "agent_field req = None \<or> map_of (eg_agents st) (the (agent_field req)) = None")
  case True
  with inv show ?thesis by (auto simp: handle_remove_agent_def split: option.split)
next
  case False
  then obtain n e where n: "agent_field req = Some n" "map_of (eg_agents st) n = Some e" by auto
  have ok: "agents_ok P (AList.delete n (eg_agents st))"
    using inv by (intro agents_ok_delete) (simp add: egress_inv_def)
  obtain r st2 where r: "regenerate_and_apply env (st\<lparr>eg_agents := AList.delete n (eg_agents st)\<rparr>) = (r, st2)"
    by fastforce
  have "egress_inv P env st2"
    using regenerate_inv' [OF inv ok, of "eg_dns st" r st2] r by simp
  with n r show ?thesis by (cases r) (simp_all add: handle_remove_agent_def)
qed

lemma egress_line_inv:
  assumes "egress_inv P env st"
    and "\<And>req n k. ev_parse env l = Inr req \<Longrightarrow> agent_field req = Some n \<Longrightarrow> str_or [] req ''method'' = ''add-agent'' \<Longrightarrow>
      P n (entry_of env k req)"
  shows "egress_inv P env (fst (egress_step env l st))"
proof (cases "ev_parse env l")
  case (Inl e)
  with assms show ?thesis by (simp add: egress_step_def)
next
  case (Inr req)
  have "egress_inv P env (fst (handle_add_agent env req st))" if "str_or [] req ''method'' = ''add-agent''"
    using assms(1) assms(2) [OF Inr _ that] by (intro handle_add_agent_inv) auto
  with Inr assms(1) handle_remove_agent_inv [OF assms(1), of req] show ?thesis
    by (auto simp: egress_step_def Let_def split: prod.split)
qed

lemma egress_step_inv:
  "egress_inv P env st \<Longrightarrow> requests_in P env \<Longrightarrow> egress_inv P env (fst (egress_step env l st))"
  by (rule egress_line_inv) (auto simp: requests_in_def)

interpretation egress_srv: line_service "egress_step env" "\<lambda>st. requests_in P env \<and> egress_inv P env st" "\<lambda>_. True"
  for env P
  by unfold_locales (metis egress_step_inv fst_conv, rule TrueI)

lemma egress_start_inv:
  assumes "egress_start env f = (Inr (), st)" and "file_of f nft_rules_path = None"
  shows "egress_inv P env st"
proof -
  let ?st0 = "\<lparr>eg_agents = [], eg_fs = f, eg_kernel = None, eg_nft = 0, eg_dns = 0\<rparr>"
  obtain r1 st1 where r: "regenerate_and_apply env ?st0 = (r1, st1)" by fastforce
  with assms(1) have ok: "r1 = Inr ()" by (auto simp: egress_start_def split: sum.splits)
  have inv: "egress_inv P env st1"
    using ok assms(2) by (intro regenerate_inv [OF _ _ _ r]) (auto simp: agents_ok_def)
  obtain r2 f2 where o: "open_socket (ev_io env) egress_socket (eg_fs st1) = (r2, f2)"
    by (cases "open_socket (ev_io env) egress_socket (eg_fs st1)")
  with assms(1) r ok have s: "r2 = Inr ()" "st = st1\<lparr>eg_fs := f2\<rparr>" by (auto simp: egress_start_def)
  have "file_of f2 nft_rules_path = file_of (eg_fs st1) nft_rules_path"
    using open_socket_ok [of "ev_io env" egress_socket "eg_fs st1" f2] o s(1)
    by (simp add: file_of_def egress_socket_def nft_rules_path_def)
  with inv s(2) show ?thesis by (simp add: egress_inv_def)
qed

section \<open>What the daemon enforces\<close>

lemma tsi_rules_safe:
  assumes "is_iter (ev_it env)" and "agents_ok named_safely agents"
  shows "rules_safe (tsi_rules env agents)"
proof -
  have "\<exists>a b c d. ip = V4 a b c d" if "\<not> is_blocked ip" for ip using that by (cases ip) auto
  then show ?thesis
    using assms by (fastforce simp: rules_safe_def tsi_rules_def is_iter_set agents_ok_def entry_ok_def)
qed

lemma tsi_rules_mem:
  assumes "is_iter (ev_it env)"
  shows "(\<exists>r \<in> set (tsi_rules env agents). ip \<in> set (ta_ips r)) \<longleftrightarrow> (\<exists>(n, e) \<in> set agents. ip \<in> set (ae_ips e))"
  by (auto simp: tsi_rules_def is_iter_set [OF assms] split_beta)

text \<open>A packet that only an agent's allow rule can let out.\<close>

definition external :: "packet \<Rightarrow> bool" where
  "external p \<longleftrightarrow> \<not> p_loopback p \<and> \<not> p_established p \<and> (p_dport p \<noteq> 53 \<or> p_proto p = Other_proto)"

lemma good_rules_verdict:
  assumes "is_iter (ev_it env)" and "good_rules named_safely env t" and "external p"
  obtains rt agents where "t = Some rt" "agents_ok named_safely agents"
    "output_verdict m6 rt p = Some (if \<exists>(n, e) \<in> set agents. p_dst p \<in> set (ae_ips e) then Accept else Drop)"
proof -
  from assms(2) obtain agents where a: "agents_ok named_safely agents"
    "t = Some (generate_tsi_ruleset (tsi_rules env agents))" by (auto simp: good_rules_def)
  have "tsi_allows (tsi_rules env agents) p \<longleftrightarrow> (\<exists>(n, e) \<in> set agents. p_dst p \<in> set (ae_ips e))"
    using assms(3) a(1) tsi_rules_mem [OF assms(1), of agents "p_dst p"]
    by (auto simp: tsi_allows_def external_def agents_ok_def entry_ok_def)
  with output_verdict_tsi [OF tsi_rules_safe [OF assms(1) a(1)], of m6 p] a that show thesis by simp
qed

lemma good_rules_blocked:
  assumes "is_iter (ev_it env)" and "good_rules named_safely env t" and "external p" and "is_blocked (p_dst p)"
  shows "Option.bind t (\<lambda>rt. output_verdict m6 rt p) = Some Drop"
proof (rule good_rules_verdict [OF assms(1-3), of m6])
  fix rt agents
  assume a: "t = Some rt" "agents_ok named_safely agents"
    and v: "output_verdict m6 rt p = Some (if \<exists>(n, e) \<in> set agents. p_dst p \<in> set (ae_ips e) then Accept else Drop)"
  have "\<not> (\<exists>(n, e) \<in> set agents. p_dst p \<in> set (ae_ips e))"
    using a(2) assms(4) by (auto simp: agents_ok_def entry_ok_def)
  with a(1) v show ?thesis by (simp del: split_paired_Ex)
qed

lemma agents_ok_mono: "agents_ok P agents \<Longrightarrow> (\<And>n e. P n e \<Longrightarrow> Q n e) \<Longrightarrow> agents_ok Q agents"
  by (auto simp: agents_ok_def)

text \<open>What is known of the entries is known of every destination that the rules accept.\<close>

lemma good_rules_accept:
  assumes "is_iter (ev_it env)" and "good_rules P env t" and "\<And>n e. P n e \<Longrightarrow> name_safe n" and "external p"
    and "Option.bind t (\<lambda>rt. output_verdict m6 rt p) = Some Accept"
  obtains n e where "P n e" "entry_ok e" "p_dst p \<in> set (ae_ips e)"
proof -
  from assms(2) obtain agents where a: "agents_ok P agents"
    "t = Some (generate_tsi_ruleset (tsi_rules env agents))" by (auto simp: good_rules_def)
  have safe: "agents_ok named_safely agents" by (rule agents_ok_mono [OF a(1)]) (rule assms(3))
  have "tsi_allows (tsi_rules env agents) p"
  proof (rule ccontr)
    assume "\<not> tsi_allows (tsi_rules env agents) p"
    then have "output_verdict m6 (generate_tsi_ruleset (tsi_rules env agents)) p = Some Drop"
      using output_verdict_tsi [OF tsi_rules_safe [OF assms(1) safe], of m6 p] by simp
    with assms(5) a(2) show False by simp
  qed
  then have "\<exists>(n, e) \<in> set agents. p_dst p \<in> set (ae_ips e)"
    using assms(4) tsi_rules_mem [OF assms(1), of agents "p_dst p"] by (auto simp: tsi_allows_def external_def)
  then obtain n e where ne: "(n, e) \<in> set agents" "p_dst p \<in> set (ae_ips e)" by blast
  then have "P n e" "entry_ok e" using a(1) by (auto simp: agents_ok_def)
  then show thesis using ne(2) by (rule that)
qed

text \<open>An address that a domain stands for: its literal, or an answer of the resolver.\<close>

definition resolves :: "egress_env \<Rightarrow> string \<Rightarrow> ip_addr \<Rightarrow> bool" where
  "resolves env d ip \<longleftrightarrow>
     parse_ip (ev_p6 env) d = Some ip \<or> (\<exists>k addrs. ev_dns env k d = Some addrs \<and> ip \<in> set addrs)"

lemma set_fold_ip_insert: "set (fold ip_insert addrs ips) = set addrs \<union> set ips"
  by (induction addrs arbitrary: ips) auto

lemma resolve_domains_sound:
  "ip \<in> set (fst (resolve_domains env ds k ips)) \<Longrightarrow> ip \<in> set ips \<or> (\<exists>d \<in> set ds. resolves env d ip)"
proof (induction env ds k ips rule: resolve_domains.induct)
  case (2 env d ds n ips)
  show ?case
  proof (cases "parse_ip (ev_p6 env) d")
    case (Some x)
    then have "resolves env d x" by (simp add: resolves_def)
    then show ?thesis using 2(3) [OF Some] 2(4) Some by auto
  next
    case None
    show ?thesis
    proof (cases "ev_dns env n d")
      case (Some addrs)
      then show ?thesis using 2(2) [OF None Some] 2(4) None by (auto simp: resolves_def set_fold_ip_insert)
    next
      case none: None
      then show ?thesis using 2(1) [OF None none] 2(4) None by auto
    qed
  qed
qed simp

lemma entry_of_resolves:
  assumes "ip \<in> set (ae_ips (entry_of env k req))"
  shows "\<exists>d \<in> set (strings_of req ''domains''). resolves env d ip"
  using assms resolve_domains_sound [of ip env "strings_of req ''domains''" k "[]"] by (simp add: entry_of_def)

section \<open>Properties\<close>

definition sample_request :: json where
  "sample_request = JObj [(''method'', JStr ''add-agent''), (''agent'', JStr ''researcher''),
     (''domains'', strs [''104.18.0.1'', ''10.0.0.7''])]"

definition sample_env :: egress_env where
  "sample_env = \<lparr>ev_dns = (\<lambda>_ _. None), ev_p6 = (\<lambda>_. None), ev_io = (\<lambda>_. None), ev_nft = (\<lambda>_. True),
     ev_it = rev, ev_parse = (\<lambda>l. if l = ''a'' then Inr sample_request else Inl ''bad'')\<rparr>"

definition sample_fs :: fs where
  "sample_fs = \<lparr>nodes = [], fs_calls = 0\<rparr>"

lemma sample_names: "names_in name_safe sample_env"
  by (auto simp: names_in_def sample_env_def sample_request_def agent_field_def name_safe_def split: if_splits)

lemma sample_start: "\<exists>st. egress_start sample_env sample_fs = (Inr (), st)"
  by (simp add: egress_start_def regenerate_and_apply_def fs_write_def fs_rename_def apply_ruleset_def Let_def
      sample_env_def sample_fs_def open_socket_def fs_bind_def fs_chmod_def fs_exists_def egress_socket_def
      nft_rules_path_def)

text \<open>
  The state invariant of the daemon. From any start, after any sequence of connections with any
  content, the agent map has no duplicate or empty names and every registered address is an unblocked
  IPv4 address, in a sorted set; whatever the resolver, the file system and \<open>nft\<close> did on the way.
\<close>

lemma egress_state_safe:
  assumes "egress_start env f = (Inr (), st)" and "file_of f nft_rules_path = None"
  shows "hm_ok (eg_agents (serve_conns (egress_step env) cs st)) \<and>
    (\<forall>n e. map_of (eg_agents (serve_conns (egress_step env) cs st)) n = Some e \<longrightarrow>
       n \<noteq> [] \<and> ip_set_ok (ae_ips e) \<and> (\<forall>ip \<in> set (ae_ips e). \<not> is_blocked ip \<and> (\<exists>a b c d. ip = V4 a b c d)))"
proof -
  have "requests_in (\<lambda>_ _. True) env \<and> egress_inv (\<lambda>_ _. True) env st"
    using egress_start_inv [OF assms] by (simp add: requests_in_def)
  then have "egress_inv (\<lambda>_ _. True) env (serve_conns (egress_step env) cs st)"
    using egress_srv.serve_all by blast
  moreover have "\<exists>a b c d. ip = V4 a b c d" if "\<not> is_blocked ip" for ip using that by (cases ip) auto
  ultimately show ?thesis
    by (fastforce simp: egress_inv_def agents_ok_def entry_ok_def hm_ok_mem_iff)
qed



text \<open>
  An \<open>add-agent\<close> request replaces the entry of its agent by the requested domains and the
  unblocked addresses they resolve to and leaves all other agents alone. It answers \<open>ok\<close> exactly when
  the rules file now is the ruleset of the new map; after an error answer the file is the old one, while
  the agent stays registered, so that the next successful change publishes its addresses.
\<close>

lemma add_agent_effect:
  assumes "agent_field req = Some n" and "handle_add_agent env req st = (st', reply)"
  shows "eg_agents st' = AList.update n \<lparr>ae_domains = strings_of req ''domains'',
      ae_ips = filter (\<lambda>ip. \<not> is_blocked ip) (fst (resolve_domains env (strings_of req ''domains'') (eg_dns st) []))\<rparr>
      (eg_agents st) \<and>
    (if get reply ''ok'' = Some (JBool True)
     then file_of (eg_fs st') nft_rules_path = Some (generate_tsi_ruleset (tsi_rules env (eg_agents st')))
     else file_of (eg_fs st') nft_rules_path = file_of (eg_fs st) nft_rules_path \<and> eg_kernel st' = eg_kernel st)"
proof -
  obtain ips calls where res: "resolve_domains env (strings_of req ''domains'') (eg_dns st) [] = (ips, calls)"
    by (cases "resolve_domains env (strings_of req ''domains'') (eg_dns st) []")
  let ?st1 = "st\<lparr>eg_dns := calls, eg_agents := AList.update n \<lparr>ae_domains = strings_of req ''domains'',
      ae_ips = filter (\<lambda>ip. \<not> is_blocked ip) ips\<rparr> (eg_agents st)\<rparr>"
  obtain r st2 where r: "regenerate_and_apply env ?st1 = (r, st2)" by fastforce
  have ag: "eg_agents st2 = eg_agents ?st1" using regenerate_agents [of env ?st1] r by simp
  show ?thesis
  proof (cases r)
    case (Inl e)
    with assms res r have "st' = st2" "reply = error_json (''rules apply failed: '' @ e)"
      by (simp_all add: handle_add_agent_def Let_def)
    with regenerate_file [OF r] ag res Inl show ?thesis by simp
  next
    case (Inr u)
    with assms res r have "st' = st2" "get reply ''ok'' = Some (JBool True)"
      by (auto simp add: handle_add_agent_def Let_def)
    with regenerate_file [OF r] ag res Inr show ?thesis by simp
  qed
qed

text \<open>The answer is \<open>ok\<close> also when \<open>nft\<close> never succeeds and the kernel has no ruleset at all.\<close>

lemma nft_failure_ignored:
  "\<exists>st' reply. handle_add_agent (sample_env\<lparr>ev_nft := \<lambda>_. False\<rparr>) sample_request
       \<lparr>eg_agents = [], eg_fs = sample_fs, eg_kernel = None, eg_nft = 0, eg_dns = 0\<rparr> = (st', reply) \<and>
     get reply ''ok'' = Some (JBool True) \<and> eg_kernel st' = None"
  by (simp add: handle_add_agent_def agent_field_def sample_request_def regenerate_and_apply_def fs_write_def
      fs_rename_def apply_ruleset_def Let_def sample_env_def sample_fs_def split: prod.split)

end
