(* ===== verification/Serde.thy ===== *)
theory Serde
  imports Json
begin

text \<open>
  What the derived serde code of the repository's structs does with a value: the fields of a struct,
  required and defaulted ones, machine integers with their ranges, and lists. The parsers that produce
  the values are parameters of the theories that use them.
\<close>

text \<open>
  The fields a derived struct visitor sees: an object with each known field at most once, or an array
  with the fields in order, of which a tail may be missing.
\<close>

definition struct_fields :: "string list \<Rightarrow> json \<Rightarrow> (string \<Rightarrow> json option) option" where
  "struct_fields names v =
     (case v of
        JObj ms \<Rightarrow>
          (if distinct (filter (\<lambda>k. k \<in> set names) (map fst ms)) then Some (map_of ms) else None)
      | JArr xs \<Rightarrow> (if length xs \<le> length names then Some (map_of (zip names xs)) else None)
      | _ \<Rightarrow> None)"

definition required :: "(string \<Rightarrow> json option) \<Rightarrow> string \<Rightarrow> (json \<Rightarrow> 'a option) \<Rightarrow> 'a option" where
  "required f k de = Option.bind (f k) de"

definition defaulted :: "(string \<Rightarrow> json option) \<Rightarrow> string \<Rightarrow> (json \<Rightarrow> 'a option) \<Rightarrow> 'a \<Rightarrow> 'a option" where
  "defaulted f k de d = (case f k of None \<Rightarrow> Some d | Some v \<Rightarrow> de v)"

definition de_u8 :: "json \<Rightarrow> u8 option" where
  "de_u8 v = (case v of JNum i \<Rightarrow> (if 0 \<le> i \<and> i < 2 ^ 8 then Some (of_int i) else None) | _ \<Rightarrow> None)"

definition de_u16 :: "json \<Rightarrow> u16 option" where
  "de_u16 v = (case v of JNum i \<Rightarrow> (if 0 \<le> i \<and> i < 2 ^ 16 then Some (of_int i) else None) | _ \<Rightarrow> None)"

definition de_u32 :: "json \<Rightarrow> u32 option" where
  "de_u32 v = (case v of JNum i \<Rightarrow> (if 0 \<le> i \<and> i < 2 ^ 32 then Some (of_int i) else None) | _ \<Rightarrow> None)"

fun opt_all :: "'a option list \<Rightarrow> 'a list option" where
  "opt_all [] = Some []"
| "opt_all (x # xs) = Option.bind x (\<lambda>y. map_option (\<lambda>ys. y # ys) (opt_all xs))"

definition de_strings :: "json \<Rightarrow> string list option" where
  "de_strings v = (case v of JArr xs \<Rightarrow> opt_all (map as_str xs) | _ \<Rightarrow> None)"

text \<open>\<open>HashMap<String, String>\<close>: an object of strings, of which a repeated key keeps its last value.\<close>

definition de_string_map :: "json \<Rightarrow> (string, string) hashmap option" where
  "de_string_map v =
     (case v of
        JObj ms \<Rightarrow>
          map_option (\<lambda>vs. fold (\<lambda>(k, x). AList.update k x) (zip (map fst ms) vs) []) (opt_all (map (as_str \<circ> snd) ms))
      | _ \<Rightarrow> None)"

definition string_map_json :: "(string \<times> string) list \<Rightarrow> json" where
  "string_map_json m = JObj (map (\<lambda>(k, v). (k, JStr v)) m)"

section \<open>Lemmas\<close>

lemma opt_all_Some [simp]: "opt_all (map Some xs) = Some xs"
  by (induction xs) simp_all

lemma opt_all_map: "(\<And>x. x \<in> set xs \<Longrightarrow> f (g x) = Some x) \<Longrightarrow> opt_all (map f (map g xs)) = Some xs"
  by (induction xs) auto

lemma de_strings_strs [simp]: "de_strings (strs xs) = Some xs"
  by (simp add: de_strings_def strs_def comp_def)

lemma de_word_json [simp]:
  "de_u8 (JNum (uint w)) = Some w" "de_u16 (JNum (uint u)) = Some u" "de_u32 (JNum (uint v)) = Some v"
  using uint_lt2p [of w] uint_lt2p [of u] uint_lt2p [of v] by (simp_all add: de_u8_def de_u16_def de_u32_def)

lemma fold_update_append:
  "distinct (map fst (m @ kvs)) \<Longrightarrow> fold (\<lambda>(k, x). AList.update k x) kvs m = m @ kvs"
proof (induction kvs arbitrary: m)
  case (Cons p kvs)
  obtain a b where p: "p = (a, b)" by (cases p)
  have "a \<notin> fst ` set m \<Longrightarrow> AList.update a b m = m @ [(a, b)]" by (induction m) auto
  with Cons p show ?case by auto
qed simp

lemma hm_ok_fold_update: "hm_ok m \<Longrightarrow> hm_ok (fold (\<lambda>(k, x). AList.update k x) kvs m)"
  by (induction kvs arbitrary: m) (auto split: prod.split)

lemma map_of_fold_update:
  "distinct (map fst kvs) \<Longrightarrow>
     map_of (fold (\<lambda>(k, x). AList.update k x) kvs m) k = (case map_of kvs k of None \<Rightarrow> map_of m k | Some v \<Rightarrow> Some v)"
proof (induction kvs arbitrary: m)
  case (Cons p kvs)
  obtain a b where p: "p = (a, b)" by (cases p)
  from Cons.prems p have "map_of kvs a = None" by (simp add: map_of_eq_None_iff)
  with Cons p show ?case by (auto split: option.split)
qed simp

lemma map_of_fold_update_const:
  "map_of (fold (\<lambda>(k, x). AList.update k x) kvs m) k =
     (case map_of (rev kvs) k of None \<Rightarrow> map_of m k | Some v \<Rightarrow> Some v)"
proof (induction kvs arbitrary: m)
  case (Cons p kvs)
  obtain a b where "p = (a, b)" by (cases p)
  with Cons show ?case by (auto simp: map_add_def split: option.split)
qed simp

lemma de_string_map_json:
  "hm_ok m \<Longrightarrow> \<exists>m'. de_string_map (string_map_json m) = Some m' \<and> hm_ok m' \<and> map_of m' = map_of m"
proof -
  assume ok: "hm_ok m"
  have "map (as_str \<circ> snd) (map (\<lambda>(k, v). (k, JStr v)) m) = map Some (map snd m)" by (simp add: split_beta)
  then have "de_string_map (string_map_json m) =
      Some (fold (\<lambda>(k, x). AList.update k x) (zip (map fst (map (\<lambda>(k, v). (k, JStr v)) m)) (map snd m)) [])"
    unfolding de_string_map_def string_map_json_def json.case by (simp only: opt_all_Some option.map)
  also have "zip (map fst (map (\<lambda>(k, v). (k, JStr v)) m)) (map snd m) = m"
    by (induction m) (auto split: prod.split)
  finally have "de_string_map (string_map_json m) = Some (fold (\<lambda>(k, x). AList.update k x) m [])" .
  moreover have "map_of (fold (\<lambda>(k, x). AList.update k x) m []) = map_of m"
    using ok by (auto simp: fun_eq_iff map_of_fold_update hm_ok_def split: option.split)
  ultimately show ?thesis using hm_ok_fold_update by force
qed

end
