(* ===== verification/Manifest.thy ===== *)
theory Manifest
  imports Serde
begin

text \<open>
  Model of \<open>pkg/cage/src/manifest.rs\<close>: the AGENT.toml manifest, its deserialization by the derived serde
  code, and its validation. The TOML parser is a parameter that returns the document as a tree of the
  JSON data model (tables are objects); defaults, ranges and enumerations are the code's own.
\<close>

section \<open>Data\<close>

datatype runtime = Binary | Python

datatype risk_level = Low | Medium | High | Critical

record agent_meta =
  am_name :: string
  am_version :: string
  am_runtime :: runtime

record health_check =
  hc_port :: u16
  hc_path :: string
  hc_interval_secs :: u32
  hc_max_failures :: u32

record network_caps =
  nc_allow :: "string list"

record filesystem_caps =
  fc_read :: "string list"
  fc_write :: "string list"

record capabilities =
  cp_network :: network_caps
  cp_filesystem :: filesystem_caps
  cp_shell :: bool
  cp_credential_refs :: "string list"
  cp_accelerator :: string
  cp_max_cpu_percent :: u32
  cp_max_memory_mb :: u32
  cp_max_api_calls_per_hour :: u32
  cp_health_check :: "health_check option"

record agent_manifest =
  mf_agent :: agent_meta
  mf_capabilities :: capabilities
  mf_tools :: "(string, risk_level) hashmap"

datatype manifest_error =
    Manifest_read_failed string io_error
  | Manifest_parse_failed string
  | Validation string

section \<open>Deserialization\<close>

definition de_runtime :: "json \<Rightarrow> runtime option" where
  "de_runtime v =
     (case as_str v of
        Some s \<Rightarrow> (if s = ''binary'' then Some Binary else if s = ''python'' then Some Python else None)
      | None \<Rightarrow> None)"

definition de_risk :: "json \<Rightarrow> risk_level option" where
  "de_risk v =
     (case as_str v of
        Some s \<Rightarrow>
          (if s = ''low'' then Some Low else if s = ''medium'' then Some Medium
           else if s = ''high'' then Some High else if s = ''critical'' then Some Critical else None)
      | None \<Rightarrow> None)"

definition default_version :: string where "default_version = ''0.0.0''"
definition default_runtime :: runtime where "default_runtime = Binary"
definition default_health_path :: string where "default_health_path = ''/health''"
definition default_health_interval :: u32 where "default_health_interval = 30"
definition default_health_failures :: u32 where "default_health_failures = 3"
definition default_accelerator :: string where "default_accelerator = ''none''"
definition default_cpu :: u32 where "default_cpu = 25"
definition default_memory :: u32 where "default_memory = 256"

definition default_capabilities :: capabilities where
  "default_capabilities =
     \<lparr>cp_network = \<lparr>nc_allow = []\<rparr>, cp_filesystem = \<lparr>fc_read = [], fc_write = []\<rparr>, cp_shell = False,
      cp_credential_refs = [], cp_accelerator = default_accelerator, cp_max_cpu_percent = default_cpu,
      cp_max_memory_mb = default_memory, cp_max_api_calls_per_hour = 0, cp_health_check = None\<rparr>"

definition de_agent_meta :: "json \<Rightarrow> agent_meta option" where
  "de_agent_meta v =
     Option.bind (struct_fields [''name'', ''version'', ''runtime''] v) (\<lambda>f.
     Option.bind (required f ''name'' as_str) (\<lambda>n.
     Option.bind (defaulted f ''version'' as_str default_version) (\<lambda>ver.
     Option.bind (defaulted f ''runtime'' de_runtime default_runtime) (\<lambda>rt.
     Some \<lparr>am_name = n, am_version = ver, am_runtime = rt\<rparr>))))"

definition de_health_check :: "json \<Rightarrow> health_check option" where
  "de_health_check v =
     Option.bind (struct_fields [''port'', ''path'', ''interval_secs'', ''max_failures''] v) (\<lambda>f.
     Option.bind (required f ''port'' de_u16) (\<lambda>p.
     Option.bind (defaulted f ''path'' as_str default_health_path) (\<lambda>path.
     Option.bind (defaulted f ''interval_secs'' de_u32 default_health_interval) (\<lambda>i.
     Option.bind (defaulted f ''max_failures'' de_u32 default_health_failures) (\<lambda>m.
     Some \<lparr>hc_port = p, hc_path = path, hc_interval_secs = i, hc_max_failures = m\<rparr>)))))"

definition de_network :: "json \<Rightarrow> network_caps option" where
  "de_network v =
     Option.bind (struct_fields [''allow''] v) (\<lambda>f.
     Option.bind (defaulted f ''allow'' de_strings []) (\<lambda>a. Some \<lparr>nc_allow = a\<rparr>))"

definition de_filesystem :: "json \<Rightarrow> filesystem_caps option" where
  "de_filesystem v =
     Option.bind (struct_fields [''read'', ''write''] v) (\<lambda>f.
     Option.bind (defaulted f ''read'' de_strings []) (\<lambda>r.
     Option.bind (defaulted f ''write'' de_strings []) (\<lambda>w. Some \<lparr>fc_read = r, fc_write = w\<rparr>)))"

definition de_option :: "(json \<Rightarrow> 'a option) \<Rightarrow> json \<Rightarrow> 'a option option" where
  "de_option de v = (case v of JNull \<Rightarrow> Some None | _ \<Rightarrow> map_option Some (de v))"

definition capability_names :: "string list" where
  "capability_names = [''network'', ''filesystem'', ''shell'', ''credential_refs'', ''accelerator'',
     ''max_cpu_percent'', ''max_memory_mb'', ''max_api_calls_per_hour'', ''health_check'']"

definition de_capabilities :: "json \<Rightarrow> capabilities option" where
  "de_capabilities v =
     Option.bind (struct_fields capability_names v) (\<lambda>f.
     Option.bind (defaulted f ''network'' de_network \<lparr>nc_allow = []\<rparr>) (\<lambda>net.
     Option.bind (defaulted f ''filesystem'' de_filesystem \<lparr>fc_read = [], fc_write = []\<rparr>) (\<lambda>fsys.
     Option.bind (defaulted f ''shell'' as_bool False) (\<lambda>sh.
     Option.bind (defaulted f ''credential_refs'' de_strings []) (\<lambda>refs.
     Option.bind (defaulted f ''accelerator'' as_str default_accelerator) (\<lambda>acc.
     Option.bind (defaulted f ''max_cpu_percent'' de_u32 default_cpu) (\<lambda>cpu.
     Option.bind (defaulted f ''max_memory_mb'' de_u32 default_memory) (\<lambda>mem.
     Option.bind (defaulted f ''max_api_calls_per_hour'' de_u32 0) (\<lambda>calls.
     Option.bind (defaulted f ''health_check'' (de_option de_health_check) None) (\<lambda>hc.
     Some \<lparr>cp_network = net, cp_filesystem = fsys, cp_shell = sh, cp_credential_refs = refs,
           cp_accelerator = acc, cp_max_cpu_percent = cpu, cp_max_memory_mb = mem,
           cp_max_api_calls_per_hour = calls, cp_health_check = hc\<rparr>))))))))))"

definition de_tool :: "json \<Rightarrow> risk_level option" where
  "de_tool v = Option.bind (struct_fields [''risk''] v) (\<lambda>f. required f ''risk'' de_risk)"

text \<open>A map keeps the last value of a repeated key.\<close>

definition de_tools :: "json \<Rightarrow> (string, risk_level) hashmap option" where
  "de_tools v =
     (case v of
        JObj ms \<Rightarrow>
          map_option (\<lambda>rs. fold (\<lambda>(k, r) m. AList.update k r m) (zip (map fst ms) rs) [])
            (opt_all (map (de_tool \<circ> snd) ms))
      | _ \<Rightarrow> None)"

definition de_manifest :: "json \<Rightarrow> agent_manifest option" where
  "de_manifest v =
     Option.bind (struct_fields [''agent'', ''capabilities'', ''tools''] v) (\<lambda>f.
     Option.bind (required f ''agent'' de_agent_meta) (\<lambda>a.
     Option.bind (defaulted f ''capabilities'' de_capabilities default_capabilities) (\<lambda>c.
     Option.bind (defaulted f ''tools'' de_tools []) (\<lambda>t.
     Some \<lparr>mf_agent = a, mf_capabilities = c, mf_tools = t\<rparr>))))"

section \<open>Validation\<close>

fun contains_str :: "string \<Rightarrow> string \<Rightarrow> bool" where
  "contains_str p [] = (p = [])"
| "contains_str p (c # s) = (starts_with (c # s) p \<or> contains_str p s)"

definition is_ascii_alphanumeric :: "char \<Rightarrow> bool" where
  "is_ascii_alphanumeric c \<longleftrightarrow>
     (48 \<le> byte c \<and> byte c \<le> 57) \<or> (65 \<le> byte c \<and> byte c \<le> 90) \<or> (97 \<le> byte c \<and> byte c \<le> 122)"

definition name_char :: "char \<Rightarrow> bool" where
  "name_char c \<longleftrightarrow> is_ascii_alphanumeric c \<or> c = CHR ''-'' \<or> c = CHR ''_''"

fun validate_domains :: "string list \<Rightarrow> manifest_error + unit" where
  "validate_domains [] = Inr ()"
| "validate_domains (d # ds) =
     (if d = [] \<or> CHR '' '' \<in> set d then
        Inl (Validation (''invalid domain in network.allow: '' @ quote d))
      else validate_domains ds)"

fun validate_paths :: "string list \<Rightarrow> manifest_error + unit" where
  "validate_paths [] = Inr ()"
| "validate_paths (p # ps) =
     (if \<not> starts_with p ''/'' then
        Inl (Validation (''filesystem paths must be absolute: '' @ quote p))
      else validate_paths ps)"

definition validate :: "agent_manifest \<Rightarrow> manifest_error + unit" where
  "validate m =
     (let n = am_name (mf_agent m); c = mf_capabilities m
      in if n = [] then Inl (Validation ''agent.name cannot be empty'')
         else if CHR ''/'' \<in> set n \<or> contains_str ''..'' n \<or> CHR 0x00 \<in> set n then
           Inl (Validation ''agent.name contains invalid characters (/, .., or null)'')
         else if \<not> (\<forall>ch \<in> set n. name_char ch) then
           Inl (Validation ''agent.name must be alphanumeric with hyphens/underscores only'')
         else if cp_max_cpu_percent c > 100 then Inl (Validation ''max_cpu_percent cannot exceed 100'')
         else if cp_max_memory_mb c = 0 then Inl (Validation ''max_memory_mb must be greater than 0'')
         else res_bind (validate_domains (nc_allow (cp_network c)))
           (\<lambda>_. validate_paths (fc_read (cp_filesystem c) @ fc_write (cp_filesystem c))))"

text \<open>\<open>toml\<close> parses a document, \<open>err\<close> is serde's message for one that does not fit the structs.\<close>

definition parse_manifest ::
    "(string \<Rightarrow> string + json) \<Rightarrow> (string \<Rightarrow> string) \<Rightarrow> string \<Rightarrow> manifest_error + agent_manifest" where
  "parse_manifest toml err content =
     (case toml content of
        Inl e \<Rightarrow> Inl (Manifest_parse_failed e)
      | Inr v \<Rightarrow>
          (case de_manifest v of
             None \<Rightarrow> Inl (Manifest_parse_failed (err content))
           | Some m \<Rightarrow> res_bind (validate m) (\<lambda>_. Inr m)))"

definition load_manifest ::
    "(string \<Rightarrow> string + json) \<Rightarrow> (string \<Rightarrow> string) \<Rightarrow> string \<Rightarrow> io_error + string \<Rightarrow>
     manifest_error + agent_manifest" where
  "load_manifest toml err path file_result =
     res_bind (map_err (Manifest_read_failed path) file_result) (parse_manifest toml err)"

definition show_manifest_error :: "manifest_error \<Rightarrow> string" where
  "show_manifest_error e =
     (case e of
        Manifest_read_failed path io \<Rightarrow> ''failed to read manifest '' @ path @ '': '' @ io
      | Manifest_parse_failed m \<Rightarrow> ''failed to parse manifest: '' @ m
      | Validation m \<Rightarrow> ''manifest validation: '' @ m)"

section \<open>Lemmas\<close>

definition valid_name :: "string \<Rightarrow> bool" where
  "valid_name n \<longleftrightarrow> n \<noteq> [] \<and> (\<forall>c \<in> set n. name_char c)"

lemma name_char_free:
  "\<not> name_char (CHR ''/'')" "\<not> name_char (CHR ''.'')" "\<not> name_char (CHR 0x00)" "\<not> name_char (CHR 10)"
  "\<not> name_char (CHR 34)" "\<not> name_char (CHR '' '')"
  by (simp_all add: name_char_def is_ascii_alphanumeric_def byte_def)

lemma contains_str_set: "contains_str p s \<Longrightarrow> set p \<subseteq> set s"
proof (induction s)
  case (Cons c s)
  then show ?case
    by (cases "contains_str p s") (auto simp: starts_with_iff Cons_eq_append_conv)
qed simp

lemma valid_name_clean:
  assumes "valid_name n"
  shows "CHR ''/'' \<notin> set n" "\<not> contains_str ''..'' n" "CHR 0x00 \<notin> set n" "CHR 10 \<notin> set n" "CHR 34 \<notin> set n"
    "CHR ''.'' \<notin> set n" "n \<noteq> []"
  using assms name_char_free contains_str_set [of "''..''" n] by (auto simp: valid_name_def)

lemma validate_domains_iff: "validate_domains ds = Inr () \<longleftrightarrow> (\<forall>d \<in> set ds. d \<noteq> [] \<and> CHR '' '' \<notin> set d)"
  by (induction ds) auto

lemma validate_paths_iff: "validate_paths ps = Inr () \<longleftrightarrow> (\<forall>p \<in> set ps. starts_with p ''/'')"
  by (induction ps) auto

lemma validate_iff:
  "validate m = Inr () \<longleftrightarrow>
     valid_name (am_name (mf_agent m)) \<and> cp_max_cpu_percent (mf_capabilities m) \<le> 100 \<and>
     cp_max_memory_mb (mf_capabilities m) \<noteq> 0 \<and>
     (\<forall>d \<in> set (nc_allow (cp_network (mf_capabilities m))). d \<noteq> [] \<and> CHR '' '' \<notin> set d) \<and>
     (\<forall>p \<in> set (fc_read (cp_filesystem (mf_capabilities m)) @ fc_write (cp_filesystem (mf_capabilities m))).
        starts_with p ''/'')"
proof -
  let ?n = "am_name (mf_agent m)"
  have unit: "(u :: unit) = ()" for u by simp
  have name: "(?n \<noteq> [] \<and> \<not> (CHR ''/'' \<in> set ?n \<or> contains_str ''..'' ?n \<or> CHR 0x00 \<in> set ?n) \<and>
      (\<forall>ch \<in> set ?n. name_char ch)) \<longleftrightarrow> valid_name ?n"
    using valid_name_clean by (auto simp: valid_name_def)
  show ?thesis
    unfolding name [symmetric] validate_def Let_def
    by (auto simp: res_bind_eq_Inr validate_domains_iff validate_paths_iff)
qed

lemma validate_cases: "validate m = Inr () \<or> (\<exists>e. validate m = Inl e)"
  by (cases "validate m") auto

lemma parse_manifest_Inr:
  "parse_manifest toml err content = Inr m \<longleftrightarrow>
     (\<exists>v. toml content = Inr v \<and> de_manifest v = Some m \<and> validate m = Inr ())"
  by (auto simp: parse_manifest_def res_bind_eq_Inr split: sum.splits option.splits)

section \<open>Properties\<close>

definition sample_manifest :: "string \<Rightarrow> string list \<Rightarrow> agent_manifest" where
  "sample_manifest n paths =
     \<lparr>mf_agent = \<lparr>am_name = n, am_version = default_version, am_runtime = Binary\<rparr>,
      mf_capabilities = default_capabilities\<lparr>cp_filesystem := \<lparr>fc_read = paths, fc_write = []\<rparr>\<rparr>,
      mf_tools = []\<rparr>"


text \<open>A path that climbs out of the agent's directory passes the validation.\<close>

lemma dotdot_path_accepted: "validate (sample_manifest ''a'' [''/../../etc'']) = Inr ()"
  by (simp add: validate_iff sample_manifest_def default_capabilities_def default_cpu_def default_memory_def
      valid_name_def name_char_def is_ascii_alphanumeric_def byte_def starts_with_def)

section \<open>Serialization\<close>

text \<open>
  The derived \<open>Serialize\<close> of the manifest, which the daemon uses to hand it to the process of a VM. The
  map of tools is printed in its iteration order \<open>it\<close>.
\<close>

fun show_runtime :: "runtime \<Rightarrow> string" where
  "show_runtime Binary = ''binary''"
| "show_runtime Python = ''python''"

fun show_risk :: "risk_level \<Rightarrow> string" where
  "show_risk Low = ''low''"
| "show_risk Medium = ''medium''"
| "show_risk High = ''high''"
| "show_risk Critical = ''critical''"

definition health_json :: "health_check \<Rightarrow> json" where
  "health_json h =
     JObj [(''port'', JNum (uint (hc_port h))), (''path'', JStr (hc_path h)),
           (''interval_secs'', JNum (uint (hc_interval_secs h))), (''max_failures'', JNum (uint (hc_max_failures h)))]"

definition capabilities_json :: "capabilities \<Rightarrow> json" where
  "capabilities_json c =
     JObj [(''network'', JObj [(''allow'', strs (nc_allow (cp_network c)))]),
           (''filesystem'', JObj [(''read'', strs (fc_read (cp_filesystem c))), (''write'', strs (fc_write (cp_filesystem c)))]),
           (''shell'', JBool (cp_shell c)), (''credential_refs'', strs (cp_credential_refs c)),
           (''accelerator'', JStr (cp_accelerator c)), (''max_cpu_percent'', JNum (uint (cp_max_cpu_percent c))),
           (''max_memory_mb'', JNum (uint (cp_max_memory_mb c))),
           (''max_api_calls_per_hour'', JNum (uint (cp_max_api_calls_per_hour c))),
           (''health_check'', (case cp_health_check c of None \<Rightarrow> JNull | Some h \<Rightarrow> health_json h))]"

definition manifest_json ::
    "((string \<times> risk_level) list \<Rightarrow> (string \<times> risk_level) list) \<Rightarrow> agent_manifest \<Rightarrow> json" where
  "manifest_json it m =
     JObj [(''agent'', JObj [(''name'', JStr (am_name (mf_agent m))), (''version'', JStr (am_version (mf_agent m))),
              (''runtime'', JStr (show_runtime (am_runtime (mf_agent m))))]),
           (''capabilities'', capabilities_json (mf_capabilities m)),
           (''tools'', JObj (map (\<lambda>(k, r). (k, JObj [(''risk'', JStr (show_risk r))])) (it (mf_tools m))))]"

lemma de_runtime_show: "de_runtime (JStr (show_runtime r)) = Some r"
  by (cases r) (simp_all add: de_runtime_def)

lemma de_risk_show: "de_risk (JStr (show_risk r)) = Some r"
  by (cases r) (simp_all add: de_risk_def)

lemma de_health_json: "de_option de_health_check (case h of None \<Rightarrow> JNull | Some x \<Rightarrow> health_json x) = Some h"
proof (cases h)
  case (Some x)
  have "de_health_check (health_json x) = Some x"
    by (simp add: de_health_check_def health_json_def struct_fields_def required_def defaulted_def)
  with Some show ?thesis by (simp add: de_option_def health_json_def)
qed (simp add: de_option_def)

lemma de_capabilities_json: "de_capabilities (capabilities_json c) = Some c"
proof -
  let ?ms = "case capabilities_json c of JObj ms \<Rightarrow> ms | _ \<Rightarrow> []"
  have f: "struct_fields capability_names (capabilities_json c) = Some (map_of ?ms)"
    by (simp add: struct_fields_def capabilities_json_def capability_names_def)
  have n: "de_network (JObj [(''allow'', strs xs)]) = Some \<lparr>nc_allow = xs\<rparr>" for xs
    by (simp add: de_network_def struct_fields_def defaulted_def)
  have fs: "de_filesystem (JObj [(''read'', strs xs), (''write'', strs ys)]) = Some \<lparr>fc_read = xs, fc_write = ys\<rparr>" for xs ys
    by (simp add: de_filesystem_def struct_fields_def defaulted_def)
  show ?thesis
    unfolding de_capabilities_def f
    by (simp add: capabilities_json_def defaulted_def n fs de_health_json)
qed

lemma de_tools_json:
  assumes "hm_ok ts"
  shows "de_tools (JObj (map (\<lambda>(k, r). (k, JObj [(''risk'', JStr (show_risk r))])) ts)) = Some ts"
proof -
  have t: "de_tool (JObj [(''risk'', JStr (show_risk r))]) = Some r" for r
    by (simp add: de_tool_def struct_fields_def required_def de_risk_show)
  have "opt_all (map (de_tool \<circ> snd) (map (\<lambda>(k, r). (k, JObj [(''risk'', JStr (show_risk r))])) ts)) = Some (map snd ts)"
    using t by (induction ts) auto
  moreover have "zip (map fst (map (\<lambda>(k, r). (k, JObj [(''risk'', JStr (show_risk r))])) ts)) (map snd ts) = ts"
    by (induction ts) auto
  moreover have "fold (\<lambda>(k, r) m. AList.update k r m) ts [] = ts"
    using fold_update_append [of "[]" ts] assms by (simp add: hm_ok_def case_prod_beta')
  ultimately show ?thesis by (simp only: de_tools_def json.case option.map)
qed

lemma de_manifest_json:
  assumes "hm_ok (mf_tools m)" and "is_iter it"
  shows "de_manifest (manifest_json it m) = Some (m\<lparr>mf_tools := it (mf_tools m)\<rparr>)"
proof -
  let ?ms = "case manifest_json it m of JObj ms \<Rightarrow> ms | _ \<Rightarrow> []"
  have f: "struct_fields [''agent'', ''capabilities'', ''tools''] (manifest_json it m) = Some (map_of ?ms)"
    by (simp add: struct_fields_def manifest_json_def)
  have a: "de_agent_meta (JObj [(''name'', JStr n), (''version'', JStr v), (''runtime'', JStr (show_runtime r))]) =
      Some \<lparr>am_name = n, am_version = v, am_runtime = r\<rparr>" for n v r
    by (simp add: de_agent_meta_def struct_fields_def required_def defaulted_def de_runtime_show)
  show ?thesis
    unfolding de_manifest_def f
    by (simp add: manifest_json_def required_def defaulted_def a de_capabilities_json de_tools_json
        hm_ok_iter [OF assms(2,1)])
qed

end
