(* ===== verification/Seccomp.thy ===== *)
theory Seccomp
  imports Manifest
begin

text \<open>
  Model of \<open>pkg/cage/src/seccomp.rs\<close>: the system call profile of an agent and the BPF program that
  enforces it. The numbers of the system calls are the libc crate's, a parameter by name. A reference
  interpreter of the classic BPF instructions gives the program its meaning.
\<close>

section \<open>Instructions\<close>

record sock_filter =
  sf_code :: u16
  sf_jt :: u8
  sf_jf :: u8
  sf_k :: u32

datatype seccomp_error = NoNewPrivs int | SetSeccomp int | TooManySyscalls nat

definition BPF_LD :: u16 where "BPF_LD = 0x00"
definition BPF_W :: u16 where "BPF_W = 0x00"
definition BPF_ABS :: u16 where "BPF_ABS = 0x20"
definition BPF_JMP :: u16 where "BPF_JMP = 0x05"
definition BPF_JEQ :: u16 where "BPF_JEQ = 0x10"
definition BPF_RET :: u16 where "BPF_RET = 0x06"
definition BPF_K :: u16 where "BPF_K = 0x00"

definition SECCOMP_RET_ALLOW :: u32 where "SECCOMP_RET_ALLOW = 0x7fff0000"
definition SECCOMP_RET_LOG :: u32 where "SECCOMP_RET_LOG = 0x7ffc0000"
definition SECCOMP_RET_KILL_PROCESS :: u32 where "SECCOMP_RET_KILL_PROCESS = 0x80000000"
definition SECCOMP_DATA_NR_OFFSET :: u32 where "SECCOMP_DATA_NR_OFFSET = 0"

definition bpf_stmt :: "u16 \<Rightarrow> u32 \<Rightarrow> sock_filter" where
  "bpf_stmt code k = \<lparr>sf_code = code, sf_jt = 0, sf_jf = 0, sf_k = k\<rparr>"

definition bpf_jump :: "u16 \<Rightarrow> u32 \<Rightarrow> u8 \<Rightarrow> u8 \<Rightarrow> sock_filter" where
  "bpf_jump code k jt jf = \<lparr>sf_code = code, sf_jt = jt, sf_jf = jf, sf_k = k\<rparr>"

section \<open>Profiles\<close>

definition VMM_BASE :: "string list" where
  "VMM_BASE =
     [''read'', ''write'', ''close'', ''mmap'', ''mprotect'', ''munmap'', ''brk'', ''ioctl'', ''openat'',
      ''newfstatat'', ''lseek'', ''pread64'', ''pwrite64'', ''readv'', ''writev'', ''access'', ''pipe2'',
      ''select'', ''poll'', ''epoll_create1'', ''epoll_ctl'', ''epoll_wait'', ''clock_gettime'',
      ''clock_getres'', ''nanosleep'', ''futex'', ''exit_group'', ''exit'', ''rt_sigaction'',
      ''rt_sigprocmask'', ''rt_sigreturn'', ''sigaltstack'', ''arch_prctl'', ''set_tid_address'',
      ''set_robust_list'', ''prlimit64'', ''getrandom'', ''eventfd2'', ''timerfd_create'',
      ''timerfd_settime'', ''sched_yield'', ''sched_getaffinity'', ''clone3'', ''wait4'', ''fcntl'',
      ''getpid'', ''gettid'', ''tgkill'', ''madvise'', ''mremap'', ''ftruncate'', ''dup'', ''dup2'',
      ''dup3'', ''prctl'', ''rseq'', ''capget'', ''capset'', ''statx'', ''getuid'', ''getgid'',
      ''geteuid'', ''getegid'', ''setsid'', ''umask'', ''getcwd'', ''sched_setaffinity'',
      ''clock_nanosleep'', ''ppoll'', ''epoll_pwait'', ''fstatfs'', ''unlinkat'', ''mkdirat'',
      ''renameat2'', ''memfd_create'', ''copy_file_range'', ''preadv'', ''pwritev'', ''preadv2'',
      ''pwritev2'', ''fgetxattr'', ''fsetxattr'', ''flistxattr'', ''fallocate'', ''fchmod'',
      ''fchmodat'', ''fchown'', ''fchownat'', ''linkat'', ''symlinkat'', ''readlinkat'', ''utimensat'']"

definition NETWORK_SYSCALLS :: "string list" where
  "NETWORK_SYSCALLS =
     [''socket'', ''connect'', ''bind'', ''listen'', ''accept4'', ''sendto'', ''recvfrom'', ''sendmsg'',
      ''recvmsg'', ''getsockopt'', ''setsockopt'', ''getpeername'', ''getsockname'', ''shutdown'']"

definition SHELL_SYSCALLS :: "string list" where
  "SHELL_SYSCALLS = [''execve'', ''execveat'', ''fork'', ''vfork'', ''clone'']"

text \<open>A \<open>BTreeSet\<close> of numbers is a sorted list without duplicates.\<close>

type_synonym seccomp_profile = "int list"

definition set_extend :: "seccomp_profile \<Rightarrow> int list \<Rightarrow> seccomp_profile" where
  "set_extend s xs = fold insort_insert xs s"

definition build_profile :: "(string \<Rightarrow> int) \<Rightarrow> agent_manifest \<Rightarrow> seccomp_profile" where
  "build_profile sysno m =
     (let allowed = set_extend [] (map sysno VMM_BASE);
          allowed = (if cp_shell (mf_capabilities m) then set_extend allowed (map sysno SHELL_SYSCALLS) else allowed);
          allowed = (if nc_allow (cp_network (mf_capabilities m)) \<noteq> []
                     then set_extend allowed (map sysno NETWORK_SYSCALLS) else allowed)
      in allowed)"

section \<open>Assembly\<close>

fun jeq_chain :: "u32 list \<Rightarrow> sock_filter list" where
  "jeq_chain [] = []"
| "jeq_chain (nr # nrs) =
     bpf_jump (BPF_JMP OR BPF_JEQ OR BPF_K) nr (of_nat (length nrs + 1)) 0 # jeq_chain nrs"

definition assemble_bpf :: "seccomp_profile \<Rightarrow> bool \<Rightarrow> seccomp_error + sock_filter list" where
  "assemble_bpf profile kill =
     (let syscalls = map of_int profile; n = length syscalls
      in if n > 255 then Inl (TooManySyscalls n)
         else
           Inr ([bpf_stmt (BPF_LD OR BPF_W OR BPF_ABS) SECCOMP_DATA_NR_OFFSET] @ jeq_chain syscalls @
             [bpf_stmt (BPF_RET OR BPF_K) (if kill then SECCOMP_RET_KILL_PROCESS else SECCOMP_RET_LOG),
              bpf_stmt (BPF_RET OR BPF_K) SECCOMP_RET_ALLOW]))"

text \<open>
  The seccomp state of a process: \<open>no_new_privs\<close> and the filters installed. The two \<open>prctl\<close> calls return
  what the kernel says, zero for success.
\<close>

record sandbox_state =
  no_new_privs :: bool
  filters :: "sock_filter list list"

definition seccomp_apply ::
    "(nat \<Rightarrow> int) \<Rightarrow> seccomp_profile \<Rightarrow> bool \<Rightarrow> sandbox_state \<Rightarrow> (seccomp_error + unit) \<times> sandbox_state" where
  "seccomp_apply prctl profile kill s =
     (case assemble_bpf profile kill of
        Inl e \<Rightarrow> (Inl e, s)
      | Inr prog \<Rightarrow>
          (if prctl 0 \<noteq> 0 then (Inl (NoNewPrivs (prctl 0)), s)
           else
             (let s1 = s\<lparr>no_new_privs := True\<rparr>;
                  len = (of_nat (length prog) :: u16)
              in if prctl 1 \<noteq> 0 then (Inl (SetSeccomp (prctl 1)), s1)
                 else (Inr (), s1\<lparr>filters := take (unat len) prog # filters s1\<rparr>))))"

definition show_seccomp_error :: "seccomp_error \<Rightarrow> string" where
  "show_seccomp_error e =
     (case e of
        NoNewPrivs r \<Rightarrow> ''prctl(PR_SET_NO_NEW_PRIVS) failed: '' @ show_int r
      | SetSeccomp r \<Rightarrow> ''prctl(PR_SET_SECCOMP) failed: '' @ show_int r
      | TooManySyscalls n \<Rightarrow>
          ''too many allowed syscalls for BPF program ('' @ show_nat n @ '', max 255)'')"

section \<open>Meaning of a program\<close>

text \<open>
  The instructions the programs use, on the accumulator; \<open>data\<close> is the seccomp data by offset. \<open>None\<close>
  stands for a program that runs off its end or has another instruction, which the kernel rejects.
\<close>

function bpf_run :: "(u32 \<Rightarrow> u32) \<Rightarrow> sock_filter list \<Rightarrow> u32 \<Rightarrow> u32 option" where
  "bpf_run data [] a = None"
| "bpf_run data (i # is) a =
     (if sf_code i = BPF_LD OR BPF_W OR BPF_ABS then bpf_run data is (data (sf_k i))
      else if sf_code i = BPF_JMP OR BPF_JEQ OR BPF_K then
        bpf_run data (drop (unat (if a = sf_k i then sf_jt i else sf_jf i)) is) a
      else if sf_code i = BPF_RET OR BPF_K then Some (sf_k i)
      else None)"
  by pat_completeness auto
termination
  by (relation "measure (\<lambda>(data, is, a). length is)") auto

section \<open>Lemmas\<close>

lemma set_extend_set [simp]: "set (set_extend s xs) = set s \<union> set xs"
  by (induction xs arbitrary: s) (auto simp: set_extend_def set_insort_insert)

lemma extend_sorted: "sorted s \<and> distinct s \<Longrightarrow> sorted (set_extend s xs) \<and> distinct (set_extend s xs)"
  by (induction xs arbitrary: s) (simp_all add: set_extend_def sorted_insort_insert distinct_insort_insert)

lemma profile_set:
  "set (build_profile sysno m) = sysno ` set (VMM_BASE @
     (if cp_shell (mf_capabilities m) then SHELL_SYSCALLS else []) @
     (if nc_allow (cp_network (mf_capabilities m)) \<noteq> [] then NETWORK_SYSCALLS else []))"
  by (auto simp: build_profile_def Let_def)

lemma profile_sorted: "sorted (build_profile sysno m) \<and> distinct (build_profile sysno m)"
  by (simp add: build_profile_def Let_def extend_sorted)

lemma profile_length: "length (build_profile sysno m) \<le> 111"
proof -
  have "length (build_profile sysno m) = card (set (build_profile sysno m))"
    using profile_sorted by (simp add: distinct_card)
  also have "\<dots> \<le> length (VMM_BASE @ (if cp_shell (mf_capabilities m) then SHELL_SYSCALLS else []) @
     (if nc_allow (cp_network (mf_capabilities m)) \<noteq> [] then NETWORK_SYSCALLS else []))"
    unfolding profile_set by (meson List.finite_set card_image_le card_length le_trans)
  also have "\<dots> \<le> 111"
    by (simp add: VMM_BASE_def SHELL_SYSCALLS_def NETWORK_SYSCALLS_def)
  finally show ?thesis .
qed

lemma codes:
  "BPF_LD OR BPF_W OR BPF_ABS = 0x20" "BPF_JMP OR BPF_JEQ OR BPF_K = 0x15" "BPF_RET OR BPF_K = 0x06"
  by (simp_all add: BPF_LD_def BPF_W_def BPF_ABS_def BPF_JMP_def BPF_JEQ_def BPF_K_def BPF_RET_def)

lemma bpf_stmt_simps [simp]:
  "sf_code (bpf_stmt c k) = c" "sf_k (bpf_stmt c k) = k"
  "sf_code (bpf_jump c k t f) = c" "sf_k (bpf_jump c k t f) = k"
  "sf_jt (bpf_jump c k t f) = t" "sf_jf (bpf_jump c k t f) = f"
  by (simp_all add: bpf_stmt_def bpf_jump_def)

lemma length_jeq_chain [simp]: "length (jeq_chain nrs) = length nrs"
  by (induction nrs) simp_all

text \<open>A match jumps over the rest of the chain and the default; the distance always fits a byte.\<close>

lemma bpf_run_chain:
  "length nrs \<le> 255 \<Longrightarrow>
     bpf_run data (jeq_chain nrs @ [bpf_stmt (BPF_RET OR BPF_K) d, bpf_stmt (BPF_RET OR BPF_K) y]) a =
     Some (if a \<in> set nrs then y else d)"
proof (induction nrs)
  case Nil
  show ?case by (simp add: codes)
next
  case (Cons nr nrs)
  have u: "unat (of_nat (length nrs + 1) :: u8) = length nrs + 1"
    using Cons.prems by (intro unat_of_nat_small) simp
  show ?case
  proof (cases "a = nr")
    case True
    have "drop (length nrs + 1) (jeq_chain nrs @ [bpf_stmt 6 d, bpf_stmt 6 y]) = [bpf_stmt 6 y]"
      by simp
    then show ?thesis using True u by (simp add: codes)
  next
    case False
    with Cons show ?thesis by (simp add: codes)
  qed
qed

lemma assemble_cases:
  "assemble_bpf profile kill =
     (if 255 < length profile then Inl (TooManySyscalls (length profile))
      else Inr (bpf_stmt 0x20 0 # jeq_chain (map of_int profile) @
        [bpf_stmt (BPF_RET OR BPF_K) (if kill then SECCOMP_RET_KILL_PROCESS else SECCOMP_RET_LOG),
         bpf_stmt (BPF_RET OR BPF_K) SECCOMP_RET_ALLOW]))"
  by (simp add: assemble_bpf_def codes SECCOMP_DATA_NR_OFFSET_def Let_def)

lemma bpf_run_assembled:
  assumes "assemble_bpf profile kill = Inr prog"
  shows "bpf_run data prog a = Some (if data 0 \<in> of_int ` set profile then SECCOMP_RET_ALLOW
    else if kill then SECCOMP_RET_KILL_PROCESS else SECCOMP_RET_LOG)"
proof -
  have l: "length (map of_int profile :: u32 list) \<le> 255"
    and p: "prog = bpf_stmt 0x20 0 # jeq_chain (map of_int profile) @
        [bpf_stmt (BPF_RET OR BPF_K) (if kill then SECCOMP_RET_KILL_PROCESS else SECCOMP_RET_LOG),
         bpf_stmt (BPF_RET OR BPF_K) SECCOMP_RET_ALLOW]"
    using assms by (auto simp: assemble_cases split: if_splits)
  have "bpf_run data prog a = bpf_run data (jeq_chain (map of_int profile) @
        [bpf_stmt (BPF_RET OR BPF_K) (if kill then SECCOMP_RET_KILL_PROCESS else SECCOMP_RET_LOG),
         bpf_stmt (BPF_RET OR BPF_K) SECCOMP_RET_ALLOW]) (data 0)"
    unfolding p by (subst bpf_run.simps) (simp only: bpf_stmt_simps codes if_True refl)
  also have "\<dots> = Some (if data 0 \<in> set (map of_int profile) then SECCOMP_RET_ALLOW
    else if kill then SECCOMP_RET_KILL_PROCESS else SECCOMP_RET_LOG)"
    by (rule bpf_run_chain [OF l])
  finally show ?thesis by simp
qed

section \<open>Properties\<close>

text \<open>
  C29: the assembled filter decides exactly the profile. For every profile that fits (at most 255
  numbers) and every system call, running the BPF program on the seccomp data returns ALLOW if the
  number, at 32 bits, is one of the profile's, and otherwise KILL or, in audit mode, LOG: every jump
  offset fits its byte and lands on the ALLOW instruction, the program never runs off its end. A larger
  profile is refused with its size.
\<close>

theorem bpf_filter_correct:
  "(case assemble_bpf profile kill of
      Inl e \<Rightarrow> e = TooManySyscalls (length profile) \<and> 255 < length profile
    | Inr prog \<Rightarrow> length prog = length profile + 3 \<and>
        (\<forall>data a. bpf_run data prog a =
           Some (if data 0 \<in> of_int ` set profile then SECCOMP_RET_ALLOW
                 else if kill then SECCOMP_RET_KILL_PROCESS else SECCOMP_RET_LOG)))"
proof (cases "assemble_bpf profile kill")
  case (Inl e)
  then show ?thesis by (auto simp: assemble_cases split: if_splits)
next
  case (Inr prog)
  have "length prog = length profile + 3" using Inr by (auto simp: assemble_cases split: if_splits)
  with Inr bpf_run_assembled [OF Inr] show ?thesis by simp
qed


text \<open>The x86_64 numbers of the names, in the order of the lists.\<close>

definition x86_64_numbers :: "int list" where
  "x86_64_numbers =
     [0, 1, 3, 9, 10, 11, 12, 16, 257, 262, 8, 17, 18, 19, 20, 21, 293, 23, 7, 291, 233, 232, 228, 229, 35,
      202, 231, 60, 13, 14, 15, 131, 158, 218, 273, 302, 318, 290, 283, 286, 24, 204, 435, 61, 72, 39, 186,
      234, 28, 25, 77, 32, 33, 292, 157, 334, 125, 126, 332, 102, 104, 107, 108, 112, 95, 79, 203, 230, 271,
      281, 138, 263, 258, 316, 319, 326, 295, 296, 327, 328, 193, 190, 196, 285, 91, 268, 93, 260, 265, 266,
      267, 280,
      41, 42, 49, 50, 288, 44, 45, 46, 47, 55, 54, 52, 51, 48,
      59, 322, 57, 58, 56]"

definition x86_64_sysno :: "string \<Rightarrow> int" where
  "x86_64_sysno s = the (map_of (zip (VMM_BASE @ NETWORK_SYSCALLS @ SHELL_SYSCALLS) x86_64_numbers) s)"

lemma map_lookup_zip:
  "distinct xs \<Longrightarrow> length xs = length ys \<Longrightarrow> map (\<lambda>s. the (map_of (zip xs ys) s)) xs = ys"
  by (rule nth_equalityI) (simp_all add: map_of_zip_nth)

lemma x86_64_inj: "inj_on x86_64_sysno (set (VMM_BASE @ NETWORK_SYSCALLS @ SHELL_SYSCALLS))"
proof -
  let ?names = "VMM_BASE @ NETWORK_SYSCALLS @ SHELL_SYSCALLS"
  have d: "distinct ?names"
    unfolding VMM_BASE_def NETWORK_SYSCALLS_def SHELL_SYSCALLS_def by code_simp
  have l: "length ?names = length x86_64_numbers"
    by (simp add: VMM_BASE_def NETWORK_SYSCALLS_def SHELL_SYSCALLS_def x86_64_numbers_def)
  have "map x86_64_sysno ?names = x86_64_numbers"
    unfolding x86_64_sysno_def using map_lookup_zip [OF d l] .
  moreover have "distinct x86_64_numbers" unfolding x86_64_numbers_def by code_simp
  ultimately show ?thesis by (metis distinct_map)
qed


end
