(* ===== verification/Entry.thy ===== *)
theory Entry
  imports Json "HOL-Library.List_Lexorder" "HOL-Library.Char_ord"
begin

text \<open>
  Model of \<open>pkg/ctxgraph/src/entry.rs\<close>: entries and the content address of an entry, the SHA-256 digest
  of its agent, key and canonical value, framed by NUL bytes. The digest and the JSON printer are
  parameters. The lemmas show for which entries the framing is injective, and that it is not for all.
\<close>

record entry =
  en_hash :: string
  en_agent :: string
  en_key :: string
  en_value :: json
  en_time :: int

text \<open>The members of the top-level object are sorted by key; nested objects stay as they are.\<close>

fun sort_members :: "json \<Rightarrow> json" where
  "sort_members (JObj ms) = JObj (sort_key fst ms)"
| "sort_members v = v"

definition canonical_json :: "(json \<Rightarrow> string + string) \<Rightarrow> json \<Rightarrow> string" where
  "canonical_json pr v = (case pr (sort_members v) of Inl _ \<Rightarrow> [] | Inr s \<Rightarrow> s)"

definition framed :: "(json \<Rightarrow> string + string) \<Rightarrow> string \<Rightarrow> string \<Rightarrow> json \<Rightarrow> string" where
  "framed pr a k v = a @ [CHR 0x00] @ k @ [CHR 0x00] @ canonical_json pr v"

definition hex_digit :: "nat \<Rightarrow> char" where
  "hex_digit d = (if d < 10 then char_of (48 + d) else char_of (87 + d))"

definition hex_byte :: "char \<Rightarrow> string" where
  "hex_byte c = [hex_digit (byte c div 16), hex_digit (byte c mod 16)]"

definition hex :: "string \<Rightarrow> string" where
  "hex s = concat (map hex_byte s)"

definition compute_hash ::
    "(string \<Rightarrow> string) \<Rightarrow> (json \<Rightarrow> string + string) \<Rightarrow> string \<Rightarrow> string \<Rightarrow> json \<Rightarrow> string" where
  "compute_hash sha pr a k v = hex (sha (framed pr a k v))"

section \<open>Lemmas\<close>

lemma byte_less [simp]: "byte c < 256"
  by (simp add: byte_def)

lemma byte_inject [simp]: "byte c = byte d \<longleftrightarrow> c = d"
  by (simp add: byte_def)

lemma of_char_hex_digit:
  "d < 16 \<Longrightarrow> (of_char (hex_digit d) :: nat) = (if d < 10 then 48 + d else 87 + d)"
  by (simp add: hex_digit_def)

lemma hex_digit_inject:
  assumes "m < 16" "n < 16"
  shows "hex_digit m = hex_digit n \<longleftrightarrow> m = n"
proof
  assume "hex_digit m = hex_digit n"
  then have "(of_char (hex_digit m) :: nat) = of_char (hex_digit n)" by (rule arg_cong)
  with assms show "m = n" by (simp add: of_char_hex_digit split: if_splits)
qed simp

lemma hex_length [simp]: "length (hex s) = 2 * length s"
  by (induction s) (simp_all add: hex_def hex_byte_def)

lemma hex_byte_inject [simp]: "hex_byte c = hex_byte d \<longleftrightarrow> c = d"
proof
  assume "hex_byte c = hex_byte d"
  moreover have "byte c div 16 < 16" "byte d div 16 < 16"
    using byte_less [of c] byte_less [of d] by linarith+
  ultimately have "byte c div 16 = byte d div 16" "byte c mod 16 = byte d mod 16"
    by (simp_all add: hex_byte_def hex_digit_inject)
  then have "byte c = byte d" by (metis div_mult_mod_eq)
  then show "c = d" by simp
qed simp

lemma hex_inject [simp]: "hex s = hex t \<longleftrightarrow> s = t"
proof (induction s arbitrary: t)
  case Nil
  then show ?case by (cases t) (simp_all add: hex_def hex_byte_def)
next
  case (Cons c s)
  show ?case
  proof (cases t)
    case Nil
    then show ?thesis by (simp add: hex_def hex_byte_def)
  next
    case t: (Cons d t')
    have "hex (x # xs) = hex_byte x @ hex xs" for x xs by (simp add: hex_def)
    moreover have "length (hex_byte c) = length (hex_byte d)" by (simp add: hex_byte_def)
    ultimately show ?thesis using t Cons.IH by simp
  qed
qed

lemma sep_inject:
  "z \<notin> set a \<Longrightarrow> z \<notin> set b \<Longrightarrow> a @ z # x = b @ z # y \<longleftrightarrow> a = b \<and> x = y"
proof (induction a arbitrary: b)
  case Nil
  then show ?case by (cases b) auto
next
  case (Cons c a)
  then show ?case by (cases b) auto
qed

definition nul_free :: "string \<Rightarrow> bool" where
  "nul_free s \<longleftrightarrow> CHR 0x00 \<notin> set s"

lemma framed_inject:
  assumes "nul_free a" "nul_free b" "nul_free k" "nul_free l"
  shows "framed pr a k v = framed pr b l w \<longleftrightarrow> a = b \<and> k = l \<and> canonical_json pr v = canonical_json pr w"
  using assms by (simp add: framed_def nul_free_def sep_inject)

text \<open>
  The printer is one-to-one on the values that occur (\<open>W\<close>): what it prints parses back.
\<close>

definition prints :: "(json \<Rightarrow> string + string) \<Rightarrow> (string \<Rightarrow> string + json) \<Rightarrow> json \<Rightarrow> bool" where
  "prints pr parse v \<longleftrightarrow> (\<exists>t. pr v = Inr t \<and> parse t = Inr v)"

lemma canonical_inject:
  "prints pr parse (sort_members v) \<Longrightarrow> prints pr parse (sort_members w) \<Longrightarrow>
     canonical_json pr v = canonical_json pr w \<longleftrightarrow> sort_members v = sort_members w"
  by (auto simp: prints_def canonical_json_def)

lemma sort_members_idem [simp]: "sort_members (sort_members v) = sort_members v"
  by (cases v) (simp_all add: sort_key_id_if_sorted)

text \<open>A map that serde_json itself keeps (a B-tree) is sorted, and then this is the value itself.\<close>

lemma sort_members_sorted: "sorted (map fst ms) \<Longrightarrow> sort_members (JObj ms) = JObj ms"
  by (simp add: sort_key_id_if_sorted)

section \<open>Properties\<close>

text \<open>
  C31: the content address identifies the entry. For agents and keys without NUL bytes, if the digest
  does not collide on the two framed entries and the printer is one-to-one on their values, two entries
  have the same hash exactly if agent, key and value (up to the order of top-level members) agree.
\<close>

theorem hash_identifies_entry:
  assumes "nul_free a" "nul_free b" "nul_free k" "nul_free l"
    and "sha (framed pr a k v) = sha (framed pr b l w) \<Longrightarrow> framed pr a k v = framed pr b l w"
    and "prints pr parse (sort_members v)" "prints pr parse (sort_members w)"
  shows "compute_hash sha pr a k v = compute_hash sha pr b l w \<longleftrightarrow>
    a = b \<and> k = l \<and> sort_members v = sort_members w"
  using framed_inject [OF assms(1-4), of pr v w] canonical_inject [OF assms(6,7)] assms(5)
  by (auto simp: compute_hash_def)

definition sample_print :: "json \<Rightarrow> string + string" where
  "sample_print v = (case v of JStr s \<Rightarrow> Inr (CHR 34 # s @ [CHR 34]) | _ \<Rightarrow> Inr ''null'')"

definition sample_parse :: "string \<Rightarrow> string + json" where
  "sample_parse t = (if t = ''null'' then Inr JNull else Inr (JStr (butlast (tl t))))"

theorem hash_identifies_entry_witness:
  "compute_hash (\<lambda>s. s) sample_print ''researcher'' ''notes'' (JStr ''x'') \<noteq>
     compute_hash (\<lambda>s. s) sample_print ''research'' ''ernotes'' (JStr ''x'')"
  using hash_identifies_entry [of "''researcher''" "''research''" "''notes''" "''ernotes''" "\<lambda>s. s"
      sample_print "JStr ''x''" "JStr ''x''" sample_parse]
  by (simp add: nul_free_def prints_def sample_print_def sample_parse_def)

text \<open>With NUL bytes in the key, which JSON strings may have, two different entries share an address.\<close>

lemma nul_bytes_collide:
  "compute_hash sha pr (a @ CHR 0x00 # b) c v = compute_hash sha pr a (b @ CHR 0x00 # c) v"
  by (simp add: compute_hash_def framed_def)

end
