(* ===== verification/Store.thy ===== *)
theory Store
  imports Entry
begin

text \<open>
  Model of \<open>pkg/ctxgraph/src/store.rs\<close> and of \<open>query.rs\<close>, which delegates to it: the table of entries,
  the SQL statements that the store runs on it, and the errors. Parameters are the digest, the JSON
  printer and parser, the clock, an oracle for the failures of SQLite, and the order that it gives
  rows that \<open>ORDER BY timestamp DESC\<close> does not tell apart. The lemmas show that the table is
  content-addressed and append-only and which rows a query finds.
\<close>

section \<open>The table\<close>

record row =
  r_hash :: string
  r_agent :: string
  r_key :: string
  r_value :: string
  r_time :: int

record store =
  st_rows :: "row list"
  st_calls :: nat

record db_env =
  dv_sha :: "string \<Rightarrow> string"
  dv_print :: "json \<Rightarrow> string + string"
  dv_parse :: "string \<Rightarrow> string + json"
  dv_clock :: "nat \<Rightarrow> int"
  dv_sql :: "nat \<Rightarrow> string option"
  dv_order :: "row list \<Rightarrow> row list"

datatype store_error = Sqlite string | Serialization string

fun show_store_error :: "store_error \<Rightarrow> string" where
  "show_store_error (Sqlite e) = ''sqlite error: '' @ e"
| "show_store_error (Serialization e) = ''serialization error: '' @ e"

text \<open>\<open>PRIMARY KEY\<close> with \<open>INSERT OR IGNORE\<close>: a row whose hash is there already is not inserted.\<close>

definition insert_or_ignore :: "row \<Rightarrow> row list \<Rightarrow> row list" where
  "insert_or_ignore r rs = (if r_hash r \<in> set (map r_hash rs) then rs else rs @ [r])"

text \<open>A statement either fails or runs; every call of SQLite consults the oracle.\<close>

definition sql :: "db_env \<Rightarrow> store \<Rightarrow> store_error option \<times> store" where
  "sql env s = (map_option Sqlite (dv_sql env (st_calls s)), s\<lparr>st_calls := st_calls s + 1\<rparr>)"

section \<open>LIKE\<close>

text \<open>
  SQLite's \<open>LIKE\<close> with the escape character backslash: \<open>%\<close> matches any characters, \<open>_\<close> one character,
  letters match without regard to ASCII case, and both operands end at their first NUL byte.
\<close>

definition c_str :: "string \<Rightarrow> string" where
  "c_str s = takeWhile (\<lambda>c. c \<noteq> CHR 0x00) s"

definition lower :: "char \<Rightarrow> char" where
  "lower c = (if 65 \<le> byte c \<and> byte c \<le> 90 then char_of (byte c + 32) else c)"

function (sequential) like :: "string \<Rightarrow> string \<Rightarrow> bool" where
  "like [] s = (s = [])"
| "like (p # ps) s =
     (if p = CHR 37 then
        like ps s \<or> (case s of [] \<Rightarrow> False | c # cs \<Rightarrow> like (p # ps) (dropWhile cont cs))
      else if p = CHR 95 then (case s of [] \<Rightarrow> False | c # cs \<Rightarrow> like ps (dropWhile cont cs))
      else if p = CHR 92 then
        (case ps of [] \<Rightarrow> False | q # qs \<Rightarrow> (case s of [] \<Rightarrow> False | c # cs \<Rightarrow> lower c = lower q \<and> like qs cs))
      else (case s of [] \<Rightarrow> False | c # cs \<Rightarrow> lower c = lower p \<and> like ps cs))"
  by pat_completeness auto
termination
  by (relation "measure (\<lambda>(p, s). length p + length s)")
    (auto simp: less_Suc_eq_le length_dropWhile_le intro: le_SucI)

definition sql_like :: "string \<Rightarrow> string \<Rightarrow> bool" where
  "sql_like pat s = like (c_str pat) (c_str s)"

section \<open>Operations\<close>

text \<open>\<open>as_secs() as i64\<close> of the time since the epoch, zero for a clock before it.\<close>

definition current_timestamp :: "db_env \<Rightarrow> store \<Rightarrow> int" where
  "current_timestamp env s =
     (let ns = dv_clock env (st_calls s)
      in sint (word_of_int (if ns < 0 then 0 else ns div 1000000000) :: 64 word))"

definition entry_of_row :: "db_env \<Rightarrow> row \<Rightarrow> entry" where
  "entry_of_row env r =
     \<lparr>en_hash = r_hash r, en_agent = r_agent r, en_key = r_key r,
      en_value = (case dv_parse env (r_value r) of Inl _ \<Rightarrow> JNull | Inr v \<Rightarrow> v), en_time = r_time r\<rparr>"

text \<open>\<open>open\<close> on a database file that holds \<open>rs\<close>: the connection, then the schema.\<close>

definition store_open :: "db_env \<Rightarrow> row list \<Rightarrow> store_error + store" where
  "store_open env rs =
     (case sql env \<lparr>st_rows = rs, st_calls = 0\<rparr> of
        (Some e, _) \<Rightarrow> Inl e
      | (None, s1) \<Rightarrow> (case sql env s1 of (Some e, _) \<Rightarrow> Inl e | (None, s2) \<Rightarrow> Inr s2))"

definition store_write :: "db_env \<Rightarrow> string \<Rightarrow> string \<Rightarrow> json \<Rightarrow> store \<Rightarrow> (store_error + string) \<times> store" where
  "store_write env a k v s =
     (let h = compute_hash (dv_sha env) (dv_print env) a k v;
          ts = current_timestamp env s
      in case dv_print env v of
           Inl e \<Rightarrow> (Inl (Serialization e), s)
         | Inr t \<Rightarrow>
             (case sql env s of
                (Some e, s1) \<Rightarrow> (Inl e, s1)
              | (None, s1) \<Rightarrow>
                  (Inr h, s1\<lparr>st_rows := insert_or_ignore
                     \<lparr>r_hash = h, r_agent = a, r_key = k, r_value = t, r_time = ts\<rparr> (st_rows s1)\<rparr>)))"

text \<open>\<open>prepare\<close>, then \<open>query_row\<close> with \<open>optional\<close>.\<close>

definition store_read :: "db_env \<Rightarrow> string \<Rightarrow> store \<Rightarrow> (store_error + entry option) \<times> store" where
  "store_read env h s =
     (case sql env s of
        (Some e, s1) \<Rightarrow> (Inl e, s1)
      | (None, s1) \<Rightarrow>
          (case sql env s1 of
             (Some e, s2) \<Rightarrow> (Inl e, s2)
           | (None, s2) \<Rightarrow>
               (Inr (case filter (\<lambda>r. r_hash r = h) (st_rows s2) of
                       [] \<Rightarrow> None | r # _ \<Rightarrow> Some (entry_of_row env r)), s2)))"

text \<open>\<open>prepare\<close>, \<open>query_map\<close> and \<open>collect\<close> over the rows of a \<open>WHERE\<close> clause, latest first.\<close>

definition select_desc :: "db_env \<Rightarrow> (row \<Rightarrow> bool) \<Rightarrow> store \<Rightarrow> (store_error + entry list) \<times> store" where
  "select_desc env P s =
     (case sql env s of
        (Some e, s1) \<Rightarrow> (Inl e, s1)
      | (None, s1) \<Rightarrow>
          (case sql env s1 of
             (Some e, s2) \<Rightarrow> (Inl e, s2)
           | (None, s2) \<Rightarrow>
               (case sql env s2 of
                  (Some e, s3) \<Rightarrow> (Inl e, s3)
                | (None, s3) \<Rightarrow> (Inr (map (entry_of_row env) (dv_order env (filter P (st_rows s3)))), s3))))"

definition replace_char :: "char \<Rightarrow> string \<Rightarrow> string \<Rightarrow> string" where
  "replace_char c t s = concat (map (\<lambda>x. if x = c then t else [x]) s)"

definition prefix_pattern :: "string \<Rightarrow> string" where
  "prefix_pattern p =
     replace_char (CHR 95) [CHR 92, CHR 95] (replace_char (CHR 37) [CHR 92, CHR 37] p) @ ''%''"

definition query_by_prefix :: "db_env \<Rightarrow> string \<Rightarrow> store \<Rightarrow> (store_error + entry list) \<times> store" where
  "query_by_prefix env p = select_desc env (\<lambda>r. sql_like (prefix_pattern p) (r_key r))"

definition store_history :: "db_env \<Rightarrow> string \<Rightarrow> store \<Rightarrow> (store_error + entry list) \<times> store" where
  "store_history env k = select_desc env (\<lambda>r. r_key r = k)"

definition by_agent :: "db_env \<Rightarrow> string \<Rightarrow> store \<Rightarrow> (store_error + entry list) \<times> store" where
  "by_agent env a = select_desc env (\<lambda>r. r_agent r = a)"

section \<open>What LIKE finds\<close>

lemma like_literal:
  "p \<notin> {CHR 37, CHR 95, CHR 92} \<Longrightarrow>
     like (p # ps) (c # cs) \<longleftrightarrow> lower c = lower p \<and> like ps cs"
  "p \<notin> {CHR 37, CHR 95, CHR 92} \<Longrightarrow> \<not> like (p # ps) []"
  by simp_all

lemma like_escaped:
  "like (CHR 92 # p # ps) (c # cs) \<longleftrightarrow> lower c = lower p \<and> like ps cs"
  "\<not> like (CHR 92 # p # ps) []"
  by simp_all

lemma like_all: "like ''%'' s"
proof (induction "length s" arbitrary: s rule: less_induct)
  case less
  show ?case
  proof (cases s)
    case Nil
    then show ?thesis by simp
  next
    case (Cons c cs)
    then have "length (dropWhile cont cs) < length s" by (simp add: less_Suc_eq_le length_dropWhile_le)
    with less [of "dropWhile cont cs"] Cons show ?thesis by (subst like.simps) simp
  qed
qed

lemma prefix_pattern_Nil: "prefix_pattern [] = ''%''"
  by (simp add: prefix_pattern_def replace_char_def)

lemma prefix_pattern_Cons:
  "prefix_pattern (c # cs) =
     (if c = CHR 37 then [CHR 92, CHR 37] else if c = CHR 95 then [CHR 92, CHR 95] else [c]) @ prefix_pattern cs"
  by (simp add: prefix_pattern_def replace_char_def)

text \<open>Prefix up to ASCII case.\<close>

fun prefix_ci :: "string \<Rightarrow> string \<Rightarrow> bool" where
  "prefix_ci [] s = True"
| "prefix_ci (p # ps) [] = False"
| "prefix_ci (p # ps) (c # cs) = (lower c = lower p \<and> prefix_ci ps cs)"

lemma like_prefix_pattern: "CHR 92 \<notin> set p \<Longrightarrow> like (prefix_pattern p) s \<longleftrightarrow> prefix_ci p s"
proof (induction p s rule: prefix_ci.induct)
  case (1 s)
  then show ?case by (simp only: prefix_pattern_Nil like_all prefix_ci.simps)
next
  case (2 p ps)
  then show ?case by (simp add: prefix_pattern_Cons del: like.simps) (auto simp: like_escaped like_literal)
next
  case (3 p ps c cs)
  then show ?case by (simp add: prefix_pattern_Cons del: like.simps) (auto simp: like_escaped like_literal)
qed

lemma prefix_pattern_nul_free: "nul_free p \<Longrightarrow> nul_free (prefix_pattern p)"
  by (auto simp: nul_free_def prefix_pattern_def replace_char_def split: if_splits)

lemma c_str_nul_free [simp]: "nul_free s \<Longrightarrow> c_str s = s"
  by (auto simp: c_str_def nul_free_def takeWhile_eq_all_conv)

lemma prefix_ci_same: "prefix_ci p (p @ s)"
  by (induction p) simp_all

lemma prefix_ci_iff: "prefix_ci p s \<longleftrightarrow> (\<exists>q r. s = q @ r \<and> map lower q = map lower p)"
proof (induction p s rule: prefix_ci.induct)
  case (3 p ps c cs)
  show ?case
  proof
    assume "prefix_ci (p # ps) (c # cs)"
    with 3 obtain q r where "cs = q @ r" "map lower q = map lower ps" "lower c = lower p" by auto
    then have "c # cs = (c # q) @ r \<and> map lower (c # q) = map lower (p # ps)" by simp
    then show "\<exists>q r. c # cs = q @ r \<and> map lower q = map lower (p # ps)" by blast
  next
    assume "\<exists>q r. c # cs = q @ r \<and> map lower q = map lower (p # ps)"
    with 3 show "prefix_ci (p # ps) (c # cs)" by (auto simp: Cons_eq_append_conv)
  qed
qed auto

section \<open>Lemmas\<close>

text \<open>\<open>W\<close> is what is known of the agents, keys and values in the write requests.\<close>

definition rows_ok :: "(string \<Rightarrow> string \<Rightarrow> json \<Rightarrow> bool) \<Rightarrow> db_env \<Rightarrow> row list \<Rightarrow> bool" where
  "rows_ok W env rs \<longleftrightarrow> distinct (map r_hash rs) \<and>
     (\<forall>r \<in> set rs. \<exists>v. W (r_agent r) (r_key r) v \<and> dv_print env v = Inr (r_value r) \<and>
        r_hash r = compute_hash (dv_sha env) (dv_print env) (r_agent r) (r_key r) v)"

text \<open>
  On the entries that \<open>W\<close> allows, agents and keys have no NUL byte, values print and parse back, and
  the digest does not collide.
\<close>

definition faithful :: "(string \<Rightarrow> string \<Rightarrow> json \<Rightarrow> bool) \<Rightarrow> db_env \<Rightarrow> bool" where
  "faithful W env \<longleftrightarrow>
     (\<forall>a k v. W a k v \<longrightarrow> nul_free a \<and> nul_free k \<and> prints (dv_print env) (dv_parse env) v \<and>
        prints (dv_print env) (dv_parse env) (sort_members v)) \<and>
     (\<forall>a k v b l w. W a k v \<longrightarrow> W b l w \<longrightarrow>
        dv_sha env (framed (dv_print env) a k v) = dv_sha env (framed (dv_print env) b l w) \<longrightarrow>
        framed (dv_print env) a k v = framed (dv_print env) b l w)"

definition is_desc :: "(row list \<Rightarrow> row list) \<Rightarrow> bool" where
  "is_desc ord \<longleftrightarrow> (\<forall>rs. mset (ord rs) = mset rs \<and> sorted (rev (map r_time (ord rs))))"

lemma is_desc_sort: "is_desc (\<lambda>rs. rev (sort_key r_time rs))"
  by (simp add: is_desc_def rev_map [symmetric])

lemma is_desc_set: "is_desc ord \<Longrightarrow> set (ord rs) = set rs"
  by (metis is_desc_def set_mset_mset)

lemma sql_rows: "sql env s = (e, s') \<Longrightarrow> st_rows s' = st_rows s"
  by (auto simp: sql_def)

lemma store_write_rows:
  assumes "store_write env a k v s = (res, s')"
  shows "st_rows s' = st_rows s \<or>
    (\<exists>t ts. res = Inr (compute_hash (dv_sha env) (dv_print env) a k v) \<and> dv_print env v = Inr t \<and>
       st_rows s' = insert_or_ignore \<lparr>r_hash = compute_hash (dv_sha env) (dv_print env) a k v, r_agent = a,
         r_key = k, r_value = t, r_time = ts\<rparr> (st_rows s))"
  using assms by (auto simp: store_write_def Let_def sql_def split: sum.splits option.splits)

lemma store_write_ok:
  assumes "store_write env a k v s = (Inr h, s')"
  shows "h = compute_hash (dv_sha env) (dv_print env) a k v \<and> (\<exists>t ts. dv_print env v = Inr t \<and>
    st_rows s' = insert_or_ignore \<lparr>r_hash = h, r_agent = a, r_key = k, r_value = t, r_time = ts\<rparr> (st_rows s))"
  using assms by (auto simp: store_write_def Let_def sql_def split: sum.splits option.splits)

lemma rows_ok_insert:
  assumes "rows_ok W env rs" and "W (r_agent r) (r_key r) v" and "dv_print env v = Inr (r_value r)"
    and "r_hash r = compute_hash (dv_sha env) (dv_print env) (r_agent r) (r_key r) v"
  shows "rows_ok W env (insert_or_ignore r rs)"
  using assms unfolding rows_ok_def insert_or_ignore_def by auto

lemma store_write_inv:
  assumes "rows_ok W env (st_rows s)" and "W a k v" and "store_write env a k v s = (res, s')"
  shows "rows_ok W env (st_rows s') \<and> (\<exists>new. st_rows s' = st_rows s @ new)"
  using store_write_rows [OF assms(3)]
proof
  assume "st_rows s' = st_rows s"
  with assms(1) show ?thesis by simp
next
  assume "\<exists>t ts. res = Inr (compute_hash (dv_sha env) (dv_print env) a k v) \<and> dv_print env v = Inr t \<and>
    st_rows s' = insert_or_ignore \<lparr>r_hash = compute_hash (dv_sha env) (dv_print env) a k v, r_agent = a,
      r_key = k, r_value = t, r_time = ts\<rparr> (st_rows s)"
  then obtain t ts where "dv_print env v = Inr t" and
    s': "st_rows s' = insert_or_ignore \<lparr>r_hash = compute_hash (dv_sha env) (dv_print env) a k v, r_agent = a,
      r_key = k, r_value = t, r_time = ts\<rparr> (st_rows s)" by blast
  then have "rows_ok W env (st_rows s')"
    unfolding s' by (intro rows_ok_insert [where v = v] assms(1)) (simp_all add: assms(2))
  with s' show ?thesis by (simp add: insert_or_ignore_def)
qed

lemma select_desc_rows [simp]: "st_rows (snd (select_desc env P s)) = st_rows s"
  by (auto simp: select_desc_def sql_def split: option.split)

lemma store_read_rows [simp]: "st_rows (snd (store_read env h s)) = st_rows s"
  by (auto simp: store_read_def sql_def split: option.split)

lemma select_desc_ok:
  "select_desc env P s = (Inr es, s') \<Longrightarrow>
     es = map (entry_of_row env) (dv_order env (filter P (st_rows s)))"
  by (auto simp: select_desc_def sql_def split: option.splits)

lemma filter_hash_unique:
  "distinct (map r_hash rs) \<Longrightarrow> r \<in> set rs \<Longrightarrow> filter (\<lambda>x. r_hash x = r_hash r) rs = [r]"
proof (induction rs)
  case (Cons x rs)
  show ?case
  proof (cases "x = r")
    case True
    with Cons.prems have "filter (\<lambda>y. r_hash y = r_hash r) rs = []"
      by (auto simp: filter_empty_conv image_iff)
    with True show ?thesis by simp
  next
    case False
    with Cons.prems have "r \<in> set rs" "r_hash x \<noteq> r_hash r" by auto
    with Cons show ?thesis by simp
  qed
qed simp

lemma store_read_hit:
  assumes "rows_ok W env (st_rows s)" and "r \<in> set (st_rows s)" and "store_read env (r_hash r) s = (Inr e, s')"
  shows "e = Some (entry_of_row env r)"
  using assms filter_hash_unique [of "st_rows s" r]
  by (auto simp: store_read_def sql_def rows_ok_def split: option.splits)

text \<open>What a hash says of its row.\<close>

lemma row_determined:
  assumes "rows_ok W env (st_rows s)" and "r \<in> set (st_rows s)" and "faithful W env" and "W a k v"
    and "r_hash r = compute_hash (dv_sha env) (dv_print env) a k v"
  shows "r_agent r = a \<and> r_key r = k \<and> sort_members (en_value (entry_of_row env r)) = sort_members v"
proof -
  from assms(1,2) obtain w where w: "W (r_agent r) (r_key r) w" "dv_print env w = Inr (r_value r)"
    "r_hash r = compute_hash (dv_sha env) (dv_print env) (r_agent r) (r_key r) w"
    by (auto simp: rows_ok_def)
  with assms(5) have "dv_sha env (framed (dv_print env) (r_agent r) (r_key r) w) = dv_sha env (framed (dv_print env) a k v)"
    by (simp add: compute_hash_def)
  with w(1) assms(3,4) have "framed (dv_print env) (r_agent r) (r_key r) w = framed (dv_print env) a k v"
    unfolding faithful_def by blast
  moreover from w(1) assms(3,4) have "nul_free (r_agent r)" "nul_free (r_key r)" "nul_free a" "nul_free k"
    and p: "prints (dv_print env) (dv_parse env) w" "prints (dv_print env) (dv_parse env) (sort_members w)"
    "prints (dv_print env) (dv_parse env) (sort_members v)"
    unfolding faithful_def by blast+
  ultimately have "r_agent r = a" "r_key r = k" "canonical_json (dv_print env) w = canonical_json (dv_print env) v"
    by (simp_all add: framed_inject)
  moreover from this(3) canonical_inject [OF p(2,3)] have "sort_members w = sort_members v" by blast
  moreover have "dv_parse env (r_value r) = Inr w" using p(1) w(2) by (auto simp: prints_def)
  ultimately show ?thesis by (simp add: entry_of_row_def)
qed

section \<open>Properties\<close>


definition sample_db :: db_env where
  "sample_db = \<lparr>dv_sha = (\<lambda>s. s), dv_print = sample_print, dv_parse = sample_parse, dv_clock = (\<lambda>n. int n * 1000000000),
     dv_sql = (\<lambda>_. None), dv_order = (\<lambda>rs. rev (sort_key r_time rs))\<rparr>"

definition sample_row :: "string \<Rightarrow> int \<Rightarrow> row" where
  "sample_row k t = \<lparr>r_hash = k, r_agent = ''a'', r_key = k, r_value = ''null'', r_time = t\<rparr>"


text \<open>A backslash in the prefix is not escaped: the query finds a key that does not have the prefix.\<close>

lemma backslash_prefix_matches_other:
  "sql_like (prefix_pattern [CHR 92, CHR ''_'']) [CHR 92, CHR ''x'']"
  by (simp add: sql_like_def c_str_def prefix_pattern_def replace_char_def like_all)

text \<open>Case is ignored: an entry of another key comes back.\<close>

lemma prefix_query_ignores_case: "sql_like (prefix_pattern ''Notes'') ''notes.secret''"
proof -
  have "nul_free ''Notes''" "nul_free ''notes.secret''" by (simp_all add: nul_free_def)
  moreover have "lower (CHR ''N'') = CHR ''n''" by code_simp
  ultimately show ?thesis
    by (simp add: sql_like_def like_prefix_pattern prefix_pattern_nul_free)
      (simp add: lower_def byte_def)
qed

end
