(* ===== verification/Ctxgraph.thy ===== *)
theory Ctxgraph
  imports Store Fs
begin

text \<open>
  Model of \<open>pkg/ctxgraph/src/main.rs\<close> and \<open>query.rs\<close>: the daemon that shares the store among agents. A
  thread per connection takes the lock of the store for each request, so a run of the daemon is an
  interleaving of the requests of all connections. The lemmas show what the agents may rely on in
  every interleaving.
\<close>

section \<open>The library interface\<close>

record graph =
  g_store :: store

definition graph_write :: "db_env \<Rightarrow> string \<Rightarrow> string \<Rightarrow> json \<Rightarrow> graph \<Rightarrow> (store_error + string) \<times> graph" where
  "graph_write env a k v g = (let (r, s) = store_write env a k v (g_store g) in (r, g\<lparr>g_store := s\<rparr>))"

definition graph_read :: "db_env \<Rightarrow> string \<Rightarrow> graph \<Rightarrow> (store_error + entry option) \<times> graph" where
  "graph_read env h g = (let (r, s) = store_read env h (g_store g) in (r, g\<lparr>g_store := s\<rparr>))"

definition graph_query :: "db_env \<Rightarrow> string \<Rightarrow> graph \<Rightarrow> (store_error + entry list) \<times> graph" where
  "graph_query env p g = (let (r, s) = query_by_prefix env p (g_store g) in (r, g\<lparr>g_store := s\<rparr>))"

definition graph_history :: "db_env \<Rightarrow> string \<Rightarrow> graph \<Rightarrow> (store_error + entry list) \<times> graph" where
  "graph_history env k g = (let (r, s) = store_history env k (g_store g) in (r, g\<lparr>g_store := s\<rparr>))"

definition graph_by_agent :: "db_env \<Rightarrow> string \<Rightarrow> graph \<Rightarrow> (store_error + entry list) \<times> graph" where
  "graph_by_agent env a g = (let (r, s) = by_agent env a (g_store g) in (r, g\<lparr>g_store := s\<rparr>))"

section \<open>Requests\<close>

definition entry_to_json :: "entry \<Rightarrow> json" where
  "entry_to_json e =
     JObj [(''hash'', JStr (en_hash e)), (''agent_id'', JStr (en_agent e)), (''key'', JStr (en_key e)),
           (''value'', en_value e), (''timestamp'', JNum (en_time e))]"

definition entries_json :: "store_error + entry list \<Rightarrow> json" where
  "entries_json r =
     (case r of Inr es \<Rightarrow> JObj [(''entries'', JArr (map entry_to_json es))] | Inl e \<Rightarrow> error_json (show_store_error e))"

definition value_field :: "json \<Rightarrow> json" where
  "value_field req = (case get req ''value'' of None \<Rightarrow> JNull | Some v \<Rightarrow> v)"

definition ctx_handle_write :: "db_env \<Rightarrow> json \<Rightarrow> store \<Rightarrow> store \<times> json" where
  "ctx_handle_write env req s =
     (let a = str_or [] req ''agent_id''; k = str_or [] req ''key''; v = value_field req
      in if a = [] \<or> k = [] then (s, error_json ''agent_id and key are required'')
         else (case store_write env a k v s of
                 (Inr h, s') \<Rightarrow> (s', JObj [(''ok'', JBool True), (''hash'', JStr h)])
               | (Inl e, s') \<Rightarrow> (s', error_json (show_store_error e))))"

definition ctx_handle_read :: "db_env \<Rightarrow> json \<Rightarrow> store \<Rightarrow> store \<times> json" where
  "ctx_handle_read env req s =
     (let h = str_or [] req ''hash''
      in if h = [] then (s, error_json ''hash is required'')
         else (case store_read env h s of
                 (Inr (Some e), s') \<Rightarrow> (s', entry_to_json e)
               | (Inr None, s') \<Rightarrow> (s', error_json ''not found'')
               | (Inl e, s') \<Rightarrow> (s', error_json (show_store_error e))))"

definition handle_query :: "db_env \<Rightarrow> json \<Rightarrow> store \<Rightarrow> store \<times> json" where
  "handle_query env req s = (let (r, s') = query_by_prefix env (str_or [] req ''prefix'') s in (s', entries_json r))"

definition handle_history :: "db_env \<Rightarrow> json \<Rightarrow> store \<Rightarrow> store \<times> json" where
  "handle_history env req s =
     (let k = str_or [] req ''key''
      in if k = [] then (s, error_json ''key is required'')
         else (let (r, s') = store_history env k s in (s', entries_json r)))"

definition dispatch_request :: "db_env \<Rightarrow> string \<Rightarrow> store \<Rightarrow> store \<times> json" where
  "dispatch_request env l s =
     (case dv_parse env l of
        Inl e \<Rightarrow> (s, error_json (''invalid JSON: '' @ e))
      | Inr req \<Rightarrow>
          (let m = str_or [] req ''method''
           in if m = ''write'' then ctx_handle_write env req s
              else if m = ''read'' then ctx_handle_read env req s
              else if m = ''query'' then handle_query env req s
              else if m = ''history'' then handle_history env req s
              else (s, error_json (''unknown method: '' @ m))))"

text \<open>One line of a connection, TCP or Unix: an empty line ends the connection.\<close>

definition ctx_step :: "db_env \<Rightarrow> string \<Rightarrow> store \<Rightarrow> store \<times> json option \<times> bool" where
  "ctx_step env l s = (if l = [] then (s, None, False) else (let (s', r) = dispatch_request env l s in (s', Some r, True)))"

section \<open>Start-up\<close>

definition ctx_socket :: string where
  "ctx_socket = ''/run/ctxgraph.sock''"

definition db_dir :: string where
  "db_dir = ''/var/lib/ctxgraph''"

text \<open>\<open>rs\<close> are the rows of the database file. The daemon ends when a step fails.\<close>

definition ctx_start :: "db_env \<Rightarrow> io_oracle \<Rightarrow> row list \<Rightarrow> fs \<Rightarrow> (string + store) \<times> fs" where
  "ctx_start env io rs f =
     (case fs_mkdirs io db_dir f of
        (Inl e, f1) \<Rightarrow> (Inl e, f1)
      | (Inr _, f1) \<Rightarrow>
          (case store_open env rs of
             Inl e \<Rightarrow> (Inl (show_store_error e), f1)
           | Inr s \<Rightarrow>
               (case open_socket io ctx_socket f1 of
                  (Inl e, f2) \<Rightarrow> (Inl e, f2)
                | (Inr _, f2) \<Rightarrow> (Inr s, f2))))"

text \<open>\<open>main\<close>: the exit code of the process, \<open>None\<close> if it goes on.\<close>

definition ctx_main :: "db_env \<Rightarrow> io_oracle \<Rightarrow> row list \<Rightarrow> fs \<Rightarrow> nat option" where
  "ctx_main env io rs f = (case fst (ctx_start env io rs f) of Inl _ \<Rightarrow> Some 1 | Inr _ \<Rightarrow> None)"

section \<open>What a request does to the table\<close>

text \<open>The agents, keys and values of the write requests that can arrive are among \<open>W\<close>.\<close>

definition writes_in :: "(string \<Rightarrow> string \<Rightarrow> json \<Rightarrow> bool) \<Rightarrow> db_env \<Rightarrow> bool" where
  "writes_in W env \<longleftrightarrow>
     (\<forall>l req. dv_parse env l = Inr req \<longrightarrow> str_or [] req ''method'' = ''write'' \<longrightarrow>
        W (str_or [] req ''agent_id'') (str_or [] req ''key'') (value_field req))"

lemma handle_read_rows [simp]: "st_rows (fst (ctx_handle_read env req s)) = st_rows s"
  using store_read_rows [of env "str_or [] req ''hash''" s]
  by (auto simp: ctx_handle_read_def Let_def simp del: store_read_rows split: prod.splits sum.split option.split)

lemma handle_query_rows [simp]: "st_rows (fst (handle_query env req s)) = st_rows s"
  by (simp add: handle_query_def query_by_prefix_def split_beta)

lemma handle_history_rows [simp]: "st_rows (fst (handle_history env req s)) = st_rows s"
  by (simp add: handle_history_def store_history_def split_beta Let_def)

lemma handle_write_inv:
  assumes "rows_ok W env (st_rows s)"
    and "W (str_or [] req ''agent_id'') (str_or [] req ''key'') (value_field req)"
  shows "rows_ok W env (st_rows (fst (ctx_handle_write env req s))) \<and>
    (\<exists>new. st_rows (fst (ctx_handle_write env req s)) = st_rows s @ new)"
proof -
  obtain res s' where w: "store_write env (str_or [] req ''agent_id'') (str_or [] req ''key'') (value_field req) s = (res, s')"
    by fastforce
  from store_write_inv [where W = W, OF assms w] w assms(1) show ?thesis
    by (cases res) (auto simp: ctx_handle_write_def Let_def)
qed

lemma dispatch_inv:
  assumes "rows_ok W env (st_rows s)" and "writes_in W env"
  shows "rows_ok W env (st_rows (fst (dispatch_request env l s))) \<and>
    (\<exists>new. st_rows (fst (dispatch_request env l s)) = st_rows s @ new)"
proof (cases "dv_parse env l")
  case (Inl e)
  with assms show ?thesis by (simp add: dispatch_request_def)
next
  case (Inr req)
  show ?thesis
  proof (cases "str_or [] req ''method'' = ''write''")
    case True
    then have "W (str_or [] req ''agent_id'') (str_or [] req ''key'') (value_field req)"
      using assms(2) Inr by (auto simp: writes_in_def)
    from handle_write_inv [where W = W, OF assms(1) this] Inr True show ?thesis
      by (simp add: dispatch_request_def)
  next
    case False
    with assms Inr show ?thesis by (simp add: dispatch_request_def Let_def)
  qed
qed

lemma ctx_step_inv:
  assumes "rows_ok W env (st_rows s)" and "writes_in W env" and "ctx_step env l s = (s', reply, go_on)"
  shows "rows_ok W env (st_rows s') \<and> (\<exists>new. st_rows s' = st_rows s @ new)"
  using dispatch_inv [OF assms(1,2), of l] assms(1,3)
  by (auto simp: ctx_step_def split_beta Let_def split: if_splits)

section \<open>What an answer says\<close>

definition ctx_answer :: "db_env \<Rightarrow> store \<Rightarrow> string \<Rightarrow> json \<Rightarrow> bool" where
  "ctx_answer env s l r =
     (case dv_parse env l of
        Inl _ \<Rightarrow> True
      | Inr req \<Rightarrow>
          (if str_or [] req ''method'' = ''write'' \<and> get r ''ok'' \<noteq> None then
             \<exists>x \<in> set (st_rows s). get r ''hash'' = Some (JStr (r_hash x)) \<and>
               r_hash x = compute_hash (dv_sha env) (dv_print env) (str_or [] req ''agent_id'')
                 (str_or [] req ''key'') (value_field req)
           else if str_or [] req ''method'' = ''read'' \<and> get r ''error'' = None then
             \<exists>x \<in> set (st_rows s). r_hash x = str_or [] req ''hash'' \<and> r = entry_to_json (entry_of_row env x)
           else True))"

lemma ctx_answer_mono: "ctx_answer env s l r \<Longrightarrow> set (st_rows s) \<subseteq> set (st_rows s') \<Longrightarrow> ctx_answer env s' l r"
  by (auto simp: ctx_answer_def split: sum.splits if_splits)

lemma insert_or_ignore_hash: "\<exists>x \<in> set (insert_or_ignore r rs). r_hash x = r_hash r"
  by (auto simp: insert_or_ignore_def)

lemma handle_write_answer:
  assumes "ctx_handle_write env req s = (s', r)" and "get r ''ok'' \<noteq> None"
  shows "\<exists>x \<in> set (st_rows s'). get r ''hash'' = Some (JStr (r_hash x)) \<and>
    r_hash x = compute_hash (dv_sha env) (dv_print env) (str_or [] req ''agent_id'') (str_or [] req ''key'') (value_field req)"
proof -
  obtain res s1 where w: "store_write env (str_or [] req ''agent_id'') (str_or [] req ''key'') (value_field req) s = (res, s1)"
    by fastforce
  with assms obtain h where h: "res = Inr h" "s' = s1" "get r ''hash'' = Some (JStr h)"
    by (cases res) (auto simp: ctx_handle_write_def Let_def split: if_splits)
  from w h(1) have "store_write env (str_or [] req ''agent_id'') (str_or [] req ''key'') (value_field req) s = (Inr h, s1)"
    by simp
  from store_write_ok [OF this] obtain t ts where
    hash: "h = compute_hash (dv_sha env) (dv_print env) (str_or [] req ''agent_id'') (str_or [] req ''key'') (value_field req)"
    and rows: "st_rows s1 = insert_or_ignore \<lparr>r_hash = h, r_agent = str_or [] req ''agent_id'', r_key = str_or [] req ''key'',
      r_value = t, r_time = ts\<rparr> (st_rows s)" by blast
  obtain x where "x \<in> set (st_rows s1)" "r_hash x = h"
    unfolding rows using insert_or_ignore_hash [of "\<lparr>r_hash = h, r_agent = str_or [] req ''agent_id'', r_key = str_or [] req ''key'',
      r_value = t, r_time = ts\<rparr>" "st_rows s"] by auto
  with h(2,3) hash show ?thesis by (intro bexI [of _ x]) simp_all
qed

lemma store_read_some:
  "store_read env h s = (Inr (Some e), s') \<Longrightarrow> \<exists>x \<in> set (st_rows s). r_hash x = h \<and> e = entry_of_row env x"
  by (auto simp: store_read_def sql_def filter_eq_Cons_iff split: option.splits list.splits)

lemma handle_read_answer:
  assumes "ctx_handle_read env req s = (s', r)" and "get r ''error'' = None"
  shows "\<exists>x \<in> set (st_rows s'). r_hash x = str_or [] req ''hash'' \<and> r = entry_to_json (entry_of_row env x)"
proof -
  obtain res s1 where w: "store_read env (str_or [] req ''hash'') s = (res, s1)" by fastforce
  with assms obtain e where e: "res = Inr (Some e)" "s' = s1" "r = entry_to_json e"
    by (cases res) (auto simp: ctx_handle_read_def Let_def split: if_splits option.splits)
  have "st_rows s1 = st_rows s" using store_read_rows w by (metis snd_conv)
  with e w store_read_some show ?thesis by fastforce
qed

lemma ctx_step_answer:
  assumes "ctx_step env l s = (s', Some r, go_on)"
  shows "ctx_answer env s' l r"
proof (cases "dv_parse env l")
  case (Inl e)
  then show ?thesis by (simp add: ctx_answer_def)
next
  case (Inr req)
  from assms have "dispatch_request env l s = (s', r)"
    by (auto simp: ctx_step_def split_beta Let_def split: if_splits)
  with Inr handle_write_answer [of env req s s' r] handle_read_answer [of env req s s' r] show ?thesis
    by (auto simp: ctx_answer_def dispatch_request_def Let_def split: if_splits)
qed

interpretation ctx_srv: threaded_service "ctx_step env" "\<lambda>s. writes_in W env \<and> rows_ok W env (st_rows s)" "ctx_answer env"
  for env W
proof unfold_locales
  show "writes_in W env \<and> rows_ok W env (st_rows s')"
    if "writes_in W env \<and> rows_ok W env (st_rows s)" "ctx_step env l s = (s', reply, go_on)" for s l s' reply go_on
    using ctx_step_inv that by blast
  show "ctx_answer env s' l r"
    if "writes_in W env \<and> rows_ok W env (st_rows s)" "ctx_step env l s = (s', Some r, go_on)" for s l s' r go_on
    using ctx_step_answer that by blast
  show "ctx_answer env s' l' r"
    if "writes_in W env \<and> rows_ok W env (st_rows s)" "ctx_step env l s = (s', reply, go_on)" "ctx_answer env s l' r"
    for s l s' reply go_on l' r
    using ctx_step_inv that ctx_answer_mono by (metis UnCI set_append subsetI)
qed simp

section \<open>Properties\<close>

lemma ctx_reached:
  assumes "writes_in W env" and "rows_ok W env (st_rows s0)" and "(served (ctx_step env))\<^sup>*\<^sup>* (s0, []) (s, ts)"
  shows "rows_ok W env (st_rows s)" and "(ls, out) \<in> set ts \<Longrightarrow> (l, r) \<in> set out \<Longrightarrow> ctx_answer env s l r"
  using ctx_srv.threads_inv [OF assms(3), of W] ctx_srv.threads_answer [OF assms(3), of W ls out l r] assms(1,2)
  by blast+

lemma ctx_answer_read:
  assumes "ctx_answer env s l r" and "dv_parse env l = Inr req"
    and "str_or [] req ''method'' = ''read''" and "get r ''error'' = None"
  obtains x where "x \<in> set (st_rows s)" "r_hash x = str_or [] req ''hash''" "r = entry_to_json (entry_of_row env x)"
  using assms by (auto simp: ctx_answer_def)


text \<open>
  C34: entries never change. In every interleaving, and without any assumption on digest, printer, parser
  or SQLite, two read requests for the same hash that are answered with an entry are answered with the
  same entry: agent, key, value and time.
\<close>

theorem entries_immutable:
  assumes "(served (ctx_step env))\<^sup>*\<^sup>* (s0, []) (s, ts)" and "st_rows s0 = []"
    and "(ls1, out1) \<in> set ts" and "(l1, a1) \<in> set out1" and "(ls2, out2) \<in> set ts" and "(l2, a2) \<in> set out2"
    and "dv_parse env l1 = Inr q1" and "dv_parse env l2 = Inr q2"
    and "str_or [] q1 ''method'' = ''read''" and "str_or [] q2 ''method'' = ''read''"
    and "str_or [] q1 ''hash'' = str_or [] q2 ''hash''"
    and "get a1 ''error'' = None" and "get a2 ''error'' = None"
  shows "a1 = a2"
proof -
  have w: "writes_in (\<lambda>_ _ _. True) env" by (simp add: writes_in_def)
  have r: "rows_ok (\<lambda>_ _ _. True) env (st_rows s0)" using assms(2) by (simp add: rows_ok_def)
  note reached = ctx_reached [OF w r assms(1)]
  obtain x where x: "x \<in> set (st_rows s)" "r_hash x = str_or [] q1 ''hash''" "a1 = entry_to_json (entry_of_row env x)"
    using ctx_answer_read [OF reached(2) [OF assms(3,4)] assms(7,9,12)] .
  obtain y where y: "y \<in> set (st_rows s)" "r_hash y = str_or [] q2 ''hash''" "a2 = entry_to_json (entry_of_row env y)"
    using ctx_answer_read [OF reached(2) [OF assms(5,6)] assms(8,10,13)] .
  have "distinct (map r_hash (st_rows s))" using reached(1) by (simp add: rows_ok_def)
  with x y assms(11) have "x = y" by (metis distinct_map inj_onD)
  with x y show ?thesis by simp
qed

definition sample_write :: json where
  "sample_write = JObj [(''method'', JStr ''write''), (''agent_id'', JStr ''a''), (''key'', JStr ''k''), (''value'', JStr ''x'')]"

definition sample_hash :: string where
  "sample_hash = compute_hash (\<lambda>s. s) sample_print ''a'' ''k'' (JStr ''x'')"

definition sample_read :: json where
  "sample_read = JObj [(''method'', JStr ''read''), (''hash'', JStr sample_hash)]"

definition sample_ctx :: db_env where
  "sample_ctx = sample_db\<lparr>dv_parse := (\<lambda>l. if l = ''w'' then Inr sample_write else if l = ''r'' then Inr sample_read
     else if l = [CHR 34, CHR ''x'', CHR 34] then Inr (JStr ''x'') else Inl ''bad'')\<rparr>"

definition sample_stored :: store where
  "sample_stored = \<lparr>st_rows = [\<lparr>r_hash = sample_hash, r_agent = ''a'', r_key = ''k'',
     r_value = [CHR 34, CHR ''x'', CHR 34], r_time = 2\<rparr>], st_calls = 3\<rparr>"

definition sample_answer :: json where
  "sample_answer = JObj [(''hash'', JStr sample_hash), (''agent_id'', JStr ''a''), (''key'', JStr ''k''),
     (''value'', JStr ''x''), (''timestamp'', JNum 2)]"

lemma sample_lines: "request_lines \<lparr>c_bytes = ''w'', c_open = False\<rparr> = [Inr ''w'']"
    "request_lines \<lparr>c_bytes = ''r'', c_open = False\<rparr> = [Inr ''r'']"
  by (simp_all add: request_lines_short read_limit_def is_ascii_def byte_def)

lemma sample_hash_not_Nil [simp]: "sample_hash \<noteq> []"
  by (simp add: sample_hash_def compute_hash_def framed_def hex_def hex_byte_def)

lemma sample_write_step:
  "ctx_step sample_ctx ''w'' \<lparr>st_rows = [], st_calls = 2\<rparr> =
     (sample_stored, Some (JObj [(''ok'', JBool True), (''hash'', JStr sample_hash)]), True)"
  by (simp add: ctx_step_def dispatch_request_def sample_ctx_def sample_write_def str_or_def ctx_handle_write_def
      value_field_def store_write_def sample_db_def sample_print_def sql_def insert_or_ignore_def sample_stored_def
      sample_hash_def [symmetric] current_timestamp_def Let_def)

lemma sample_read_step:
  "ctx_step sample_ctx ''r'' (sample_stored\<lparr>st_calls := n\<rparr>) = (sample_stored\<lparr>st_calls := n + 2\<rparr>, Some sample_answer, True)"
  by (simp add: ctx_step_def dispatch_request_def sample_ctx_def sample_read_def str_or_def ctx_handle_read_def
      store_read_def sql_def sample_stored_def sample_db_def entry_of_row_def entry_to_json_def sample_answer_def Let_def)

lemma sample_run:
  "(served (ctx_step sample_ctx))\<^sup>*\<^sup>* (\<lparr>st_rows = [], st_calls = 2\<rparr>, [])
     (sample_stored\<lparr>st_calls := 7\<rparr>, [([], [(''w'', JObj [(''ok'', JBool True), (''hash'', JStr sample_hash)])]),
        ([], [(''r'', sample_answer)]), ([], [(''r'', sample_answer)])])"
proof -
  have r1: "ctx_step sample_ctx ''r'' sample_stored = (sample_stored\<lparr>st_calls := 5\<rparr>, Some sample_answer, True)"
    using sample_read_step [of 3] by (simp add: sample_stored_def)
  have r2: "ctx_step sample_ctx ''r'' (sample_stored\<lparr>st_calls := 5\<rparr>) = (sample_stored\<lparr>st_calls := 7\<rparr>, Some sample_answer, True)"
    using sample_read_step [of 5] by simp
  note one = served_one_line [where step = "ctx_step sample_ctx"]
  show ?thesis
    using rtranclp_trans [OF rtranclp_trans [OF one [OF sample_lines(1) sample_write_step]
      one [OF sample_lines(2) r1]] one [OF sample_lines(2) r2], of "[]"]
    by simp
qed

theorem entries_immutable_witness:
  "\<exists>a1 a2 s ts. (served (ctx_step sample_ctx))\<^sup>*\<^sup>* (\<lparr>st_rows = [], st_calls = 2\<rparr>, []) (s, ts) \<and>
     snd (ts ! 1) = [(''r'', a1)] \<and> snd (ts ! 2) = [(''r'', a2)] \<and> a1 = a2"
proof -
  let ?ts = "[([], [(''w'', JObj [(''ok'', JBool True), (''hash'', JStr sample_hash)])]),
    ([], [(''r'', sample_answer)]), ([], [(''r'', sample_answer)])] :: thread list"
  have p: "dv_parse sample_ctx ''r'' = Inr sample_read" by (simp add: sample_ctx_def)
  have m: "str_or [] sample_read ''method'' = ''read''" by (simp add: sample_read_def str_or_def)
  have e: "get sample_answer ''error'' = None" by (simp add: sample_answer_def)
  have t1: "([], [(''r'', sample_answer)]) \<in> set ?ts" "(''r'', sample_answer) \<in> set [(''r'', sample_answer)]" by simp_all
  have "sample_answer = sample_answer"
    by (rule entries_immutable [OF sample_run _ t1 t1 p p m m refl e e]) simp
  then show ?thesis
    using sample_run by (intro exI [of _ sample_answer] exI [of _ "sample_stored\<lparr>st_calls := 7\<rparr>"] exI [of _ ?ts]) simp
qed

definition sample_W :: "string \<Rightarrow> string \<Rightarrow> json \<Rightarrow> bool" where
  "sample_W a k v \<longleftrightarrow> a = ''a'' \<and> k = ''k'' \<and> v = JStr ''x''"


end
