(* ===== verification/Crypto.thy ===== *)
theory Crypto
  imports Fs
begin

text \<open>
  Model of \<open>pkg/warden/src/crypto.rs\<close> and \<open>master_key.rs\<close>: encryption with a fresh nonce, key derivation,
  and where the master key comes from. The primitives of the ring and hex crates are parameters: the
  random generator (indexed by the number of its use), AES-256-GCM, PBKDF2 and the hex codec.
\<close>

section \<open>Primitives\<close>

record crypto_env =
  cr_random :: "nat \<Rightarrow> nat \<Rightarrow> string option"
  cr_key_ok :: "string \<Rightarrow> bool"
  cr_seal :: "string \<Rightarrow> string \<Rightarrow> string \<Rightarrow> string option"
  cr_open :: "string \<Rightarrow> string \<Rightarrow> string \<Rightarrow> string option"
  cr_pbkdf2 :: "nat \<Rightarrow> string \<Rightarrow> string \<Rightarrow> string"
  cr_hex_encode :: "string \<Rightarrow> string"
  cr_hex_decode :: "string \<Rightarrow> string option"

datatype crypto_error = KeyInvalid | EncryptFailed | DecryptFailed | RandomFailed

fun show_crypto_error :: "crypto_error \<Rightarrow> string" where
  "show_crypto_error KeyInvalid = ''invalid key''"
| "show_crypto_error EncryptFailed = ''encryption failed''"
| "show_crypto_error DecryptFailed = ''decryption failed (wrong key or corrupted data)''"
| "show_crypto_error RandomFailed = ''random number generation failed''"

text \<open>
  What the crates document: the generator fills the buffer, what is sealed opens again under the same
  key and nonce, hexadecimal text decodes to the bytes it encodes, and derived keys have 32 bytes.
\<close>

definition crypto_laws :: "crypto_env \<Rightarrow> bool" where
  "crypto_laws cr \<longleftrightarrow>
     (\<forall>n l b. cr_random cr n l = Some b \<longrightarrow> length b = l) \<and>
     (\<forall>k n p c. cr_seal cr k n p = Some c \<longrightarrow> cr_open cr k n c = Some p) \<and>
     (\<forall>s. cr_hex_decode cr (cr_hex_encode cr s) = Some s) \<and>
     (\<forall>i s p. length (cr_pbkdf2 cr i s p) = 32)"

section \<open>Operations\<close>

text \<open>The generator is used once, whatever the outcome; \<open>n\<close> counts its uses.\<close>

definition encrypt :: "crypto_env \<Rightarrow> string \<Rightarrow> string \<Rightarrow> nat \<Rightarrow> (crypto_error + string \<times> string) \<times> nat" where
  "encrypt cr plaintext key n =
     ((case cr_random cr n 12 of
         None \<Rightarrow> Inl RandomFailed
       | Some nonce \<Rightarrow>
           (if \<not> cr_key_ok cr key then Inl KeyInvalid
            else case cr_seal cr key nonce plaintext of
                   None \<Rightarrow> Inl EncryptFailed
                 | Some c \<Rightarrow> Inr (c, nonce))), n + 1)"

definition decrypt :: "crypto_env \<Rightarrow> string \<Rightarrow> string \<Rightarrow> string \<Rightarrow> crypto_error + string" where
  "decrypt cr ciphertext key nonce =
     (if \<not> cr_key_ok cr key then Inl KeyInvalid
      else case cr_open cr key nonce ciphertext of None \<Rightarrow> Inl DecryptFailed | Some p \<Rightarrow> Inr p)"

definition generate_salt :: "crypto_env \<Rightarrow> nat \<Rightarrow> (crypto_error + string) \<times> nat" where
  "generate_salt cr n = ((case cr_random cr n 16 of None \<Rightarrow> Inl RandomFailed | Some s \<Rightarrow> Inr s), n + 1)"

definition derive_key :: "crypto_env \<Rightarrow> string \<Rightarrow> string \<Rightarrow> string" where
  "derive_key cr passphrase salt = cr_pbkdf2 cr 600000 salt passphrase"

lemma decrypt_encrypt:
  assumes "crypto_laws cr" and "encrypt cr p key n = (Inr (c, nonce), n')"
  shows "decrypt cr c key nonce = Inr p" and "length nonce = 12"
  using assms by (auto simp: encrypt_def decrypt_def crypto_laws_def split: option.splits if_splits)

section \<open>The master key\<close>

text \<open>The environment of the process; a variable that is not Unicode counts as not set.\<close>

record warden_vars =
  wv_key :: "string option"
  wv_passphrase :: "string option"

datatype master_key_error =
    InvalidHex
  | WrongLength nat
  | ReadFailed io_error
  | EmptyPassphrase
  | NoSaltForPassphrase
  | NoKeySource

definition master_key_path :: string where
  "master_key_path = ''/vault/master.key''"

fun show_master_key_error :: "master_key_error \<Rightarrow> string" where
  "show_master_key_error InvalidHex = ''WARDEN_MASTER_KEY is not valid hex''"
| "show_master_key_error (WrongLength n) = ''master key must be 32 bytes, got '' @ show_nat n"
| "show_master_key_error (ReadFailed e) = ''failed to read '' @ master_key_path @ '': '' @ e"
| "show_master_key_error EmptyPassphrase = ''WARDEN_PASSPHRASE is empty''"
| "show_master_key_error NoSaltForPassphrase = ''passphrase derivation requires a salt (no existing vault)''"
| "show_master_key_error NoKeySource =
     ''no master key found. Set WARDEN_MASTER_KEY, WARDEN_PASSPHRASE, or create '' @ master_key_path"

definition key_of_bytes :: "string \<Rightarrow> master_key_error + string" where
  "key_of_bytes b = (if length b \<noteq> 32 then Inl (WrongLength (length b)) else Inr b)"

text \<open>\<open>resolve\<close>: the variable, then the key file, then the passphrase.\<close>

definition resolve_key ::
    "crypto_env \<Rightarrow> warden_vars \<Rightarrow> io_oracle \<Rightarrow> string option \<Rightarrow> fs \<Rightarrow> (master_key_error + string) \<times> fs" where
  "resolve_key cr vars io salt f =
     (case wv_key vars of
        Some h \<Rightarrow>
          ((case cr_hex_decode cr (trim h) of None \<Rightarrow> Inl InvalidHex | Some b \<Rightarrow> key_of_bytes b), f)
      | None \<Rightarrow>
          (if fs_exists master_key_path f then
             (case fs_read io master_key_path f of
                (Inl e, f1) \<Rightarrow> (Inl (ReadFailed e), f1)
              | (Inr b, f1) \<Rightarrow> (key_of_bytes b, f1))
           else
             ((case wv_passphrase vars of
                 None \<Rightarrow> Inl NoKeySource
               | Some p \<Rightarrow>
                   (if p = [] then Inl EmptyPassphrase
                    else case salt of None \<Rightarrow> Inl NoSaltForPassphrase | Some s \<Rightarrow> Inr (derive_key cr p s))), f)))"

lemma resolve_key_nodes [simp]: "nodes (snd (resolve_key cr vars io salt f)) = nodes f"
  by (auto simp: resolve_key_def fs_read_def split: option.splits)

section \<open>Properties\<close>

text \<open>
  Which key the vault uses. The resolution succeeds with a key of 32 bytes exactly in one of three
  ways, in this order of precedence: the hexadecimal variable; without it, the key file; without both, a
  key derived from a passphrase that is not empty and the salt. A source that is present but bad is an
  error, never a reason to fall back to the next one.
\<close>

lemma master_key_precedence:
  "fst (resolve_key cr vars (\<lambda>_. None) salt f) = Inr key \<longleftrightarrow>
     (case wv_key vars of
        Some h \<Rightarrow> cr_hex_decode cr (trim h) = Some key \<and> length key = 32
      | None \<Rightarrow>
          (if fs_exists master_key_path f then file_of f master_key_path = Some key \<and> length key = 32
           else \<exists>p s. wv_passphrase vars = Some p \<and> p \<noteq> [] \<and> salt = Some s \<and> key = cr_pbkdf2 cr 600000 s p))"
  by (auto simp: resolve_key_def key_of_bytes_def fs_read_def derive_key_def split: option.splits if_splits)

text \<open>
  A process with an empty environment, as the supervisor starts its services, has only the key file.
\<close>

lemma empty_environment_needs_key_file:
  assumes "\<not> fs_exists master_key_path f"
  shows "fst (resolve_key cr \<lparr>wv_key = None, wv_passphrase = None\<rparr> io salt f) = Inl NoKeySource"
  using assms by (simp add: resolve_key_def)

end
