(* ===== verification/Vault.thy ===== *)
theory Vault
  imports Crypto Serde "HOL-Library.List_Lexorder" "HOL-Library.Char_ord"
begin

text \<open>
  Model of \<open>pkg/warden/src/vault.rs\<close>: the secrets in memory and the encrypted file. The serde_json
  parser and its two printers are parameters. The lemmas show that a save is atomic, and that what was
  saved loads again under the same master key.
\<close>

section \<open>State\<close>

record vault =
  va_secrets :: "(string, string) hashmap"
  va_key :: string
  va_salt :: string

record vault_file =
  vf_salt :: string
  vf_nonce :: string
  vf_ciphertext :: string

datatype vault_error =
    Vault_io io_error
  | Vault_parse string
  | Vault_crypto crypto_error
  | Vault_master_key master_key_error
  | Corrupted_file string

fun show_vault_error :: "vault_error \<Rightarrow> string" where
  "show_vault_error (Vault_io e) = ''vault I/O error: '' @ e"
| "show_vault_error (Vault_parse e) = ''vault parse error: '' @ e"
| "show_vault_error (Vault_crypto e) = ''vault crypto error: '' @ show_crypto_error e"
| "show_vault_error (Vault_master_key e) = ''master key error: '' @ show_master_key_error e"
| "show_vault_error (Corrupted_file m) = ''corrupted vault file: '' @ m"

text \<open>
  \<open>ve_print\<close> is \<open>to_vec\<close>, \<open>ve_pretty\<close> is \<open>to_string_pretty\<close>, \<open>ve_err\<close> the text of a serde error for a
  value of the wrong shape, \<open>ve_it\<close> the iteration order of the secrets.
\<close>

record vault_env =
  ve_crypto :: crypto_env
  ve_vars :: warden_vars
  ve_io :: io_oracle
  ve_parse :: "string \<Rightarrow> string + json"
  ve_err :: "json \<Rightarrow> string"
  ve_print :: "json \<Rightarrow> string + string"
  ve_pretty :: "json \<Rightarrow> string + string"
  ve_it :: "(string \<times> string) list \<Rightarrow> (string \<times> string) list"

text \<open>The file system and the number of uses of the random generator.\<close>

type_synonym vault_world = "fs \<times> nat"

definition vault_path :: string where
  "vault_path = ''/run/warden/secrets.enc''"

section \<open>The file\<close>

definition vault_file_json :: "vault_file \<Rightarrow> json" where
  "vault_file_json vf =
     JObj [(''salt'', JStr (vf_salt vf)), (''nonce'', JStr (vf_nonce vf)), (''ciphertext'', JStr (vf_ciphertext vf))]"

definition de_vault_file :: "json \<Rightarrow> vault_file option" where
  "de_vault_file v =
     Option.bind (struct_fields [''salt'', ''nonce'', ''ciphertext''] v) (\<lambda>f.
     Option.bind (required f ''salt'' as_str) (\<lambda>s.
     Option.bind (required f ''nonce'' as_str) (\<lambda>n.
     Option.bind (required f ''ciphertext'' as_str) (\<lambda>c.
     Some \<lparr>vf_salt = s, vf_nonce = n, vf_ciphertext = c\<rparr>))))"

definition from_json :: "vault_env \<Rightarrow> (json \<Rightarrow> 'a option) \<Rightarrow> string \<Rightarrow> string + 'a" where
  "from_json env de s =
     (case ve_parse env s of
        Inl e \<Rightarrow> Inl e
      | Inr v \<Rightarrow> (case de v of None \<Rightarrow> Inl (ve_err env v) | Some x \<Rightarrow> Inr x))"

text \<open>\<open>read_to_string\<close>: the bytes must be UTF-8.\<close>

definition fs_read_string :: "io_oracle \<Rightarrow> string \<Rightarrow> fs \<Rightarrow> (io_error + string) \<times> fs" where
  "fs_read_string io p f =
     (case fs_read io p f of
        (Inl e, f1) \<Rightarrow> (Inl e, f1)
      | (Inr s, f1) \<Rightarrow> ((if valid_utf8 s then Inr s else Inl ''stream did not contain valid UTF-8''), f1))"

section \<open>Operations\<close>

text \<open>The checks of a loaded file, up to the bytes that it stands for.\<close>

definition file_bytes :: "crypto_env \<Rightarrow> vault_file \<Rightarrow> vault_error + string \<times> string \<times> string" where
  "file_bytes cr vf =
     (case cr_hex_decode cr (vf_salt vf) of
        None \<Rightarrow> Inl (Corrupted_file ''invalid salt hex'')
      | Some s \<Rightarrow>
          (case cr_hex_decode cr (vf_nonce vf) of
             None \<Rightarrow> Inl (Corrupted_file ''invalid nonce hex'')
           | Some n \<Rightarrow>
               (case cr_hex_decode cr (vf_ciphertext vf) of
                  None \<Rightarrow> Inl (Corrupted_file ''invalid ciphertext hex'')
                | Some c \<Rightarrow>
                    (if length s \<noteq> 16 then Inl (Corrupted_file ''salt must be 16 bytes'')
                     else if length n \<noteq> 12 then Inl (Corrupted_file ''nonce must be 12 bytes'')
                     else Inr (s, n, c)))))"

definition vault_load :: "vault_env \<Rightarrow> string \<Rightarrow> vault_world \<Rightarrow> (vault_error + vault) \<times> vault_world" where
  "vault_load env path w =
     (let (f, n) = w; cr = ve_crypto env
      in if \<not> fs_exists path f then
           (case generate_salt cr n of
              (Inl e, n1) \<Rightarrow> (Inl (Vault_crypto e), (f, n1))
            | (Inr salt, n1) \<Rightarrow>
                (case resolve_key cr (ve_vars env) (ve_io env) (Some salt) f of
                   (Inl e, f1) \<Rightarrow> (Inl (Vault_master_key e), (f1, n1))
                 | (Inr key, f1) \<Rightarrow> (Inr \<lparr>va_secrets = [], va_key = key, va_salt = salt\<rparr>, (f1, n1))))
         else
           (case fs_read_string (ve_io env) path f of
              (Inl e, f1) \<Rightarrow> (Inl (Vault_io e), (f1, n))
            | (Inr content, f1) \<Rightarrow>
                (case from_json env de_vault_file content of
                   Inl e \<Rightarrow> (Inl (Vault_parse e), (f1, n))
                 | Inr vf \<Rightarrow>
                     (case file_bytes cr vf of
                        Inl e \<Rightarrow> (Inl e, (f1, n))
                      | Inr (salt, nonce, ciphertext) \<Rightarrow>
                          (case resolve_key cr (ve_vars env) (ve_io env) (Some salt) f1 of
                             (Inl e, f2) \<Rightarrow> (Inl (Vault_master_key e), (f2, n))
                           | (Inr key, f2) \<Rightarrow>
                               (case decrypt cr ciphertext key nonce of
                                  Inl e \<Rightarrow> (Inl (Vault_crypto e), (f2, n))
                                | Inr plaintext \<Rightarrow>
                                    (case from_json env de_string_map plaintext of
                                       Inl e \<Rightarrow> (Inl (Vault_parse e), (f2, n))
                                     | Inr secrets \<Rightarrow>
                                         (Inr \<lparr>va_secrets = secrets, va_key = key, va_salt = salt\<rparr>, (f2, n)))))))))"

definition vault_save :: "vault_env \<Rightarrow> string \<Rightarrow> vault \<Rightarrow> vault_world \<Rightarrow> (vault_error + unit) \<times> vault_world" where
  "vault_save env path v w =
     (let (f, n) = w; cr = ve_crypto env; io = ve_io env
      in case fs_mkdirs io (path_parent path) f of
           (Inl e, f1) \<Rightarrow> (Inl (Vault_io e), (f1, n))
         | (Inr _, f1) \<Rightarrow>
             (case ve_print env (string_map_json (ve_it env (va_secrets v))) of
                Inl e \<Rightarrow> (Inl (Vault_parse e), (f1, n))
              | Inr plaintext \<Rightarrow>
                  (case encrypt cr plaintext (va_key v) n of
                     (Inl e, n1) \<Rightarrow> (Inl (Vault_crypto e), (f1, n1))
                   | (Inr (ciphertext, nonce), n1) \<Rightarrow>
                       (case ve_pretty env (vault_file_json \<lparr>vf_salt = cr_hex_encode cr (va_salt v),
                            vf_nonce = cr_hex_encode cr nonce, vf_ciphertext = cr_hex_encode cr ciphertext\<rparr>) of
                          Inl e \<Rightarrow> (Inl (Vault_parse e), (f1, n1))
                        | Inr json \<Rightarrow>
                            (let tmp = with_extension ''tmp'' path
                             in case fs_write io tmp json f1 of
                                  (Inl e, f2) \<Rightarrow> (Inl (Vault_io e), (f2, n1))
                                | (Inr _, f2) \<Rightarrow>
                                    (case fs_rename io tmp path f2 of
                                       (Inl e, f3) \<Rightarrow> (Inl (Vault_io e), (f3, n1))
                                     | (Inr _, f3) \<Rightarrow> (Inr (), (f3, n1))))))))"

text \<open>The requested secrets that exist; collecting into a hash map drops repeated keys.\<close>

definition vault_get :: "string list \<Rightarrow> vault \<Rightarrow> (string, string) hashmap" where
  "vault_get ks v =
     fold (\<lambda>(k, x). AList.update k x)
       (List.map_filter (\<lambda>k. map_option (\<lambda>x. (k, x)) (map_of (va_secrets v) k)) ks) []"

definition vault_set :: "string \<Rightarrow> string \<Rightarrow> vault \<Rightarrow> vault" where
  "vault_set k x v = v\<lparr>va_secrets := AList.update k x (va_secrets v)\<rparr>"

definition vault_delete :: "string \<Rightarrow> vault \<Rightarrow> bool \<times> vault" where
  "vault_delete k v =
     (map_of (va_secrets v) k \<noteq> None, v\<lparr>va_secrets := AList.delete k (va_secrets v)\<rparr>)"

definition list_keys :: "vault_env \<Rightarrow> vault \<Rightarrow> string list" where
  "list_keys env v = sort (map fst (ve_it env (va_secrets v)))"

section \<open>Lemmas\<close>

lemma vault_paths [simp]:
  "path_parent vault_path = ''/run/warden''" "with_extension ''tmp'' vault_path = ''/run/warden/secrets.tmp''"
  by (simp_all add: vault_path_def path_parent_def with_extension_def before_last_def after_last_def file_stem_def)

text \<open>What is printed of an object of strings parses back; printed text is UTF-8.\<close>

definition json_laws :: "vault_env \<Rightarrow> bool" where
  "json_laws env \<longleftrightarrow>
     (\<forall>m t. hm_ok m \<longrightarrow> ve_print env (string_map_json m) = Inr t \<longrightarrow> ve_parse env t = Inr (string_map_json m)) \<and>
     (\<forall>m t. hm_ok m \<longrightarrow> ve_pretty env (string_map_json m) = Inr t \<longrightarrow>
        ve_parse env t = Inr (string_map_json m) \<and> valid_utf8 t)"

definition vault_ok :: "vault \<Rightarrow> bool" where
  "vault_ok v \<longleftrightarrow> hm_ok (va_secrets v) \<and> length (va_salt v) = 16"

text \<open>The text of a vault file from which exactly this vault is read, with its key.\<close>

definition holds_vault :: "vault_env \<Rightarrow> string \<Rightarrow> vault \<Rightarrow> bool" where
  "holds_vault env t v \<longleftrightarrow> valid_utf8 t \<and>
     (\<exists>vf nonce c p m. from_json env de_vault_file t = Inr vf \<and>
        file_bytes (ve_crypto env) vf = Inr (va_salt v, nonce, c) \<and>
        decrypt (ve_crypto env) c (va_key v) nonce = Inr p \<and>
        from_json env de_string_map p = Inr m \<and> hm_ok m \<and> map_of m = map_of (va_secrets v))"

lemma vault_file_as_map:
  "vault_file_json vf = string_map_json [(''salt'', vf_salt vf), (''nonce'', vf_nonce vf), (''ciphertext'', vf_ciphertext vf)]"
  by (simp add: vault_file_json_def string_map_json_def)

lemma de_vault_file_json: "de_vault_file (vault_file_json vf) = Some vf"
  by (simp add: de_vault_file_def vault_file_json_def struct_fields_def required_def)

lemma encoded_holds:
  assumes "crypto_laws (ve_crypto env)" and "json_laws env" and "is_iter (ve_it env)" and "vault_ok v"
    and "ve_print env (string_map_json (ve_it env (va_secrets v))) = Inr p"
    and "encrypt (ve_crypto env) p (va_key v) n = (Inr (c, nonce), n')"
    and "ve_pretty env (vault_file_json \<lparr>vf_salt = cr_hex_encode (ve_crypto env) (va_salt v),
      vf_nonce = cr_hex_encode (ve_crypto env) nonce, vf_ciphertext = cr_hex_encode (ve_crypto env) c\<rparr>) = Inr t"
  shows "holds_vault env t v"
proof -
  let ?m = "ve_it env (va_secrets v)" and ?h = "cr_hex_encode (ve_crypto env)"
  let ?vf = "\<lparr>vf_salt = ?h (va_salt v), vf_nonce = ?h nonce, vf_ciphertext = ?h c\<rparr>"
  have "hm_ok [(''salt'', ?h (va_salt v)), (''nonce'', ?h nonce), (''ciphertext'', ?h c)]" by (simp add: hm_ok_def)
  with assms(2,7) have t: "ve_parse env t = Inr (vault_file_json ?vf)" "valid_utf8 t"
    unfolding json_laws_def vault_file_as_map vault_file.simps by blast+
  have okm: "hm_ok ?m" using assms(3,4) by (simp add: hm_ok_iter vault_ok_def)
  then have p: "ve_parse env p = Inr (string_map_json ?m)" using assms(2,5) unfolding json_laws_def by blast
  obtain m where m: "de_string_map (string_map_json ?m) = Some m" "hm_ok m" "map_of m = map_of ?m"
    using de_string_map_json [OF okm] by blast
  have "map_of ?m = map_of (va_secrets v)" using assms(3,4) by (simp add: map_of_iter vault_ok_def)
  moreover have "file_bytes (ve_crypto env) ?vf = Inr (va_salt v, nonce, c)"
    using assms(1,4) decrypt_encrypt(2) [OF assms(1,6)]
    by (simp add: file_bytes_def crypto_laws_def vault_ok_def)
  ultimately show ?thesis
    using t p m decrypt_encrypt(1) [OF assms(1,6)]
    unfolding holds_vault_def from_json_def by (auto simp: de_vault_file_json)
qed

lemma mkdirs_other:
  "q \<noteq> p \<Longrightarrow> map_of (nodes (snd (fs_mkdirs io p f))) q = map_of (nodes f) q"
  by (auto simp: fs_mkdirs_def split: option.split node.split)

lemma vault_save_ok:
  assumes "vault_save env path v (f, n) = (Inr (), (f', n'))"
  obtains f1 f2 p c nonce t where
    "fs_mkdirs (ve_io env) (path_parent path) f = (Inr (), f1)"
    "ve_print env (string_map_json (ve_it env (va_secrets v))) = Inr p"
    "encrypt (ve_crypto env) p (va_key v) n = (Inr (c, nonce), n')"
    "ve_pretty env (vault_file_json \<lparr>vf_salt = cr_hex_encode (ve_crypto env) (va_salt v),
      vf_nonce = cr_hex_encode (ve_crypto env) nonce, vf_ciphertext = cr_hex_encode (ve_crypto env) c\<rparr>) = Inr t"
    "fs_write (ve_io env) (with_extension ''tmp'' path) t f1 = (Inr (), f2)"
    "fs_rename (ve_io env) (with_extension ''tmp'' path) path f2 = (Inr (), f')"
  using assms by (auto simp: vault_save_def Let_def split: prod.splits sum.splits)

lemma vault_save_err:
  assumes "vault_save env vault_path v (f, n) = (Inl e, (f', n'))"
  shows "map_of (nodes f') vault_path = map_of (nodes f) vault_path"
proof -
  let ?tmp = "''/run/warden/secrets.tmp''" and ?io = "ve_io env"
  obtain r1 f1 where mk: "fs_mkdirs ?io ''/run/warden'' f = (r1, f1)" by fastforce
  have k1: "map_of (nodes f1) vault_path = map_of (nodes f) vault_path"
    using mkdirs_other [of vault_path "''/run/warden''" ?io f] mk by (simp add: vault_path_def)
  have k2: "map_of (nodes (snd (fs_write ?io ?tmp t f1))) vault_path = map_of (nodes f1) vault_path" for t
    by (rule fs_write_other) (simp add: vault_path_def)
  have k3: "nodes (snd (fs_rename ?io ?tmp vault_path g)) = nodes g"
    if "fst (fs_rename ?io ?tmp vault_path g) = Inl e'" for g e'
    using fs_rename_err that by (metis prod.collapse)
  from assms mk k1 k2 k3 show ?thesis
    by (auto simp: vault_save_def Let_def split: prod.splits sum.splits) (metis fst_conv snd_conv)+
qed

lemma vault_save_holds:
  assumes "crypto_laws (ve_crypto env)" and "json_laws env" and "is_iter (ve_it env)" and "vault_ok v"
    and "vault_save env vault_path v (f, n) = (Inr (), (f', n'))"
  shows "\<exists>t. file_of f' vault_path = Some t \<and> holds_vault env t v"
proof -
  obtain f1 f2 p c nonce t where s: "ve_print env (string_map_json (ve_it env (va_secrets v))) = Inr p"
    "encrypt (ve_crypto env) p (va_key v) n = (Inr (c, nonce), n')"
    "ve_pretty env (vault_file_json \<lparr>vf_salt = cr_hex_encode (ve_crypto env) (va_salt v),
      vf_nonce = cr_hex_encode (ve_crypto env) nonce, vf_ciphertext = cr_hex_encode (ve_crypto env) c\<rparr>) = Inr t"
    "fs_write (ve_io env) (with_extension ''tmp'' vault_path) t f1 = (Inr (), f2)"
    "fs_rename (ve_io env) (with_extension ''tmp'' vault_path) vault_path f2 = (Inr (), f')"
    by (rule vault_save_ok [OF assms(5)])
  have "holds_vault env t v" by (rule encoded_holds [OF assms(1-4) s(1-3)])
  moreover have "file_of f2 (with_extension ''tmp'' vault_path) = Some t" by (rule fs_write_ok [OF s(4)])
  moreover have "with_extension ''tmp'' vault_path \<noteq> vault_path" unfolding vault_paths by (simp add: vault_path_def)
  from fs_rename_ok [OF s(5) this] have "file_of f' vault_path = file_of f2 (with_extension ''tmp'' vault_path)"
    by (simp add: file_of_def)
  ultimately show ?thesis by metis
qed

lemma resolve_key_tick:
  "fst (resolve_key cr vars (\<lambda>_. None) salt (fs_tick f)) = fst (resolve_key cr vars (\<lambda>_. None) salt f)"
  by (auto simp: resolve_key_def fs_read_def fs_exists_def split: option.split)

lemma vault_load_holds:
  assumes "file_of f vault_path = Some t" and "holds_vault env t v"
    and "fst (resolve_key (ve_crypto env) (ve_vars env) (\<lambda>_. None) (Some (va_salt v)) f) = Inr (va_key v)"
  shows "\<exists>v' w. vault_load (env\<lparr>ve_io := \<lambda>_. None\<rparr>) vault_path (f, n) = (Inr v', w) \<and>
    map_of (va_secrets v') = map_of (va_secrets v) \<and> hm_ok (va_secrets v') \<and>
    va_key v' = va_key v \<and> va_salt v' = va_salt v"
proof -
  from assms(2) obtain vf nonce c p m where h: "valid_utf8 t" "from_json env de_vault_file t = Inr vf"
    "file_bytes (ve_crypto env) vf = Inr (va_salt v, nonce, c)" "decrypt (ve_crypto env) c (va_key v) nonce = Inr p"
    "from_json env de_string_map p = Inr m" "hm_ok m" "map_of m = map_of (va_secrets v)"
    unfolding holds_vault_def by blast
  have ex: "fs_exists vault_path f" using assms(1) by (auto simp: fs_exists_def file_of_def split: option.splits)
  have rd: "fs_read_string (\<lambda>_. None) vault_path f = (Inr t, fs_tick f)"
    using assms(1) h(1) by (simp add: fs_read_string_def fs_read_def)
  obtain f2 where rk: "resolve_key (ve_crypto env) (ve_vars env) (\<lambda>_. None) (Some (va_salt v)) (fs_tick f) = (Inr (va_key v), f2)"
    using assms(3) resolve_key_tick by (metis prod.collapse)
  have j': "from_json (env\<lparr>ve_io := \<lambda>_. None\<rparr>) de s = from_json env de s" for s and de :: "json \<Rightarrow> (string, string) hashmap option"
    by (auto simp: from_json_def split: sum.split option.split)
  have j'': "from_json (env\<lparr>ve_io := \<lambda>_. None\<rparr>) de s = from_json env de s" for s and de :: "json \<Rightarrow> vault_file option"
    by (auto simp: from_json_def split: sum.split option.split)
  have "vault_load (env\<lparr>ve_io := \<lambda>_. None\<rparr>) vault_path (f, n) =
      (Inr \<lparr>va_secrets = m, va_key = va_key v, va_salt = va_salt v\<rparr>, (f2, n))"
    using ex rd rk h(2-5) by (simp add: vault_load_def j' j'')
  with h(6,7) show ?thesis by auto
qed

section \<open>Properties\<close>

text \<open>
  C35: what is saved loads again. After a successful save of a vault, a load of the file that is not
  disturbed by I/O errors, by a process that resolves the same master key for the salt of the vault,
  returns the same secrets, key and salt, whatever the order in which the hash map was printed.
\<close>

theorem vault_roundtrip:
  assumes "crypto_laws (ve_crypto env)" and "json_laws env" and "is_iter (ve_it env)" and "vault_ok v"
    and "vault_save env vault_path v (f, n) = (Inr (), (f', n'))"
    and "fst (resolve_key (ve_crypto env) (ve_vars env) (\<lambda>_. None) (Some (va_salt v)) f') = Inr (va_key v)"
  shows "\<exists>v' w. vault_load (env\<lparr>ve_io := \<lambda>_. None\<rparr>) vault_path (f', n') = (Inr v', w) \<and>
    map_of (va_secrets v') = map_of (va_secrets v) \<and> va_key v' = va_key v \<and> va_salt v' = va_salt v"
proof -
  obtain t where "file_of f' vault_path = Some t" "holds_vault env t v"
    using vault_save_holds [OF assms(1-5)] by blast
  from vault_load_holds [OF this assms(6), of n'] show ?thesis by blast
qed

definition sample_crypto :: crypto_env where
  "sample_crypto = \<lparr>cr_random = (\<lambda>_ l. Some (replicate l (CHR ''r''))), cr_key_ok = (\<lambda>_. True),
     cr_seal = (\<lambda>_ _ p. Some p), cr_open = (\<lambda>_ _ c. Some c), cr_pbkdf2 = (\<lambda>_ _ _. replicate 32 (CHR ''d'')),
     cr_hex_encode = (\<lambda>s. s), cr_hex_decode = Some\<rparr>"

definition sample_vault :: vault where
  "sample_vault = \<lparr>va_secrets = [(''K'', ''V'')], va_key = replicate 32 (CHR ''d''), va_salt = replicate 16 (CHR ''s'')\<rparr>"

definition sample_file :: vault_file where
  "sample_file = \<lparr>vf_salt = replicate 16 (CHR ''s''), vf_nonce = replicate 12 (CHR ''r''), vf_ciphertext = ''p''\<rparr>"

definition sample_vault_env :: vault_env where
  "sample_vault_env = \<lparr>ve_crypto = sample_crypto, ve_vars = \<lparr>wv_key = None, wv_passphrase = Some ''pw''\<rparr>,
     ve_io = (\<lambda>_. None),
     ve_parse = (\<lambda>t. if t = ''p'' then Inr (string_map_json [(''K'', ''V'')])
       else if t = ''q'' then Inr (vault_file_json sample_file) else Inl ''bad''),
     ve_err = (\<lambda>_. ''shape''),
     ve_print = (\<lambda>v. if v = string_map_json [(''K'', ''V'')] then Inr ''p'' else Inl ''other''),
     ve_pretty = (\<lambda>v. if v = vault_file_json sample_file then Inr ''q'' else Inl ''other''),
     ve_it = (\<lambda>m. m)\<rparr>"

definition empty_fs :: fs where
  "empty_fs = \<lparr>nodes = [], fs_calls = 0\<rparr>"

lemma sample_vault_laws:
  "crypto_laws (ve_crypto sample_vault_env)" "json_laws sample_vault_env" "is_iter (ve_it sample_vault_env)"
  "vault_ok sample_vault"
proof -
  have "valid_utf8 ''q''" by (simp add: byte_def)
  moreover have "vault_file_json sample_file \<noteq> string_map_json [(''K'', ''V'')]"
    by (simp add: vault_file_json_def string_map_json_def)
  ultimately show "json_laws sample_vault_env" by (simp add: json_laws_def sample_vault_env_def)
qed (simp_all add: crypto_laws_def sample_vault_env_def sample_crypto_def vault_ok_def sample_vault_def hm_ok_def)

lemma sample_save:
  "\<exists>f' n'. vault_save sample_vault_env vault_path sample_vault (empty_fs, 0) = (Inr (), (f', n')) \<and>
     \<not> fs_exists master_key_path f'"
proof -
  have io: "ve_io sample_vault_env = (\<lambda>_. None)" by (simp add: sample_vault_env_def)
  have p: "ve_print sample_vault_env (string_map_json (ve_it sample_vault_env (va_secrets sample_vault))) = Inr ''p''"
    by (simp add: sample_vault_env_def sample_vault_def)
  have e: "encrypt (ve_crypto sample_vault_env) ''p'' (va_key sample_vault) 0 = (Inr (''p'', replicate 12 (CHR ''r'')), 1)"
    by (simp add: encrypt_def sample_vault_env_def sample_crypto_def)
  have y: "ve_pretty sample_vault_env (vault_file_json \<lparr>vf_salt = cr_hex_encode (ve_crypto sample_vault_env) (va_salt sample_vault),
      vf_nonce = cr_hex_encode (ve_crypto sample_vault_env) (replicate 12 (CHR ''r'')),
      vf_ciphertext = cr_hex_encode (ve_crypto sample_vault_env) ''p''\<rparr>) = Inr ''q''"
    by (simp add: sample_vault_env_def sample_crypto_def sample_file_def sample_vault_def)
  have mk: "fs_mkdirs (\<lambda>_. None) ''/run/warden'' empty_fs = (Inr (), set_node ''/run/warden'' Dir (fs_tick empty_fs))"
    by (simp add: fs_mkdirs_def empty_fs_def)
  show ?thesis
    unfolding vault_save_def Let_def prod.case io p
    by (simp add: mk e y) (simp add: fs_write_def fs_rename_def fs_exists_def empty_fs_def
      master_key_path_def vault_path_def vault_paths(2) [unfolded vault_path_def])
qed

theorem vault_roundtrip_witness:
  "\<exists>f' n' v' w. vault_save sample_vault_env vault_path sample_vault (empty_fs, 0) = (Inr (), (f', n')) \<and>
     vault_load (sample_vault_env\<lparr>ve_io := \<lambda>_. None\<rparr>) vault_path (f', n') = (Inr v', w) \<and>
     map_of (va_secrets v') ''K'' = Some ''V''"
proof -
  obtain f' n' where s: "vault_save sample_vault_env vault_path sample_vault (empty_fs, 0) = (Inr (), (f', n'))"
    and k: "\<not> fs_exists master_key_path f'" using sample_save by blast
  have "fst (resolve_key (ve_crypto sample_vault_env) (ve_vars sample_vault_env) (\<lambda>_. None) (Some (va_salt sample_vault)) f') =
      Inr (va_key sample_vault)"
    using k by (simp add: resolve_key_def sample_vault_env_def sample_vault_def derive_key_def sample_crypto_def)
  from vault_roundtrip [OF sample_vault_laws s this] s show ?thesis by (auto simp: sample_vault_def)
qed

end
