(* ===== verification/Warden.thy ===== *)
theory Warden
  imports Vault
begin

text \<open>
  Model of \<open>pkg/warden/src/main.rs\<close>: the secret vault's daemon, its requests, its start and its loop over
  connections, one after the other. The lemmas show what an agent can get, and how the vault file
  follows the secrets in memory.
\<close>

section \<open>State and requests\<close>

record warden =
  wd_vault :: vault
  wd_world :: vault_world

definition warden_socket :: string where
  "warden_socket = ''/run/warden.sock''"

definition ok_json :: json where
  "ok_json = JObj [(''ok'', JBool True)]"

definition key_field :: "json \<Rightarrow> string option" where
  "key_field req = (case str_field req ''key'' of Some k \<Rightarrow> (if k \<noteq> [] then Some k else None) | None \<Rightarrow> None)"

definition missing_key :: json where
  "missing_key = error_json (''missing or empty '' @ quote ''key'' @ '' field'')"

definition handle_get_secrets :: "vault_env \<Rightarrow> json \<Rightarrow> warden \<Rightarrow> json" where
  "handle_get_secrets env req st =
     JObj [(''ok'', JBool True),
           (''secrets'', string_map_json (ve_it env (vault_get (strings_of req ''credential_refs'') (wd_vault st))))]"

definition save_answer :: "vault_env \<Rightarrow> vault \<Rightarrow> warden \<Rightarrow> warden \<times> json" where
  "save_answer env v st =
     (case vault_save env vault_path v (wd_world st) of
        (Inr _, w) \<Rightarrow> (st\<lparr>wd_vault := v, wd_world := w\<rparr>, ok_json)
      | (Inl e, w) \<Rightarrow> (st\<lparr>wd_vault := v, wd_world := w\<rparr>, error_json (''save failed: '' @ show_vault_error e)))"

definition warden_handle_set :: "vault_env \<Rightarrow> json \<Rightarrow> warden \<Rightarrow> warden \<times> json" where
  "warden_handle_set env req st =
     (case key_field req of
        None \<Rightarrow> (st, missing_key)
      | Some k \<Rightarrow>
          (case str_field req ''value'' of
             None \<Rightarrow> (st, error_json (''missing '' @ quote ''value'' @ '' field''))
           | Some x \<Rightarrow> save_answer env (vault_set k x (wd_vault st)) st))"

definition warden_handle_delete :: "vault_env \<Rightarrow> json \<Rightarrow> warden \<Rightarrow> warden \<times> json" where
  "warden_handle_delete env req st =
     (case key_field req of
        None \<Rightarrow> (st, missing_key)
      | Some k \<Rightarrow>
          (let (found, v) = vault_delete k (wd_vault st)
           in if \<not> found then (st\<lparr>wd_vault := v\<rparr>, error_json (''key '' @ quote k @ '' not found''))
              else save_answer env v st))"

definition warden_handle_list :: "vault_env \<Rightarrow> warden \<Rightarrow> json" where
  "warden_handle_list env st = JObj [(''keys'', strs (list_keys env (wd_vault st)))]"

definition warden_step :: "vault_env \<Rightarrow> string \<Rightarrow> warden \<Rightarrow> warden \<times> json option \<times> bool" where
  "warden_step env l st =
     (case ve_parse env l of
        Inl _ \<Rightarrow> (st, Some (error_json ''invalid JSON''), False)
      | Inr req \<Rightarrow>
          (let m = str_or [] req ''method'';
               (st', r) =
                 (if m = ''get-secrets'' then (st, handle_get_secrets env req st)
                  else if m = ''set'' then warden_handle_set env req st
                  else if m = ''delete'' then warden_handle_delete env req st
                  else if m = ''list'' then (st, warden_handle_list env st)
                  else (st, error_json (''unknown method: '' @ m)))
           in (st', Some r, True)))"

section \<open>Start-up\<close>

text \<open>The failure of the first \<open>create_dir_all\<close> is ignored.\<close>

definition warden_start :: "vault_env \<Rightarrow> fs \<Rightarrow> (string + warden) \<times> fs" where
  "warden_start env f =
     (let (_, f0) = fs_mkdirs (ve_io env) ''/run/warden'' f
      in case vault_load env vault_path (f0, 0) of
           (Inl e, (f1, _)) \<Rightarrow> (Inl (show_vault_error e), f1)
         | (Inr v, (f1, n)) \<Rightarrow>
             (case open_socket (ve_io env) warden_socket f1 of
                (Inl e, f2) \<Rightarrow> (Inl e, f2)
              | (Inr _, f2) \<Rightarrow> (Inr \<lparr>wd_vault = v, wd_world = (f2, n)\<rparr>, f2)))"

definition warden_run :: "vault_env \<Rightarrow> fs \<Rightarrow> conn list \<Rightarrow> string + warden" where
  "warden_run env f cs =
     (case warden_start env f of
        (Inl e, _) \<Rightarrow> Inl e
      | (Inr st, _) \<Rightarrow> Inr (serve_conns (warden_step env) cs st))"

text \<open>\<open>main\<close>: the exit code of the process, \<open>None\<close> if it goes on.\<close>

definition warden_main :: "vault_env \<Rightarrow> fs \<Rightarrow> nat option" where
  "warden_main env f = (case fst (warden_start env f) of Inl _ \<Rightarrow> Some 1 | Inr _ \<Rightarrow> None)"

section \<open>Invariant\<close>

text \<open>
  The vault is well-formed and keeps its key and salt, and the file, if there is one, is a vault with
  that key and salt.
\<close>

definition warden_inv :: "vault_env \<Rightarrow> string \<Rightarrow> string \<Rightarrow> warden \<Rightarrow> bool" where
  "warden_inv env key salt st \<longleftrightarrow> vault_ok (wd_vault st) \<and> va_key (wd_vault st) = key \<and> va_salt (wd_vault st) = salt \<and>
     (case map_of (nodes (fst (wd_world st))) vault_path of
        None \<Rightarrow> True
      | Some n \<Rightarrow> \<exists>t m v. n = File t m \<and> holds_vault env t v \<and> va_key v = key \<and> va_salt v = salt)"

definition warden_env :: "vault_env \<Rightarrow> bool" where
  "warden_env env \<longleftrightarrow> crypto_laws (ve_crypto env) \<and> json_laws env \<and> is_iter (ve_it env)"

lemma vault_set_simps [simp]:
  "vault_ok v \<Longrightarrow> vault_ok (vault_set k x v)" "va_key (vault_set k x v) = va_key v" "va_salt (vault_set k x v) = va_salt v"
  "map_of (va_secrets (vault_set k x v)) = (map_of (va_secrets v))(k \<mapsto> x)"
  by (simp_all add: vault_set_def vault_ok_def)

lemma vault_delete_simps [simp]:
  "vault_ok v \<Longrightarrow> vault_ok (snd (vault_delete k v))" "va_key (snd (vault_delete k v)) = va_key v"
  "va_salt (snd (vault_delete k v)) = va_salt v"
  "map_of (va_secrets (snd (vault_delete k v))) = (map_of (va_secrets v))(k := None)"
  "fst (vault_delete k v) = (map_of (va_secrets v) k \<noteq> None)"
  by (simp_all add: vault_delete_def vault_ok_def)

lemma save_answer_cases:
  assumes "warden_env env" and "vault_ok v" and "save_answer env v st = (st', r)"
  shows "wd_vault st' = v \<and>
    (if get r ''ok'' = Some (JBool True)
     then \<exists>t m. map_of (nodes (fst (wd_world st'))) vault_path = Some (File t m) \<and> holds_vault env t v
     else map_of (nodes (fst (wd_world st'))) vault_path = map_of (nodes (fst (wd_world st))) vault_path)"
proof -
  obtain f n where w: "wd_world st = (f, n)" by (cases "wd_world st")
  obtain res f' n' where s: "vault_save env vault_path v (f, n) = (res, (f', n'))"
    by (metis prod.collapse)
  show ?thesis
  proof (cases res)
    case (Inl e)
    with s w assms(3) have "st' = st\<lparr>wd_vault := v, wd_world := (f', n')\<rparr>" "get r ''ok'' = None"
      by (auto simp: save_answer_def)
    with vault_save_err [of env v f n e f' n'] s Inl w show ?thesis by simp
  next
    case (Inr u)
    with s w assms(3) have st: "st' = st\<lparr>wd_vault := v, wd_world := (f', n')\<rparr>" "get r ''ok'' = Some (JBool True)"
      by (auto simp: save_answer_def ok_json_def)
    from vault_save_holds [of env v f n f' n'] assms(1,2) s Inr obtain t
      where "file_of f' vault_path = Some t" "holds_vault env t v" by (auto simp: warden_env_def)
    with st show ?thesis by (auto simp: file_of_def split: option.splits node.splits)
  qed
qed

lemma save_answer_inv:
  assumes "warden_env env" and "warden_inv env key salt st" and "vault_ok v" and "va_key v = key" and "va_salt v = salt"
  shows "warden_inv env key salt (fst (save_answer env v st))"
proof -
  obtain st' r where s: "save_answer env v st = (st', r)" by fastforce
  from save_answer_cases [OF assms(1,3) s] assms(2-5) s show ?thesis
    by (cases "get r ''ok'' = Some (JBool True)") (auto simp: warden_inv_def)
qed

lemma warden_step_inv:
  assumes "warden_env env" and "warden_inv env key salt st"
  shows "warden_inv env key salt (fst (warden_step env l st))"
proof -
  have v: "vault_ok (wd_vault st)" "va_key (wd_vault st) = key" "va_salt (wd_vault st) = salt"
    using assms(2) by (auto simp: warden_inv_def)
  have set: "warden_inv env key salt (fst (warden_handle_set env req st))" for req
    using assms v by (auto simp: warden_handle_set_def save_answer_inv split: option.split)
  have del: "warden_inv env key salt (fst (warden_handle_delete env req st))" for req
  proof (cases "key_field req")
    case (Some k)
    have "warden_inv env key salt (st\<lparr>wd_vault := snd (vault_delete k (wd_vault st))\<rparr>)"
      using assms(2) v by (simp add: warden_inv_def)
    with Some assms v show ?thesis by (simp add: warden_handle_delete_def split_beta save_answer_inv)
  qed (simp add: warden_handle_delete_def assms(2))
  show ?thesis
    using assms(2) set del by (auto simp: warden_step_def Let_def split_beta split: sum.split)
qed

interpretation warden_srv: line_service "warden_step env"
    "\<lambda>st. warden_env env \<and> warden_inv env key salt st" "\<lambda>_. True"
  for env key salt
  by unfold_locales (metis warden_step_inv fst_conv, rule TrueI)

section \<open>Start-up establishes the invariant\<close>

lemma de_string_map_ok: "de_string_map v = Some m \<Longrightarrow> hm_ok m"
  by (auto simp: de_string_map_def hm_ok_fold_update split: json.splits)

lemma fs_read_nodes [simp]: "nodes (snd (fs_read io p f)) = nodes f"
  by (auto simp: fs_read_def split: option.split)

lemma fs_read_string_ok:
  "fs_read_string io p f = (Inr t, f1) \<Longrightarrow> file_of f p = Some t \<and> valid_utf8 t \<and> nodes f1 = nodes f"
  by (auto simp: fs_read_string_def fs_read_def split: option.splits if_splits)

lemma vault_load_new:
  assumes "\<not> fs_exists path f" and "vault_load env path (f, n) = (Inr v, (f', n'))"
  shows "va_secrets v = [] \<and> nodes f' = nodes f \<and> (\<exists>k. cr_random (ve_crypto env) k 16 = Some (va_salt v))"
proof -
  from assms obtain salt key where "cr_random (ve_crypto env) n 16 = Some salt"
    "resolve_key (ve_crypto env) (ve_vars env) (ve_io env) (Some salt) f = (Inr key, f')"
    "v = \<lparr>va_secrets = [], va_key = key, va_salt = salt\<rparr>"
    by (auto simp: vault_load_def generate_salt_def Let_def split: option.splits sum.splits prod.splits)
  then show ?thesis using resolve_key_nodes by (metis snd_conv vault.select_convs(1,3))
qed

lemma vault_load_old:
  assumes "fs_exists path f" and "vault_load env path (f, n) = (Inr v, (f', n'))"
  obtains t where "file_of f path = Some t" "holds_vault env t v" "vault_ok v" "nodes f' = nodes f"
proof -
  from assms obtain t f1 vf salt nonce c key p m where l: "fs_read_string (ve_io env) path f = (Inr t, f1)"
    "from_json env de_vault_file t = Inr vf" "file_bytes (ve_crypto env) vf = Inr (salt, nonce, c)"
    "resolve_key (ve_crypto env) (ve_vars env) (ve_io env) (Some salt) f1 = (Inr key, f')"
    "decrypt (ve_crypto env) c key nonce = Inr p" "from_json env de_string_map p = Inr m"
    "v = \<lparr>va_secrets = m, va_key = key, va_salt = salt\<rparr>"
    by (auto simp: vault_load_def Let_def split: sum.splits prod.splits)
  have m: "hm_ok m" using l(6) by (auto simp: from_json_def de_string_map_ok split: sum.splits option.splits)
  have "length salt = 16" using l(3) by (auto simp: file_bytes_def split: option.splits if_splits)
  with m l(7) have "vault_ok v" by (simp add: vault_ok_def)
  moreover from fs_read_string_ok [OF l(1)] have t: "file_of f path = Some t" "valid_utf8 t" "nodes f1 = nodes f" by auto
  moreover have "holds_vault env t v"
    unfolding holds_vault_def using t(2) l(2,3,5,6,7) m by auto
  moreover have "nodes f' = nodes f" using resolve_key_nodes l(4) t(3) by (metis snd_conv)
  ultimately show thesis using that by blast
qed

lemma warden_start_inv:
  assumes "warden_env env" and "warden_start env f = (Inr st, f')"
  shows "warden_inv env (va_key (wd_vault st)) (va_salt (wd_vault st)) st"
proof -
  obtain r0 f0 where mk: "fs_mkdirs (ve_io env) ''/run/warden'' f = (r0, f0)" by fastforce
  from assms(2) mk obtain v f1 n f2 where l: "vault_load env vault_path (f0, 0) = (Inr v, (f1, n))"
    "open_socket (ve_io env) warden_socket f1 = (Inr (), f2)" "st = \<lparr>wd_vault = v, wd_world = (f2, n)\<rparr>"
    by (auto simp: warden_start_def split: prod.splits sum.splits)
  have keep: "map_of (nodes f2) vault_path = map_of (nodes f1) vault_path"
    using open_socket_ok [OF l(2)] by (simp add: vault_path_def warden_socket_def)
  show ?thesis
  proof (cases "fs_exists vault_path f0")
    case False
    from vault_load_new [OF False l(1)] obtain k where "va_secrets v = []" "nodes f1 = nodes f0"
      "cr_random (ve_crypto env) k 16 = Some (va_salt v)" by blast
    moreover from this(3) have "length (va_salt v) = 16"
      using assms(1) by (auto simp: warden_env_def crypto_laws_def)
    ultimately show ?thesis using False l(3) keep by (simp add: warden_inv_def vault_ok_def fs_exists_def)
  next
    case True
    obtain t where t: "file_of f0 vault_path = Some t" "holds_vault env t v" "vault_ok v" "nodes f1 = nodes f0"
      by (rule vault_load_old [OF True l(1)])
    then show ?thesis using l(3) keep
      by (auto simp: warden_inv_def file_of_def split: option.splits node.splits)
  qed
qed

section \<open>Properties\<close>

lemma map_of_requested:
  "map_of (rev (List.map_filter (\<lambda>k. map_option (\<lambda>x. (k, x)) (m k)) ks)) k = (if k \<in> set ks then m k else None)"
  by (induction ks) (auto simp: map_filter_simps map_add_def split: option.splits if_splits)

lemma map_of_string_map: "map_of (map (\<lambda>(k, v). (k, JStr v)) m) k = map_option JStr (map_of m k)"
  by (induction m) auto

text \<open>
  An agent gets what it asks for and nothing else. The answer to \<open>get-secrets\<close> has, for each name
  in \<open>credential_refs\<close> that is a secret, its value, and no other member; the request changes nothing.
\<close>

lemma secrets_confined:
  assumes "is_iter (ve_it env)" and "ve_parse env l = Inr req" and "str_or [] req ''method'' = ''get-secrets''"
  shows "\<exists>ms. warden_step env l st = (st, Some (JObj [(''ok'', JBool True), (''secrets'', JObj ms)]), True) \<and>
    distinct (map fst ms) \<and>
    map_of ms = (\<lambda>k. if k \<in> set (strings_of req ''credential_refs'')
      then map_option JStr (map_of (va_secrets (wd_vault st)) k) else None)"
proof -
  let ?g = "vault_get (strings_of req ''credential_refs'') (wd_vault st)"
  have ok: "hm_ok ?g" by (simp add: vault_get_def hm_ok_fold_update)
  then have "map_of (ve_it env ?g) = map_of ?g" using assms(1) by (simp add: map_of_iter)
  then have "map_of (map (\<lambda>(k, v). (k, JStr v)) (ve_it env ?g)) = (\<lambda>k. if k \<in> set (strings_of req ''credential_refs'')
      then map_option JStr (map_of (va_secrets (wd_vault st)) k) else None)"
    by (auto simp: fun_eq_iff map_of_string_map vault_get_def map_of_fold_update_const map_of_requested split: option.split)
  moreover have "distinct (map fst (map (\<lambda>(k, v). (k, JStr v)) (ve_it env ?g)))"
    using hm_ok_iter [OF assms(1) ok] by (simp add: hm_ok_def split_beta comp_def)
  ultimately show ?thesis
    using assms(2,3) by (auto simp: warden_step_def handle_get_secrets_def string_map_json_def)
qed

text \<open>
  What an answer to \<open>set\<close> means. After \<open>ok\<close> the file holds exactly the secrets in memory, the new
  one included. After an error from saving, the secret is set in memory all the same, while the file is
  the old one: agents get a secret that a restart forgets.
\<close>

lemma set_answer_meaning:
  assumes "warden_env env" and "vault_ok (wd_vault st)" and "key_field req = Some k" and "str_field req ''value'' = Some x"
    and "warden_handle_set env req st = (st', r)"
  shows "map_of (va_secrets (wd_vault st')) = (map_of (va_secrets (wd_vault st)))(k \<mapsto> x) \<and>
    (if get r ''ok'' = Some (JBool True)
     then \<exists>t. file_of (fst (wd_world st')) vault_path = Some t \<and> holds_vault env t (wd_vault st')
     else get r ''error'' \<noteq> None \<and> file_of (fst (wd_world st')) vault_path = file_of (fst (wd_world st)) vault_path)"
proof -
  have s: "save_answer env (vault_set k x (wd_vault st)) st = (st', r)"
    using assms(3-5) by (simp add: warden_handle_set_def)
  have e: "get r ''error'' \<noteq> None" if "get r ''ok'' \<noteq> Some (JBool True)"
    using s that by (auto simp: save_answer_def ok_json_def split: prod.splits sum.splits)
  from save_answer_cases [OF assms(1) _ s] assms(2) e show ?thesis
    by (auto simp: file_of_def)
qed

text \<open>
  C36: the vault on disk is never torn or lost. After any start and any connections, whatever writes
  failed on the way, the vault file, if there is one, loads again in a process that resolves the same
  master key, and gives a vault with the key and the salt of the running daemon.
\<close>

theorem vault_file_always_loads:
  assumes "warden_env env" and "warden_run env f cs = Inr st" and "wd_world st = (g, n)" and "fs_exists vault_path g"
    and "fst (resolve_key (ve_crypto env) (ve_vars env) (\<lambda>_. None) (Some (va_salt (wd_vault st))) g) = Inr (va_key (wd_vault st))"
  shows "\<exists>v w. vault_load (env\<lparr>ve_io := \<lambda>_. None\<rparr>) vault_path (g, n) = (Inr v, w) \<and>
    va_key v = va_key (wd_vault st) \<and> va_salt v = va_salt (wd_vault st)"
proof -
  from assms(2) obtain st0 f0 where s: "warden_start env f = (Inr st0, f0)" "st = serve_conns (warden_step env) cs st0"
    by (auto simp: warden_run_def split: prod.splits sum.splits)
  let ?k = "va_key (wd_vault st0)" and ?s = "va_salt (wd_vault st0)"
  have "warden_inv env ?k ?s st"
    using warden_srv.serve_all [of env ?k ?s st0 cs] warden_start_inv [OF assms(1) s(1)] assms(1) s(2) by simp
  with assms(3,4) obtain t m v where v: "map_of (nodes g) vault_path = Some (File t m)" "holds_vault env t v"
    "va_key v = va_key (wd_vault st)" "va_salt v = va_salt (wd_vault st)"
    by (auto simp: warden_inv_def fs_exists_def split: option.splits)
  from v(1) have "file_of g vault_path = Some t" by (simp add: file_of_def)
  from vault_load_holds [OF this v(2), of n] assms(5) v(3,4) show ?thesis by auto
qed

definition sample_get :: json where
  "sample_get = JObj [(''method'', JStr ''get-secrets''), (''agent'', JStr ''a''), (''credential_refs'', strs [''K'', ''X''])]"

text \<open>An environment whose parser reads one line as a given request.\<close>

definition warden_env_with :: "json \<Rightarrow> vault_env" where
  "warden_env_with req = sample_vault_env\<lparr>ve_parse := \<lambda>t. if t = ''g'' then Inr req else ve_parse sample_vault_env t\<rparr>"

definition sample_warden_env :: vault_env where
  "sample_warden_env = warden_env_with sample_get"

definition sample_warden :: "fs \<Rightarrow> warden" where
  "sample_warden f = \<lparr>wd_vault = sample_vault, wd_world = (f, 0)\<rparr>"

definition stored_fs :: fs where
  "stored_fs = \<lparr>nodes = [(vault_path, File ''q'' 420)], fs_calls = 0\<rparr>"

lemma warden_env_with: "warden_env (warden_env_with req)"
proof -
  have "vault_file_json sample_file \<noteq> string_map_json [(''K'', ''V'')]"
    by (simp add: vault_file_json_def string_map_json_def)
  moreover have "valid_utf8 ''q''" by (simp add: byte_def)
  ultimately show ?thesis
    using sample_vault_laws
    by (simp add: warden_env_def json_laws_def warden_env_with_def sample_vault_env_def)
qed

lemma sample_warden_env: "warden_env sample_warden_env"
  by (simp add: sample_warden_env_def warden_env_with)

lemma sample_get_step: "\<exists>r. warden_step sample_warden_env ''g'' st = (st, Some r, True)"
proof -
  have "ve_parse sample_warden_env ''g'' = Inr sample_get" "str_or [] sample_get ''method'' = ''get-secrets''"
    by (simp_all add: sample_warden_env_def warden_env_with_def sample_get_def str_or_def)
  then show ?thesis by (simp add: warden_step_def)
qed

lemma sample_warden_start:
  "\<exists>f' n. warden_start sample_warden_env stored_fs = (Inr \<lparr>wd_vault = sample_vault, wd_world = (f', n)\<rparr>, f') \<and>
     fs_exists vault_path f' \<and> \<not> fs_exists master_key_path f'"
proof -
  let ?e = "sample_warden_env"
  have io: "ve_io ?e = (\<lambda>_. None)" by (simp add: sample_warden_env_def warden_env_with_def sample_vault_env_def)
  define f0 where "f0 = set_node ''/run/warden'' Dir (fs_tick stored_fs)"
  have mk: "fs_mkdirs (\<lambda>_. None) ''/run/warden'' stored_fs = (Inr (), f0)"
    by (simp add: fs_mkdirs_def stored_fs_def vault_path_def f0_def)
  have f0: "file_of f0 vault_path = Some ''q''" "fs_exists vault_path f0" "\<not> fs_exists master_key_path f0"
    by (simp_all add: f0_def stored_fs_def file_of_def fs_exists_def vault_path_def master_key_path_def)
  have rd: "fs_read_string (\<lambda>_. None) vault_path f0 = (Inr ''q'', fs_tick f0)"
    using f0(1) by (simp add: fs_read_string_def fs_read_def byte_def)
  have vf: "from_json ?e de_vault_file ''q'' = Inr sample_file"
    by (simp add: from_json_def sample_warden_env_def warden_env_with_def sample_vault_env_def de_vault_file_json)
  have fb: "file_bytes (ve_crypto ?e) sample_file = Inr (replicate 16 (CHR ''s''), replicate 12 (CHR ''r''), ''p'')"
    by (simp add: file_bytes_def sample_warden_env_def warden_env_with_def sample_vault_env_def sample_crypto_def sample_file_def)
  have rk: "resolve_key (ve_crypto ?e) (ve_vars ?e) (\<lambda>_. None) (Some s) (fs_tick f0) =
      (Inr (replicate 32 (CHR ''d'')), fs_tick f0)" for s
    using f0(3) by (simp add: resolve_key_def fs_exists_def sample_warden_env_def warden_env_with_def sample_vault_env_def sample_crypto_def derive_key_def)
  have dc: "decrypt (ve_crypto ?e) c k n = Inr c" for c k n
    by (simp add: decrypt_def sample_warden_env_def warden_env_with_def sample_vault_env_def sample_crypto_def)
  have sm: "from_json ?e de_string_map ''p'' = Inr [(''K'', ''V'')]"
    by (simp add: from_json_def sample_warden_env_def warden_env_with_def sample_vault_env_def string_map_json_def de_string_map_def)
  have ld: "vault_load ?e vault_path (f0, 0) = (Inr sample_vault, (fs_tick f0, 0))"
    unfolding vault_load_def Let_def prod.case io using f0(2)
    by (simp add: rd vf fb rk dc sm sample_vault_def)
  obtain f2 where os: "open_socket (\<lambda>_. None) warden_socket (fs_tick f0) = (Inr (), f2)"
    by (simp add: open_socket_def fs_bind_def fs_chmod_def fs_exists_def f0_def stored_fs_def warden_socket_def vault_path_def)
  have "fs_exists vault_path f2" "\<not> fs_exists master_key_path f2"
    using open_socket_ok [OF os] f0 by (simp_all add: fs_exists_def warden_socket_def vault_path_def master_key_path_def)
  then show ?thesis by (simp add: warden_start_def io mk ld os)
qed

theorem vault_file_always_loads_witness:
  "\<exists>st v w. warden_run sample_warden_env stored_fs [\<lparr>c_bytes = ''g'', c_open = False\<rparr>] = Inr st \<and>
     vault_load (sample_warden_env\<lparr>ve_io := \<lambda>_. None\<rparr>) vault_path (wd_world st) = (Inr v, w) \<and>
     va_key v = va_key sample_vault"
proof -
  let ?c = "\<lparr>c_bytes = ''g'', c_open = False\<rparr>" and ?e = sample_warden_env
  obtain f' n where s: "warden_start ?e stored_fs = (Inr \<lparr>wd_vault = sample_vault, wd_world = (f', n)\<rparr>, f')"
    "fs_exists vault_path f'" "\<not> fs_exists master_key_path f'" using sample_warden_start by blast
  let ?st = "\<lparr>wd_vault = sample_vault, wd_world = (f', n)\<rparr>"
  have "request_lines ?c = [Inr ''g'']" by (simp add: request_lines_short read_limit_def is_ascii_def byte_def)
  then have r: "warden_run ?e stored_fs [?c] = Inr ?st"
    using sample_get_step [of ?st] s(1) by (auto simp: warden_run_def serve_conn_def line_loop_fst)
  have k: "fst (resolve_key (ve_crypto ?e) (ve_vars ?e) (\<lambda>_. None) (Some (va_salt (wd_vault ?st))) f') = Inr (va_key (wd_vault ?st))"
    using s(3) by (simp add: resolve_key_def sample_warden_env_def warden_env_with_def sample_vault_env_def sample_vault_def derive_key_def sample_crypto_def)
  have "wd_world ?st = (f', n)" by simp
  from vault_file_always_loads [OF sample_warden_env r this s(2) k] r show ?thesis by auto
qed

end
