(* ===== verification/Krun.thy ===== *)
theory Krun
  imports Serde
begin

text \<open>
  Model of \<open>pkg/cage/src/krun.rs\<close>: the configuration of a microVM, its JSON form, and the sequence of
  libkrun calls that sets a context up and enters the VM. libkrun is a parameter: what each call
  returns, given the calls before it, and whether entering the VM succeeds (then it never returns).
\<close>

section \<open>Configuration\<close>

record virtiofs_mount =
  vm_tag :: string
  vm_host_path :: string

record vm_config =
  vc_name :: string
  vc_vcpus :: u8
  vc_ram_mib :: u32
  vc_root_path :: string
  vc_exec_path :: string
  vc_args :: "string list"
  vc_env :: "string list"
  vc_port_map :: "string list"
  vc_workdir :: string
  vc_virtiofs :: "virtiofs_mount list"
  vc_rlimits :: "string list"
  vc_console :: "string option"
  vc_manifest :: "string option"

datatype krun_error =
    CreateCtxFailed int
  | SetVmConfigFailed int
  | SetRootFailed int
  | SetExecFailed int
  | StartEnterFailed int
  | NulError nat
  | AddVirtiofsFailed int
  | SetRlimitsFailed int
  | SetConsoleOutputFailed int
  | Other string

fun show_krun_error :: "krun_error \<Rightarrow> string" where
  "show_krun_error (CreateCtxFailed r) = ''krun_create_ctx failed: '' @ show_int r"
| "show_krun_error (SetVmConfigFailed r) = ''krun_set_vm_config failed: '' @ show_int r"
| "show_krun_error (SetRootFailed r) = ''krun_set_root failed: '' @ show_int r"
| "show_krun_error (SetExecFailed r) = ''krun_set_exec failed: '' @ show_int r"
| "show_krun_error (StartEnterFailed r) = ''krun_start_enter failed: '' @ show_int r"
| "show_krun_error (NulError n) =
     ''nul byte in string: nul byte found in provided data at position: '' @ show_nat n"
| "show_krun_error (AddVirtiofsFailed r) = ''krun_add_virtiofs failed: '' @ show_int r"
| "show_krun_error (SetRlimitsFailed r) = ''krun_set_rlimits failed: '' @ show_int r"
| "show_krun_error (SetConsoleOutputFailed r) = ''krun_set_console_output failed: '' @ show_int r"
| "show_krun_error (Other m) = ''libkrun call failed: '' @ m"

section \<open>JSON form\<close>

definition option_json :: "string option \<Rightarrow> json" where
  "option_json x = (case x of None \<Rightarrow> JNull | Some s \<Rightarrow> JStr s)"

definition mount_json :: "virtiofs_mount \<Rightarrow> json" where
  "mount_json m = JObj [(''tag'', JStr (vm_tag m)), (''host_path'', JStr (vm_host_path m))]"

definition vm_config_json :: "vm_config \<Rightarrow> json" where
  "vm_config_json c =
     JObj [(''name'', JStr (vc_name c)), (''vcpus'', JNum (uint (vc_vcpus c))), (''ram_mib'', JNum (uint (vc_ram_mib c))),
           (''root_path'', JStr (vc_root_path c)), (''exec_path'', JStr (vc_exec_path c)), (''args'', strs (vc_args c)),
           (''env'', strs (vc_env c)), (''port_map'', strs (vc_port_map c)), (''workdir'', JStr (vc_workdir c)),
           (''virtiofs_mounts'', JArr (map mount_json (vc_virtiofs c))), (''rlimits'', strs (vc_rlimits c)),
           (''console_output'', option_json (vc_console c)), (''manifest_toml'', option_json (vc_manifest c))]"

definition de_mount :: "json \<Rightarrow> virtiofs_mount option" where
  "de_mount v =
     Option.bind (struct_fields [''tag'', ''host_path''] v) (\<lambda>f.
     Option.bind (required f ''tag'' as_str) (\<lambda>t.
     Option.bind (required f ''host_path'' as_str) (\<lambda>p. Some \<lparr>vm_tag = t, vm_host_path = p\<rparr>)))"

definition de_mounts :: "json \<Rightarrow> virtiofs_mount list option" where
  "de_mounts v = (case v of JArr xs \<Rightarrow> opt_all (map de_mount xs) | _ \<Rightarrow> None)"

definition de_opt_string :: "json \<Rightarrow> string option option" where
  "de_opt_string v = (case v of JNull \<Rightarrow> Some None | _ \<Rightarrow> map_option Some (as_str v))"

definition vm_config_names :: "string list" where
  "vm_config_names = [''name'', ''vcpus'', ''ram_mib'', ''root_path'', ''exec_path'', ''args'', ''env'', ''port_map'',
     ''workdir'', ''virtiofs_mounts'', ''rlimits'', ''console_output'', ''manifest_toml'']"

definition de_vm_config :: "json \<Rightarrow> vm_config option" where
  "de_vm_config v =
     Option.bind (struct_fields vm_config_names v) (\<lambda>f.
     Option.bind (required f ''name'' as_str) (\<lambda>name.
     Option.bind (required f ''vcpus'' de_u8) (\<lambda>vcpus.
     Option.bind (required f ''ram_mib'' de_u32) (\<lambda>ram.
     Option.bind (required f ''root_path'' as_str) (\<lambda>root.
     Option.bind (required f ''exec_path'' as_str) (\<lambda>exec.
     Option.bind (required f ''args'' de_strings) (\<lambda>args.
     Option.bind (required f ''env'' de_strings) (\<lambda>env.
     Option.bind (required f ''port_map'' de_strings) (\<lambda>ports.
     Option.bind (required f ''workdir'' as_str) (\<lambda>wd.
     Option.bind (defaulted f ''virtiofs_mounts'' de_mounts []) (\<lambda>ms.
     Option.bind (defaulted f ''rlimits'' de_strings []) (\<lambda>rl.
     Option.bind (defaulted f ''console_output'' de_opt_string None) (\<lambda>con.
     Option.bind (defaulted f ''manifest_toml'' de_opt_string None) (\<lambda>mt.
     Some \<lparr>vc_name = name, vc_vcpus = vcpus, vc_ram_mib = ram, vc_root_path = root, vc_exec_path = exec,
           vc_args = args, vc_env = env, vc_port_map = ports, vc_workdir = wd, vc_virtiofs = ms,
           vc_rlimits = rl, vc_console = con, vc_manifest = mt\<rparr>))))))))))))))"

section \<open>libkrun\<close>

datatype krun_call =
    CreateCtx
  | FreeCtx u32
  | SetVmConfig u32 u8 u32
  | SetRoot u32 string
  | SetWorkdir u32 string
  | SetPortMap u32 "string list"
  | AddVirtiofs u32 string string
  | SetRlimits u32 "string list"
  | SetConsoleOutput u32 string
  | SetExec u32 string "string list" "string list"
  | StartEnter u32

record libkrun =
  lk_result :: "krun_call list \<Rightarrow> krun_call \<Rightarrow> int"
  lk_enters :: "krun_call list \<Rightarrow> bool"

type_synonym krun_state = "krun_call list"

text \<open>Run the calls, stop at the first error.\<close>

definition st_bind :: "('s \<Rightarrow> ('e + 'a) \<times> 's) \<Rightarrow> ('a \<Rightarrow> 's \<Rightarrow> ('e + 'b) \<times> 's) \<Rightarrow> 's \<Rightarrow> ('e + 'b) \<times> 's" where
  "st_bind m f s = (case m s of (Inl e, s1) \<Rightarrow> (Inl e, s1) | (Inr x, s1) \<Rightarrow> f x s1)"

text \<open>\<open>CString::new\<close>; a failing one returns from the function without freeing the context.\<close>

definition cstring :: "string \<Rightarrow> krun_state \<Rightarrow> (krun_error + string) \<times> krun_state" where
  "cstring s h =
     ((if CHR 0x00 \<in> set s then Inl (NulError (length (takeWhile (\<lambda>c. c \<noteq> CHR 0x00) s))) else Inr s), h)"

fun cstrings :: "string list \<Rightarrow> krun_state \<Rightarrow> (krun_error + string list) \<times> krun_state" where
  "cstrings [] h = (Inr [], h)"
| "cstrings (s # ss) h = st_bind (cstring s) (\<lambda>x. st_bind (cstrings ss) (\<lambda>xs h. (Inr (x # xs), h))) h"

text \<open>A call whose negative result frees the context and is an error.\<close>

definition checked ::
    "libkrun \<Rightarrow> u32 \<Rightarrow> (int \<Rightarrow> krun_error) \<Rightarrow> krun_call \<Rightarrow> krun_state \<Rightarrow> (krun_error + unit) \<times> krun_state" where
  "checked lib ctx err c h =
     (let r = lk_result lib h c
      in if r < 0 then (Inl (err r), h @ [c, FreeCtx ctx]) else (Inr (), h @ [c]))"

definition create_ctx :: "libkrun \<Rightarrow> krun_state \<Rightarrow> (krun_error + u32) \<times> krun_state" where
  "create_ctx lib h =
     (let r = lk_result lib h CreateCtx
      in ((if r < 0 then Inl (CreateCtxFailed r) else Inr (of_int r)), h @ [CreateCtx]))"

fun add_mounts :: "libkrun \<Rightarrow> u32 \<Rightarrow> virtiofs_mount list \<Rightarrow> krun_state \<Rightarrow> (krun_error + unit) \<times> krun_state" where
  "add_mounts lib ctx [] h = (Inr (), h)"
| "add_mounts lib ctx (m # ms) h =
     st_bind (cstring (vm_tag m)) (\<lambda>t.
     st_bind (cstring (vm_host_path m)) (\<lambda>p.
     st_bind (checked lib ctx AddVirtiofsFailed (AddVirtiofs ctx t p)) (\<lambda>_.
     add_mounts lib ctx ms))) h"

definition set_ports :: "libkrun \<Rightarrow> u32 \<Rightarrow> string list \<Rightarrow> krun_state \<Rightarrow> (krun_error + unit) \<times> krun_state" where
  "set_ports lib ctx ps h =
     (if ps = [] then (Inr (), h)
      else st_bind (cstrings ps) (\<lambda>cs.
        checked lib ctx (\<lambda>_. Other ''krun_set_port_map failed'') (SetPortMap ctx cs)) h)"

definition set_rlimits :: "libkrun \<Rightarrow> u32 \<Rightarrow> string list \<Rightarrow> krun_state \<Rightarrow> (krun_error + unit) \<times> krun_state" where
  "set_rlimits lib ctx rs h =
     (if rs = [] then (Inr (), h)
      else st_bind (cstrings rs) (\<lambda>cs. checked lib ctx SetRlimitsFailed (SetRlimits ctx cs)) h)"

definition set_console :: "libkrun \<Rightarrow> u32 \<Rightarrow> string option \<Rightarrow> krun_state \<Rightarrow> (krun_error + unit) \<times> krun_state" where
  "set_console lib ctx p h =
     (case p of
        None \<Rightarrow> (Inr (), h)
      | Some s \<Rightarrow> st_bind (cstring s) (\<lambda>c. checked lib ctx SetConsoleOutputFailed (SetConsoleOutput ctx c)) h)"

definition set_exec :: "libkrun \<Rightarrow> u32 \<Rightarrow> vm_config \<Rightarrow> krun_state \<Rightarrow> (krun_error + unit) \<times> krun_state" where
  "set_exec lib ctx c =
     st_bind (cstring (vc_exec_path c)) (\<lambda>e.
     st_bind (cstrings (vc_args c)) (\<lambda>as.
     st_bind (cstrings (vc_env c)) (\<lambda>es.
     checked lib ctx SetExecFailed (SetExec ctx e as es))))"

definition vm_setup :: "libkrun \<Rightarrow> vm_config \<Rightarrow> krun_state \<Rightarrow> (krun_error + u32) \<times> krun_state" where
  "vm_setup lib c =
     st_bind (create_ctx lib) (\<lambda>ctx.
     st_bind (checked lib ctx SetVmConfigFailed (SetVmConfig ctx (vc_vcpus c) (vc_ram_mib c))) (\<lambda>_.
     st_bind (cstring (vc_root_path c)) (\<lambda>root.
     st_bind (checked lib ctx SetRootFailed (SetRoot ctx root)) (\<lambda>_.
     st_bind (cstring (vc_workdir c)) (\<lambda>wd.
     st_bind (checked lib ctx (\<lambda>_. Other ''krun_set_workdir failed'') (SetWorkdir ctx wd)) (\<lambda>_.
     st_bind (set_ports lib ctx (vc_port_map c)) (\<lambda>_.
     st_bind (add_mounts lib ctx (vc_virtiofs c)) (\<lambda>_.
     st_bind (set_rlimits lib ctx (vc_rlimits c)) (\<lambda>_.
     st_bind (set_console lib ctx (vc_console c)) (\<lambda>_.
     st_bind (set_exec lib ctx c) (\<lambda>_ h. (Inr ctx, h))))))))))))"

text \<open>How the child process goes on: the VM runs, the function returned an error, or the hook exited.\<close>

datatype vm_outcome = Vm_entered | Vm_failed krun_error | Vm_exited nat

text \<open>The hook \<open>pre\<close> changes the process; \<open>Some\<close> is the code with which it ends the process.\<close>

definition run_vm ::
    "libkrun \<Rightarrow> vm_config \<Rightarrow> ('p \<Rightarrow> nat option \<times> 'p) \<Rightarrow> 'p \<Rightarrow> krun_state \<Rightarrow> vm_outcome \<times> 'p \<times> krun_state" where
  "run_vm lib c pre p h =
     (case vm_setup lib c h of
        (Inl e, h1) \<Rightarrow> (Vm_failed e, p, h1)
      | (Inr ctx, h1) \<Rightarrow>
          (case pre p of
             (Some code, p1) \<Rightarrow> (Vm_exited code, p1, h1)
           | (None, p1) \<Rightarrow>
               ((if lk_enters lib h1 then Vm_entered
                 else Vm_failed (StartEnterFailed (lk_result lib h1 (StartEnter ctx)))),
                p1, h1 @ [StartEnter ctx])))"

text \<open>\<open>path_to_virtiofs_tag\<close>: leading slashes dropped, slash, hyphen and dot replaced.\<close>

definition path_to_virtiofs_tag :: "string \<Rightarrow> string" where
  "path_to_virtiofs_tag p =
     map (\<lambda>c. if c = CHR ''/'' \<or> c = CHR ''-'' \<or> c = CHR ''.'' then CHR ''_'' else c)
       (dropWhile (\<lambda>c. c = CHR ''/'') p)"

section \<open>Lemmas\<close>

lemma st_bind_ok: "st_bind m f s = (Inr y, s2) \<longleftrightarrow> (\<exists>x s1. m s = (Inr x, s1) \<and> f x s1 = (Inr y, s2))"
  by (auto simp: st_bind_def split: prod.splits sum.splits)

text \<open>The calls of a complete set-up, after the creation of the context.\<close>

definition setup_calls :: "u32 \<Rightarrow> vm_config \<Rightarrow> krun_call list" where
  "setup_calls ctx c =
     [SetVmConfig ctx (vc_vcpus c) (vc_ram_mib c), SetRoot ctx (vc_root_path c), SetWorkdir ctx (vc_workdir c)] @
     (if vc_port_map c = [] then [] else [SetPortMap ctx (vc_port_map c)]) @
     map (\<lambda>m. AddVirtiofs ctx (vm_tag m) (vm_host_path m)) (vc_virtiofs c) @
     (if vc_rlimits c = [] then [] else [SetRlimits ctx (vc_rlimits c)]) @
     (case vc_console c of None \<Rightarrow> [] | Some p \<Rightarrow> [SetConsoleOutput ctx p]) @
     [SetExec ctx (vc_exec_path c) (vc_args c) (vc_env c)]"

lemma cstring_ok [simp]: "cstring s h = (Inr x, h1) \<longleftrightarrow> CHR 0x00 \<notin> set s \<and> x = s \<and> h1 = h"
  by (auto simp: cstring_def)

lemma cstrings_ok: "cstrings ss h = (Inr xs, h1) \<Longrightarrow> xs = ss \<and> h1 = h"
  by (induction ss arbitrary: xs h h1) (auto simp: st_bind_ok)

lemma checked_ok [simp]: "checked lib ctx err c h = (Inr u, h1) \<longleftrightarrow> 0 \<le> lk_result lib h c \<and> h1 = h @ [c]"
  by (auto simp: checked_def Let_def)

lemma add_mounts_ok:
  "add_mounts lib ctx ms h = (Inr u, h1) \<Longrightarrow>
     h1 = h @ map (\<lambda>m. AddVirtiofs ctx (vm_tag m) (vm_host_path m)) ms"
proof (induction ms arbitrary: h h1)
  case (Cons m ms)
  then have "add_mounts lib ctx ms (h @ [AddVirtiofs ctx (vm_tag m) (vm_host_path m)]) = (Inr u, h1)"
    by (auto simp: st_bind_ok)
  from Cons.IH [OF this] show ?case by simp
qed simp

lemma vm_setup_ok:
  assumes "vm_setup lib c h = (Inr ctx, h1)"
  shows "h1 = h @ CreateCtx # setup_calls ctx c"
proof -
  have ports: "set_ports lib ctx ps g = (Inr u, g1) \<Longrightarrow> g1 = g @ (if ps = [] then [] else [SetPortMap ctx ps])" for ps g u g1
    by (auto simp: set_ports_def st_bind_ok dest: cstrings_ok split: if_splits)
  have rl: "set_rlimits lib ctx ps g = (Inr u, g1) \<Longrightarrow> g1 = g @ (if ps = [] then [] else [SetRlimits ctx ps])" for ps g u g1
    by (auto simp: set_rlimits_def st_bind_ok dest: cstrings_ok split: if_splits)
  have con: "set_console lib ctx p g = (Inr u, g1) \<Longrightarrow>
      g1 = g @ (case p of None \<Rightarrow> [] | Some s \<Rightarrow> [SetConsoleOutput ctx s])" for p g u g1
    by (auto simp: set_console_def st_bind_ok split: option.splits)
  have ex: "set_exec lib ctx c g = (Inr u, g1) \<Longrightarrow> g1 = g @ [SetExec ctx (vc_exec_path c) (vc_args c) (vc_env c)]" for g u g1
    by (auto simp: set_exec_def st_bind_ok dest: cstrings_ok)
  have cr: "create_ctx lib h = (Inr x, g1) \<Longrightarrow> g1 = h @ [CreateCtx]" for x g1
    by (auto simp: create_ctx_def Let_def split: if_splits)
  from assms show ?thesis
    unfolding vm_setup_def st_bind_ok setup_calls_def
    by (auto dest!: cr ports rl con ex add_mounts_ok)
qed

text \<open>Nothing but the last step of \<open>run_vm\<close> enters the VM, on any path.\<close>

definition quiet :: "(krun_state \<Rightarrow> ('e + 'a) \<times> krun_state) \<Rightarrow> bool" where
  "quiet m \<longleftrightarrow> (\<forall>h. \<exists>t. snd (m h) = h @ t \<and> (\<forall>ctx. StartEnter ctx \<notin> set t))"

lemma quiet_bind: "quiet m \<Longrightarrow> (\<And>x. quiet (f x)) \<Longrightarrow> quiet (st_bind m f)"
  unfolding quiet_def
proof (rule allI)
  fix h
  assume m: "\<forall>h. \<exists>t. snd (m h) = h @ t \<and> (\<forall>ctx. StartEnter ctx \<notin> set t)"
    and f: "\<And>x. \<forall>h. \<exists>t. snd (f x h) = h @ t \<and> (\<forall>ctx. StartEnter ctx \<notin> set t)"
  obtain r h1 where r: "m h = (r, h1)" by fastforce
  from m [rule_format, of h] r obtain t where t: "h1 = h @ t" "\<forall>ctx. StartEnter ctx \<notin> set t" by auto
  show "\<exists>t. snd (st_bind m f h) = h @ t \<and> (\<forall>ctx. StartEnter ctx \<notin> set t)"
  proof (cases r)
    case (Inl e)
    with r t show ?thesis by (simp add: st_bind_def)
  next
    case (Inr x)
    from f [of x, rule_format, of h1] obtain t2 where "snd (f x h1) = h1 @ t2" "\<forall>ctx. StartEnter ctx \<notin> set t2" by blast
    with Inr r t show ?thesis by (intro exI [of _ "t @ t2"]) (simp add: st_bind_def)
  qed
qed

lemma quiet_basic:
  "quiet (cstring s)" "quiet (\<lambda>h. (x, h))" "\<forall>i. c \<noteq> StartEnter i \<Longrightarrow> quiet (checked lib ctx err c)"
  "quiet (create_ctx lib)"
  by (auto simp: quiet_def cstring_def checked_def create_ctx_def Let_def)

lemma quiet_cstrings: "quiet (cstrings ss)"
proof (induction ss)
  case Nil
  have "cstrings [] = (\<lambda>h. (Inr [], h))" by (simp add: fun_eq_iff)
  then show ?case by (simp add: quiet_basic)
next
  case (Cons s ss)
  have "cstrings (s # ss) = st_bind (cstring s) (\<lambda>x. st_bind (cstrings ss) (\<lambda>xs h. (Inr (x # xs), h)))"
    by (simp add: fun_eq_iff)
  with Cons show ?case by (simp add: quiet_bind quiet_basic)
qed

lemma quiet_add_mounts: "quiet (add_mounts lib ctx ms)"
proof (induction ms)
  case Nil
  have "add_mounts lib ctx [] = (\<lambda>h. (Inr (), h))" by (simp add: fun_eq_iff)
  then show ?case by (simp add: quiet_basic)
next
  case (Cons m ms)
  have "add_mounts lib ctx (m # ms) = st_bind (cstring (vm_tag m)) (\<lambda>t. st_bind (cstring (vm_host_path m)) (\<lambda>p.
     st_bind (checked lib ctx AddVirtiofsFailed (AddVirtiofs ctx t p)) (\<lambda>_. add_mounts lib ctx ms)))"
    by (simp add: fun_eq_iff)
  with Cons show ?case by (simp add: quiet_bind quiet_basic)
qed

lemma quiet_parts:
  "quiet (set_ports lib ctx ps)" "quiet (set_rlimits lib ctx ps)" "quiet (set_console lib ctx p)" "quiet (set_exec lib ctx c)"
proof -
  have "set_ports lib ctx ps = (if ps = [] then (\<lambda>h. (Inr (), h))
      else st_bind (cstrings ps) (\<lambda>cs. checked lib ctx (\<lambda>_. Other ''krun_set_port_map failed'') (SetPortMap ctx cs)))"
    by (simp add: fun_eq_iff set_ports_def)
  then show "quiet (set_ports lib ctx ps)" by (simp add: quiet_bind quiet_basic quiet_cstrings)
  have "set_rlimits lib ctx ps = (if ps = [] then (\<lambda>h. (Inr (), h))
      else st_bind (cstrings ps) (\<lambda>cs. checked lib ctx SetRlimitsFailed (SetRlimits ctx cs)))"
    by (simp add: fun_eq_iff set_rlimits_def)
  then show "quiet (set_rlimits lib ctx ps)" by (simp add: quiet_bind quiet_basic quiet_cstrings)
  have "set_console lib ctx p = (case p of None \<Rightarrow> (\<lambda>h. (Inr (), h))
      | Some s \<Rightarrow> st_bind (cstring s) (\<lambda>c. checked lib ctx SetConsoleOutputFailed (SetConsoleOutput ctx c)))"
    by (auto simp: fun_eq_iff set_console_def split: option.split)
  then show "quiet (set_console lib ctx p)" by (simp add: quiet_bind quiet_basic split: option.split)
  show "quiet (set_exec lib ctx c)" by (simp add: set_exec_def quiet_bind quiet_basic quiet_cstrings)
qed

lemma quiet_setup: "quiet (vm_setup lib c)"
  by (simp add: vm_setup_def quiet_bind quiet_basic quiet_parts quiet_add_mounts)

text \<open>
  The order of a start: the whole configuration is set before the hook runs, and the hook, which
  restricts the process, runs before the VM is entered; a failed set-up does neither.
\<close>

lemma run_vm_order:
  "case run_vm lib c pre p h of
     (Vm_entered, p', h') \<Rightarrow> pre p = (None, p') \<and> (\<exists>ctx. h' = h @ CreateCtx # setup_calls ctx c @ [StartEnter ctx])
   | (Vm_exited code, p', h') \<Rightarrow> pre p = (Some code, p') \<and> (\<exists>ctx. h' = h @ CreateCtx # setup_calls ctx c)
   | (Vm_failed e, p', h') \<Rightarrow>
       (pre p = (None, p') \<and> (\<exists>ctx. h' = h @ CreateCtx # setup_calls ctx c @ [StartEnter ctx])) \<or>
       (p' = p \<and> (\<exists>t. h' = h @ t \<and> (\<forall>ctx. StartEnter ctx \<notin> set t)))"
proof (cases "fst (vm_setup lib c h)")
  case (Inl e)
  then have "run_vm lib c pre p h = (Vm_failed e, p, snd (vm_setup lib c h))"
    by (cases "vm_setup lib c h") (simp add: run_vm_def)
  then show ?thesis using quiet_setup [of lib c] by (simp add: quiet_def)
next
  case (Inr ctx)
  then have "vm_setup lib c h = (Inr ctx, snd (vm_setup lib c h))" by (simp add: prod_eq_iff)
  then have s: "vm_setup lib c h = (Inr ctx, h @ CreateCtx # setup_calls ctx c)" using vm_setup_ok by metis
  obtain r p1 where "pre p = (r, p1)" by fastforce
  with s show ?thesis by (cases r) (auto simp: run_vm_def)
qed

section \<open>The configuration survives the pipe\<close>

lemma de_mounts_json: "de_mounts (JArr (map mount_json ms)) = Some ms"
proof -
  have "de_mount (mount_json m) = Some m" for m
    by (simp add: de_mount_def mount_json_def struct_fields_def required_def)
  then have "opt_all (map de_mount (map mount_json ms)) = Some ms" by (intro opt_all_map) simp
  then show ?thesis by (simp only: de_mounts_def json.case)
qed

lemma de_opt_string_json: "de_opt_string (option_json x) = Some x"
  by (simp add: de_opt_string_def option_json_def split: option.split)

lemma de_vm_config_json: "de_vm_config (vm_config_json c) = Some c"
proof -
  let ?ms = "case vm_config_json c of JObj ms \<Rightarrow> ms | _ \<Rightarrow> []"
  have f: "struct_fields vm_config_names (vm_config_json c) = Some (map_of ?ms)"
    by (simp add: struct_fields_def vm_config_json_def vm_config_names_def)
  show ?thesis
    unfolding de_vm_config_def f
    by (simp add: vm_config_json_def required_def defaulted_def de_word_json de_mounts_json de_opt_string_json)
qed

end
