(* ===== verification/Fs_Sandbox.thy ===== *)
theory Fs_Sandbox
  imports Krun Manifest
begin

text \<open>
  Model of \<open>pkg/cage/src/fs_sandbox.rs\<close>: the Landlock rules for the process of a VM, and the system
  calls that enforce them. The kernel is a parameter: the results of the calls, which paths exist and
  which of them open. The lemmas show which rights the rules grant where, and what a process has
  enforced after \<open>apply\<close>.
\<close>

section \<open>Access rights\<close>

definition LANDLOCK_ACCESS_FS_EXECUTE :: u64 where "LANDLOCK_ACCESS_FS_EXECUTE = push_bit 0 1"
definition LANDLOCK_ACCESS_FS_WRITE_FILE :: u64 where "LANDLOCK_ACCESS_FS_WRITE_FILE = push_bit 1 1"
definition LANDLOCK_ACCESS_FS_READ_FILE :: u64 where "LANDLOCK_ACCESS_FS_READ_FILE = push_bit 2 1"
definition LANDLOCK_ACCESS_FS_READ_DIR :: u64 where "LANDLOCK_ACCESS_FS_READ_DIR = push_bit 3 1"
definition LANDLOCK_ACCESS_FS_REMOVE_DIR :: u64 where "LANDLOCK_ACCESS_FS_REMOVE_DIR = push_bit 4 1"
definition LANDLOCK_ACCESS_FS_REMOVE_FILE :: u64 where "LANDLOCK_ACCESS_FS_REMOVE_FILE = push_bit 5 1"
definition LANDLOCK_ACCESS_FS_MAKE_CHAR :: u64 where "LANDLOCK_ACCESS_FS_MAKE_CHAR = push_bit 6 1"
definition LANDLOCK_ACCESS_FS_MAKE_DIR :: u64 where "LANDLOCK_ACCESS_FS_MAKE_DIR = push_bit 7 1"
definition LANDLOCK_ACCESS_FS_MAKE_REG :: u64 where "LANDLOCK_ACCESS_FS_MAKE_REG = push_bit 8 1"
definition LANDLOCK_ACCESS_FS_MAKE_SOCK :: u64 where "LANDLOCK_ACCESS_FS_MAKE_SOCK = push_bit 9 1"
definition LANDLOCK_ACCESS_FS_MAKE_FIFO :: u64 where "LANDLOCK_ACCESS_FS_MAKE_FIFO = push_bit 10 1"
definition LANDLOCK_ACCESS_FS_MAKE_BLOCK :: u64 where "LANDLOCK_ACCESS_FS_MAKE_BLOCK = push_bit 11 1"
definition LANDLOCK_ACCESS_FS_MAKE_SYM :: u64 where "LANDLOCK_ACCESS_FS_MAKE_SYM = push_bit 12 1"

definition LANDLOCK_ACCESS_FS_ALL :: u64 where
  "LANDLOCK_ACCESS_FS_ALL =
     LANDLOCK_ACCESS_FS_EXECUTE OR LANDLOCK_ACCESS_FS_WRITE_FILE OR LANDLOCK_ACCESS_FS_READ_FILE OR
     LANDLOCK_ACCESS_FS_READ_DIR OR LANDLOCK_ACCESS_FS_REMOVE_DIR OR LANDLOCK_ACCESS_FS_REMOVE_FILE OR
     LANDLOCK_ACCESS_FS_MAKE_CHAR OR LANDLOCK_ACCESS_FS_MAKE_DIR OR LANDLOCK_ACCESS_FS_MAKE_REG OR
     LANDLOCK_ACCESS_FS_MAKE_SOCK OR LANDLOCK_ACCESS_FS_MAKE_FIFO OR LANDLOCK_ACCESS_FS_MAKE_BLOCK OR
     LANDLOCK_ACCESS_FS_MAKE_SYM"

definition ACCESS_READ :: u64 where
  "ACCESS_READ = LANDLOCK_ACCESS_FS_READ_FILE OR LANDLOCK_ACCESS_FS_READ_DIR"

definition ACCESS_READ_EXEC :: u64 where
  "ACCESS_READ_EXEC = ACCESS_READ OR LANDLOCK_ACCESS_FS_EXECUTE"

definition ACCESS_READ_WRITE :: u64 where
  "ACCESS_READ_WRITE =
     LANDLOCK_ACCESS_FS_READ_FILE OR LANDLOCK_ACCESS_FS_READ_DIR OR LANDLOCK_ACCESS_FS_WRITE_FILE OR
     LANDLOCK_ACCESS_FS_REMOVE_DIR OR LANDLOCK_ACCESS_FS_REMOVE_FILE OR LANDLOCK_ACCESS_FS_MAKE_DIR OR
     LANDLOCK_ACCESS_FS_MAKE_REG OR LANDLOCK_ACCESS_FS_MAKE_SOCK OR LANDLOCK_ACCESS_FS_MAKE_FIFO OR
     LANDLOCK_ACCESS_FS_MAKE_SYM"

section \<open>Rules\<close>

record path_rule =
  pr_path :: string
  pr_access :: u64

datatype sandbox_error =
    NotSupported
  | CreateRuleset int
  | AddRule string int
  | OpenPath string io_error
  | Sandbox_no_new_privs int
  | RestrictSelf int

fun show_sandbox_error :: "sandbox_error \<Rightarrow> string" where
  "show_sandbox_error NotSupported = ''Landlock not supported by kernel (ENOSYS)''"
| "show_sandbox_error (CreateRuleset r) = ''landlock_create_ruleset failed: '' @ show_int r"
| "show_sandbox_error (AddRule p r) = ''landlock_add_rule failed for '' @ p @ '': '' @ show_int r"
| "show_sandbox_error (OpenPath p e) = ''failed to open path for Landlock rule: '' @ p @ '': '' @ e"
| "show_sandbox_error (Sandbox_no_new_privs r) = ''prctl(PR_SET_NO_NEW_PRIVS) failed: '' @ show_int r"
| "show_sandbox_error (RestrictSelf r) = ''landlock_restrict_self failed: '' @ show_int r"

definition ends_with :: "string \<Rightarrow> string \<Rightarrow> bool" where
  "ends_with s t \<longleftrightarrow> starts_with (rev s) (rev t)"

definition mount_access :: "virtiofs_mount \<Rightarrow> u64" where
  "mount_access m =
     (if ends_with (vm_tag m) ''_ro'' then ACCESS_READ
      else if ends_with (vm_tag m) ''_rw'' then ACCESS_READ_WRITE
      else ACCESS_READ)"

definition rule :: "string \<Rightarrow> u64 \<Rightarrow> path_rule" where
  "rule p a = \<lparr>pr_path = p, pr_access = a\<rparr>"

definition build_sandbox :: "vm_config \<Rightarrow> agent_manifest \<Rightarrow> path_rule list" where
  "build_sandbox c m =
     [rule (vc_root_path c) ACCESS_READ_EXEC] @
     map (\<lambda>mt. rule (vm_host_path mt) (mount_access mt)) (vc_virtiofs c) @
     [rule ''/dev/kvm'' (LANDLOCK_ACCESS_FS_READ_FILE OR LANDLOCK_ACCESS_FS_WRITE_FILE)] @
     map (\<lambda>d. rule d LANDLOCK_ACCESS_FS_READ_FILE) [''/dev/null'', ''/dev/zero'', ''/dev/urandom''] @
     [rule ''/var/log/cage/'' ACCESS_READ_WRITE, rule ''/usr/lib/'' ACCESS_READ, rule ''/lib64/'' ACCESS_READ,
      rule ''/proc/'' ACCESS_READ, rule ''/sys/'' ACCESS_READ, rule ''/tmp/'' ACCESS_READ_WRITE,
      rule ''/run/'' ACCESS_READ_WRITE] @
     map (\<lambda>p. rule p ACCESS_READ) (fc_read (cp_filesystem (mf_capabilities m))) @
     map (\<lambda>p. rule p ACCESS_READ_WRITE) (fc_write (cp_filesystem (mf_capabilities m)))"

section \<open>Enforcement\<close>

text \<open>
  The Landlock state of a process: the rulesets that restrict it, its number of system calls of this
  module, \<open>no_new_privs\<close>, and the ruleset descriptors that are open with their rules.
\<close>

record landlock_state =
  ll_domains :: "path_rule list list"
  ll_calls :: nat
  ll_nnp :: bool
  ll_open :: "(int \<times> path_rule list) list"

text \<open>\<open>le_sys\<close> is the result of the n-th system call, negative for a failure.\<close>

record landlock_env =
  le_sys :: "nat \<Rightarrow> int"
  le_exists :: "string \<Rightarrow> bool"
  le_open :: "string \<Rightarrow> io_error option"

definition ll_call :: "landlock_env \<Rightarrow> landlock_state \<Rightarrow> int \<times> landlock_state" where
  "ll_call env s = (le_sys env (ll_calls s), s\<lparr>ll_calls := ll_calls s + 1\<rparr>)"

definition rules_of :: "int \<Rightarrow> landlock_state \<Rightarrow> path_rule list" where
  "rules_of fd s = (case map_of (ll_open s) fd of None \<Rightarrow> [] | Some rs \<Rightarrow> rs)"

definition ENOSYS :: int where "ENOSYS = 38"

definition landlock_create_ruleset :: "landlock_env \<Rightarrow> landlock_state \<Rightarrow> (sandbox_error + int) \<times> landlock_state" where
  "landlock_create_ruleset env s =
     (let (fd, s1) = ll_call env s
      in if fd < 0 then (Inl (if fd = - ENOSYS then NotSupported else CreateRuleset fd), s1)
         else (Inr fd, s1\<lparr>ll_open := AList.update fd [] (ll_open s1)\<rparr>))"

definition landlock_add_rule ::
    "landlock_env \<Rightarrow> int \<Rightarrow> path_rule \<Rightarrow> landlock_state \<Rightarrow> (sandbox_error + unit) \<times> landlock_state" where
  "landlock_add_rule env fd r s =
     (case le_open env (pr_path r) of
        Some e \<Rightarrow> (Inl (OpenPath (pr_path r) e), s)
      | None \<Rightarrow>
          (let (ret, s1) = ll_call env s
           in if ret < 0 then (Inl (AddRule (pr_path r) ret), s1)
              else (Inr (), s1\<lparr>ll_open := AList.update fd (rules_of fd s1 @ [r]) (ll_open s1)\<rparr>)))"

fun add_rules ::
    "landlock_env \<Rightarrow> int \<Rightarrow> path_rule list \<Rightarrow> landlock_state \<Rightarrow> (sandbox_error + unit) \<times> landlock_state" where
  "add_rules env fd [] s = (Inr (), s)"
| "add_rules env fd (r # rs) s =
     (if le_exists env (pr_path r) then
        (case landlock_add_rule env fd r s of
           (Inl e, s1) \<Rightarrow> (Inl e, s1)
         | (Inr _, s1) \<Rightarrow> add_rules env fd rs s1)
      else add_rules env fd rs s)"

definition landlock_restrict_self :: "landlock_env \<Rightarrow> int \<Rightarrow> landlock_state \<Rightarrow> (sandbox_error + unit) \<times> landlock_state" where
  "landlock_restrict_self env fd s =
     (let (ret, s1) = ll_call env s
      in if ret < 0 then (Inl (RestrictSelf ret), s1)
         else (Inr (), s1\<lparr>ll_domains := rules_of fd s1 # ll_domains s1\<rparr>))"

definition close_fd :: "int \<Rightarrow> landlock_state \<Rightarrow> landlock_state" where
  "close_fd fd s = s\<lparr>ll_open := AList.delete fd (ll_open s)\<rparr>"

definition sandbox_apply :: "landlock_env \<Rightarrow> path_rule list \<Rightarrow> landlock_state \<Rightarrow> (sandbox_error + unit) \<times> landlock_state" where
  "sandbox_apply env rules s =
     (let (abi, s0) = ll_call env s
      in if abi \<le> 0 then (Inr (), s0)
         else case landlock_create_ruleset env s0 of
                (Inl e, s1) \<Rightarrow> (Inl e, s1)
              | (Inr fd, s1) \<Rightarrow>
                  (case add_rules env fd rules s1 of
                     (Inl e, s2) \<Rightarrow> (Inl e, s2)
                   | (Inr _, s2) \<Rightarrow>
                       (let (ret, s3) = ll_call env s2
                        in if ret \<noteq> 0 then (Inl (Sandbox_no_new_privs ret), close_fd fd s3)
                           else (let (r, s4) = landlock_restrict_self env fd (s3\<lparr>ll_nnp := True\<rparr>)
                                 in (r, close_fd fd s4)))))"

section \<open>Lemmas\<close>

lemma access_values:
  "LANDLOCK_ACCESS_FS_EXECUTE = 1" "LANDLOCK_ACCESS_FS_WRITE_FILE = 2" "LANDLOCK_ACCESS_FS_READ_FILE = 4"
  "LANDLOCK_ACCESS_FS_MAKE_CHAR = 64" "LANDLOCK_ACCESS_FS_MAKE_BLOCK = 2048"
  "ACCESS_READ = 12" "ACCESS_READ_EXEC = 13" "ACCESS_READ_WRITE = 0x17BE" "LANDLOCK_ACCESS_FS_ALL = 0x1FFF"
  by (simp_all add: LANDLOCK_ACCESS_FS_EXECUTE_def LANDLOCK_ACCESS_FS_WRITE_FILE_def LANDLOCK_ACCESS_FS_READ_FILE_def
      LANDLOCK_ACCESS_FS_READ_DIR_def LANDLOCK_ACCESS_FS_REMOVE_DIR_def LANDLOCK_ACCESS_FS_REMOVE_FILE_def
      LANDLOCK_ACCESS_FS_MAKE_CHAR_def LANDLOCK_ACCESS_FS_MAKE_DIR_def LANDLOCK_ACCESS_FS_MAKE_REG_def
      LANDLOCK_ACCESS_FS_MAKE_SOCK_def LANDLOCK_ACCESS_FS_MAKE_FIFO_def LANDLOCK_ACCESS_FS_MAKE_BLOCK_def
      LANDLOCK_ACCESS_FS_MAKE_SYM_def ACCESS_READ_def ACCESS_READ_EXEC_def ACCESS_READ_WRITE_def
      LANDLOCK_ACCESS_FS_ALL_def push_bit_eq_mult)

lemma landlock_add_rule_cases:
  assumes "landlock_add_rule env fd r s = (res, s1)"
  shows "ll_domains s1 = ll_domains s \<and> (res = Inr () \<longrightarrow> rules_of fd s1 = rules_of fd s @ [r])"
  using assms by (auto simp: landlock_add_rule_def ll_call_def rules_of_def split: option.splits if_splits)

lemma add_rules_cases:
  "add_rules env fd rs s = (res, s1) \<Longrightarrow>
     ll_domains s1 = ll_domains s \<and>
     (res = Inr () \<longrightarrow> rules_of fd s1 = rules_of fd s @ filter (\<lambda>r. le_exists env (pr_path r)) rs)"
proof (induction rs arbitrary: s)
  case (Cons r rs)
  show ?case
  proof (cases "le_exists env (pr_path r)")
    case True
    obtain a s0 where a: "landlock_add_rule env fd r s = (a, s0)" by fastforce
    show ?thesis
    proof (cases a)
      case (Inl e)
      with True Cons.prems a landlock_add_rule_cases [OF a] show ?thesis by auto
    next
      case (Inr u)
      with True Cons.prems a have "add_rules env fd rs s0 = (res, s1)" by simp
      from Cons.IH [OF this] landlock_add_rule_cases [OF a] Inr True show ?thesis by auto
    qed
  next
    case False
    with Cons show ?thesis by simp
  qed
qed simp

text \<open>After \<open>apply\<close> the process is restricted by exactly the rules whose path exists, or not at all.\<close>

lemma sandbox_apply_cases:
  assumes "sandbox_apply env rules s = (res, s')"
  shows "ll_domains s' =
    (if res = Inr () \<and> 0 < le_sys env (ll_calls s) then filter (\<lambda>r. le_exists env (pr_path r)) rules # ll_domains s
     else ll_domains s)"
proof (cases "le_sys env (ll_calls s) \<le> 0")
  case True
  with assms show ?thesis by (auto simp: sandbox_apply_def ll_call_def)
next
  case False
  let ?s0 = "s\<lparr>ll_calls := ll_calls s + 1\<rparr>"
  obtain c s1 where c: "landlock_create_ruleset env ?s0 = (c, s1)" by fastforce
  have d1: "ll_domains s1 = ll_domains s" and r1: "\<And>fd. c = Inr fd \<Longrightarrow> rules_of fd s1 = []"
    using c by (auto simp: landlock_create_ruleset_def ll_call_def Let_def rules_of_def split: if_splits)
  show ?thesis
  proof (cases c)
    case (Inl e)
    with False assms c d1 show ?thesis by (auto simp: sandbox_apply_def ll_call_def)
  next
    case (Inr fd)
    obtain a s2 where a: "add_rules env fd rules s1 = (a, s2)" by fastforce
    note add = add_rules_cases [OF a]
    show ?thesis
    proof (cases a)
      case (Inl e)
      with False assms c Inr a add d1 show ?thesis by (auto simp: sandbox_apply_def ll_call_def)
    next
      case a': (Inr u)
      have "rules_of fd (s2\<lparr>ll_calls := i, ll_nnp := b\<rparr>) = rules_of fd s2" for i b by (simp add: rules_of_def)
      with False assms c Inr a a' add d1 r1 [OF Inr] show ?thesis
        by (auto simp: sandbox_apply_def ll_call_def landlock_restrict_self_def close_fd_def rules_of_def Let_def
            split: if_splits)
    qed
  qed
qed

lemma add_rules_not_ns: "add_rules env fd rs s = (Inl NotSupported, s1) \<Longrightarrow> False"
  by (induction rs arbitrary: s)
    (auto simp: landlock_add_rule_def ll_call_def split: if_splits option.splits prod.splits sum.splits)

section \<open>Properties\<close>

definition paths_with :: "u64 \<Rightarrow> path_rule list \<Rightarrow> string set" where
  "paths_with right rs = {pr_path r | r. r \<in> set rs \<and> pr_access r AND right \<noteq> 0}"

lemma paths_with_append [simp]: "paths_with a (xs @ ys) = paths_with a xs \<union> paths_with a ys"
  by (auto simp: paths_with_def)

lemma paths_with_map: "paths_with a (map f xs) = {pr_path (f x) | x. x \<in> set xs \<and> pr_access (f x) AND a \<noteq> 0}"
  by (auto simp: paths_with_def)

lemma mount_access_write: "mount_access m AND 2 \<noteq> 0 \<longleftrightarrow> ends_with (vm_tag m) ''_rw''"
proof -
  have "\<not> (ends_with (vm_tag m) ''_ro'' \<and> ends_with (vm_tag m) ''_rw'')"
    by (auto simp: ends_with_def starts_with_iff)
  then show ?thesis by (auto simp: mount_access_def access_values)
qed

lemma mount_access_other: "mount_access m AND 1 = 0" "mount_access m AND 0x840 = 0" "mount_access m AND - 8192 = 0"
  by (simp_all add: mount_access_def access_values)

text \<open>
  C9: the rules grant least privilege. The right to write files is granted below the read-write mounts
  of the configuration, the write paths of the manifest and four fixed paths, and nowhere else; the
  right to execute below the root file system only; device nodes can be made nowhere; and no rule has a
  right outside the handled ones, so the kernel accepts every mask.
\<close>

theorem sandbox_rights:
  "paths_with LANDLOCK_ACCESS_FS_WRITE_FILE (build_sandbox c m) =
     {''/dev/kvm'', ''/var/log/cage/'', ''/tmp/'', ''/run/''} \<union>
     {vm_host_path mt | mt. mt \<in> set (vc_virtiofs c) \<and> ends_with (vm_tag mt) ''_rw''} \<union>
     set (fc_write (cp_filesystem (mf_capabilities m))) \<and>
   paths_with LANDLOCK_ACCESS_FS_EXECUTE (build_sandbox c m) = {vc_root_path c} \<and>
   paths_with (LANDLOCK_ACCESS_FS_MAKE_CHAR OR LANDLOCK_ACCESS_FS_MAKE_BLOCK) (build_sandbox c m) = {} \<and>
   paths_with (NOT LANDLOCK_ACCESS_FS_ALL) (build_sandbox c m) = {}"
proof -
  have one: "paths_with a [r] = (if pr_access r AND a \<noteq> 0 then {pr_path r} else {})" for a r
    by (auto simp: paths_with_def)
  have cons: "paths_with a (r # rs) = (if pr_access r AND a \<noteq> 0 then {pr_path r} else {}) \<union> paths_with a rs" for a r rs
    by (auto simp: paths_with_def)
  have nil: "paths_with a [] = {}" for a by (simp add: paths_with_def)
  show ?thesis
    unfolding build_sandbox_def paths_with_append access_values
    by (simp add: cons nil paths_with_map rule_def access_values mount_access_write mount_access_other) auto
qed

end
