(* ===== verification/Vm.thy ===== *)
theory Vm
  imports Fs_Sandbox Seccomp Fs
begin

text \<open>
  Model of \<open>pkg/cage/src/vm.rs\<close>, the manager of the running microVMs: the configuration that it derives
  from a manifest, starting, stopping, exits and health checks. Processes, sockets, the clock and the
  JSON printer are parameters. Proved are the invariant of the manager and what a start does.
\<close>

section \<open>State\<close>

record health_state =
  hs_config :: health_check
  hs_failures :: u32
  hs_last_check :: instant

record running_vm =
  rv_agent_name :: string
  rv_pid :: u32
  rv_vcpus :: u8
  rv_ram_mib :: u32
  rv_health :: "health_state option"

record vm_manager =
  vmm_vms :: "(string, running_vm) hashmap"
  vmm_rootfs_base :: string

record vm_exit =
  ve_agent_name :: string
  ve_exit_status :: int

datatype vm_error =
    AlreadyRunning string
  | NotRunning string
  | SpawnFailed string
  | RootfsInvalid string
  | Internal string

fun show_vm_error :: "vm_error \<Rightarrow> string" where
  "show_vm_error (AlreadyRunning n) = ''agent '' @ quote n @ '' is already running''"
| "show_vm_error (NotRunning n) = ''agent '' @ quote n @ '' is not running''"
| "show_vm_error (SpawnFailed e) = ''failed to spawn VM process: '' @ e"
| "show_vm_error (RootfsInvalid m) = ''rootfs invalid: '' @ m"
| "show_vm_error (Internal m) = ''internal error: '' @ m"

text \<open>
  What the manager meets: \<open>vo_spawn n\<close> is the n-th spawn of a child (an error or a process id, the
  child reads the JSON text from its standard input), \<open>vo_exists\<close> and \<open>vo_is_dir\<close> the file system,
  \<open>vo_connect n p\<close> says whether the n-th connection, to port \<open>p\<close>, is accepted, \<open>vo_print\<close> prints JSON.
  The world counts spawns and connections and records the children's inputs, the created directories and
  the signals sent.
\<close>

record vm_os =
  vo_spawn :: "nat \<Rightarrow> io_error + u32"
  vo_exists :: "string \<Rightarrow> bool"
  vo_is_dir :: "string \<Rightarrow> bool"
  vo_connect :: "nat \<Rightarrow> u16 \<Rightarrow> bool"
  vo_print :: "json \<Rightarrow> string + string"
  vo_it_tools :: "(string \<times> risk_level) list \<Rightarrow> (string \<times> risk_level) list"
  vo_it_secrets :: "(string \<times> string) list \<Rightarrow> (string \<times> string) list"
  vo_it_vms :: "(string \<times> running_vm) list \<Rightarrow> (string \<times> running_vm) list"

record vm_world =
  vw_spawns :: nat
  vw_children :: "(u32 \<times> string) list"
  vw_dirs :: "string list"
  vw_terms :: "u32 list"
  vw_connects :: nat

section \<open>The configuration of a VM\<close>

definition div_ceil :: "u32 \<Rightarrow> u32 \<Rightarrow> u32" where
  "div_ceil a b = a div b + (if a mod b = 0 then 0 else 1)"

text \<open>\<open>min(100) as u8\<close>, then \<open>div_ceil(25).clamp(1, 8) as u8\<close>.\<close>

definition vcpus_of :: "u32 \<Rightarrow> u8" where
  "vcpus_of percent =
     (let p = (ucast (min percent 100) :: u8) in ucast (min (max (div_ceil (ucast p) 25) 1) 8))"

definition build_virtiofs_mounts :: "string \<Rightarrow> filesystem_caps \<Rightarrow> virtiofs_mount list" where
  "build_virtiofs_mounts n f =
     map (\<lambda>p. \<lparr>vm_tag = path_to_virtiofs_tag p @ ''_ro'', vm_host_path = ''/var/lib/cage/'' @ n @ p\<rparr>) (fc_read f) @
     map (\<lambda>p. \<lparr>vm_tag = path_to_virtiofs_tag p @ ''_rw'', vm_host_path = ''/var/lib/cage/'' @ n @ p\<rparr>) (fc_write f)"

text \<open>The byte count is a u64, which 2 to the 32 megabytes do not overflow.\<close>

definition build_rlimits :: "agent_manifest \<Rightarrow> string list" where
  "build_rlimits m =
     (let bytes = (ucast (cp_max_memory_mb (mf_capabilities m)) :: u64) * 1024 * 1024;
          s = show_nat (unat bytes)
      in [''RLIMIT_AS='' @ s @ '':'' @ s, ''RLIMIT_NPROC=64:64''])"

definition exec_of :: "runtime \<Rightarrow> string \<Rightarrow> string \<times> string list" where
  "exec_of r n =
     (case r of
        Binary \<Rightarrow> (''/agent/bin/'' @ n, [])
      | Python \<Rightarrow> (''/system/python/bin/python3'', [''/agent/main.py'']))"

definition vm_config_of :: "vm_os \<Rightarrow> string \<Rightarrow> agent_manifest \<Rightarrow> (string, string) hashmap \<Rightarrow> vm_config" where
  "vm_config_of os base m secrets =
     (let n = am_name (mf_agent m); c = mf_capabilities m; (exec, args) = exec_of (am_runtime (mf_agent m)) n
      in \<lparr>vc_name = n, vc_vcpus = vcpus_of (cp_max_cpu_percent c), vc_ram_mib = max (cp_max_memory_mb c) 64,
          vc_root_path = base @ ''/'' @ n, vc_exec_path = exec, vc_args = args,
          vc_env = [''AGENT_NAME='' @ n, ''CTXGRAPH_PORT=9100''] @
            map (\<lambda>(k, v). k @ ''='' @ v) (vo_it_secrets os secrets),
          vc_port_map = [], vc_workdir = ''/'', vc_virtiofs = build_virtiofs_mounts n (cp_filesystem c),
          vc_rlimits = build_rlimits m, vc_console = None,
          vc_manifest = (case vo_print os (manifest_json (vo_it_tools os) m) of Inl _ \<Rightarrow> None | Inr s \<Rightarrow> Some s)\<rparr>)"

section \<open>Operations\<close>

definition new_vm_manager :: "string \<Rightarrow> vm_manager" where
  "new_vm_manager base = \<lparr>vmm_vms = [], vmm_rootfs_base = base\<rparr>"

text \<open>\<open>root.join(exec_path.trim_start_matches('/'))\<close>.\<close>

definition join_path :: "string \<Rightarrow> string \<Rightarrow> string" where
  "join_path root p = (if root = [] \<or> last root = CHR ''/'' then root @ p else root @ ''/'' @ p)"

definition validate_rootfs :: "vm_os \<Rightarrow> string \<Rightarrow> string \<Rightarrow> vm_error + unit" where
  "validate_rootfs os root exec =
     (if \<not> vo_is_dir os root then Inl (RootfsInvalid (''rootfs directory not found: '' @ root))
      else
        (let p = join_path root (dropWhile (\<lambda>c. c = CHR ''/'') exec)
         in if \<not> vo_exists os p then Inl (RootfsInvalid (''agent binary not found at '' @ p)) else Inr ()))"

definition spawn_vm_process :: "vm_os \<Rightarrow> vm_config \<Rightarrow> vm_world \<Rightarrow> (vm_error + u32) \<times> vm_world" where
  "spawn_vm_process os c w =
     (case vo_print os (vm_config_json c) of
        Inl e \<Rightarrow> (Inl (Internal e), w)
      | Inr text \<Rightarrow>
          (case vo_spawn os (vw_spawns w) of
             Inl e \<Rightarrow> (Inl (SpawnFailed e), w\<lparr>vw_spawns := vw_spawns w + 1\<rparr>)
           | Inr pid \<Rightarrow>
               (Inr pid, w\<lparr>vw_spawns := vw_spawns w + 1, vw_children := (pid, text) # vw_children w\<rparr>)))"

definition start_agent ::
    "vm_os \<Rightarrow> instant \<Rightarrow> agent_manifest \<Rightarrow> (string, string) hashmap \<Rightarrow> vm_manager \<times> vm_world \<Rightarrow>
     (vm_error + u32) \<times> vm_manager \<times> vm_world" where
  "start_agent os now m secrets st =
     (let (mgr, w) = st; n = am_name (mf_agent m)
      in if map_of (vmm_vms mgr) n \<noteq> None then (Inl (AlreadyRunning n), mgr, w)
         else
           (let c = vm_config_of os (vmm_rootfs_base mgr) m secrets;
                w1 = w\<lparr>vw_dirs := vw_dirs w @ map vm_host_path (vc_virtiofs c)\<rparr>
            in case validate_rootfs os (vc_root_path c) (vc_exec_path c) of
                 Inl e \<Rightarrow> (Inl e, mgr, w1)
               | Inr _ \<Rightarrow>
                   (case spawn_vm_process os c w1 of
                      (Inl e, w2) \<Rightarrow> (Inl e, mgr, w2)
                    | (Inr pid, w2) \<Rightarrow>
                        (let health = map_option (\<lambda>hc. \<lparr>hs_config = hc, hs_failures = 0, hs_last_check = now\<rparr>)
                               (cp_health_check (mf_capabilities m));
                             vm = \<lparr>rv_agent_name = n, rv_pid = pid, rv_vcpus = vc_vcpus c, rv_ram_mib = vc_ram_mib c,
                                   rv_health = health\<rparr>
                         in (Inr pid, mgr\<lparr>vmm_vms := AList.update n vm (vmm_vms mgr)\<rparr>, w2)))))"

text \<open>The result of \<open>kill\<close> is ignored.\<close>

definition stop_agent :: "string \<Rightarrow> vm_manager \<times> vm_world \<Rightarrow> (vm_error + unit) \<times> vm_manager \<times> vm_world" where
  "stop_agent n st =
     (let (mgr, w) = st
      in case map_of (vmm_vms mgr) n of
           None \<Rightarrow> (Inl (NotRunning n), mgr, w)
         | Some vm \<Rightarrow>
             (Inr (), mgr\<lparr>vmm_vms := AList.delete n (vmm_vms mgr)\<rparr>, w\<lparr>vw_terms := vw_terms w @ [rv_pid vm]\<rparr>))"

definition handle_exit :: "vm_os \<Rightarrow> u32 \<Rightarrow> int \<Rightarrow> vm_manager \<Rightarrow> vm_exit option \<times> vm_manager" where
  "handle_exit os pid status mgr =
     (case find (\<lambda>(_, vm). rv_pid vm = pid) (vo_it_vms os (vmm_vms mgr)) of
        None \<Rightarrow> (None, mgr)
      | Some (n, _) \<Rightarrow>
          (Some \<lparr>ve_agent_name = n, ve_exit_status = status\<rparr>, mgr\<lparr>vmm_vms := AList.delete n (vmm_vms mgr)\<rparr>))"

definition list_vms :: "vm_os \<Rightarrow> vm_manager \<Rightarrow> running_vm list" where
  "list_vms os mgr = map snd (vo_it_vms os (vmm_vms mgr))"

definition is_running :: "vm_manager \<Rightarrow> string \<Rightarrow> bool" where
  "is_running mgr n \<longleftrightarrow> map_of (vmm_vms mgr) n \<noteq> None"

text \<open>The check of one VM: its new health state, whether it is unhealthy, and whether it connected.\<close>

definition check_vm :: "vm_os \<Rightarrow> instant \<Rightarrow> nat \<Rightarrow> health_state \<Rightarrow> health_state \<times> bool \<times> bool" where
  "check_vm os now n h =
     (if now - hs_last_check h < secs (unat (hc_interval_secs (hs_config h))) then (h, False, False)
      else if vo_connect os n (hc_port (hs_config h)) then (h\<lparr>hs_last_check := now, hs_failures := 0\<rparr>, False, True)
      else
        (let f = hs_failures h + 1
         in (h\<lparr>hs_last_check := now, hs_failures := f\<rparr>, hc_max_failures (hs_config h) \<le> f, True)))"

fun sweep :: "vm_os \<Rightarrow> instant \<Rightarrow> (string \<times> running_vm) list \<Rightarrow> nat \<Rightarrow>
    (string \<times> running_vm) list \<times> string list \<times> nat" where
  "sweep os now [] n = ([], [], n)"
| "sweep os now ((k, vm) # vms) n =
     (case rv_health vm of
        None \<Rightarrow> (let (vs, us, n') = sweep os now vms n in ((k, vm) # vs, us, n'))
      | Some h \<Rightarrow>
          (let (h', bad, tried) = check_vm os now n h;
               (vs, us, n') = sweep os now vms (if tried then n + 1 else n)
           in ((k, vm\<lparr>rv_health := Some h'\<rparr>) # vs, (if bad then k # us else us), n')))"

definition health_check_sweep ::
    "vm_os \<Rightarrow> instant \<Rightarrow> vm_manager \<times> vm_world \<Rightarrow> string list \<times> vm_manager \<times> vm_world" where
  "health_check_sweep os now st =
     (let (mgr, w) = st; (vs, us, n) = sweep os now (vo_it_vms os (vmm_vms mgr)) (vw_connects w)
      in (us, mgr\<lparr>vmm_vms := vs\<rparr>, w\<lparr>vw_connects := n\<rparr>))"

definition vm_should_restart :: "int \<Rightarrow> bool" where
  "vm_should_restart status \<longleftrightarrow> status \<noteq> 0"

section \<open>Lemmas\<close>

lemma unat_min_100: "unat (min p (100 :: u32)) = min (unat p) 100"
  by (auto simp: min_def word_le_nat_alt)

lemma unat_div_ceil:
  assumes "unat a \<le> 100"
  shows "unat (div_ceil a 25) = (unat a + 24) div 25"
proof -
  have d: "unat (a div 25) = unat a div 25" by (simp add: unat_div)
  have m: "unat (a mod 25) = unat a mod 25" by (simp add: unat_mod)
  have z: "a mod 25 = 0 \<longleftrightarrow> unat a mod 25 = 0" using m by (metis unat_0 unat_eq_zero)
  have s: "unat (a div 25 + 1) = unat a div 25 + 1"
    using assms d by (simp add: unat_word_ariths)
  have e0: "n mod 25 = 0 \<Longrightarrow> (n + 24) div 25 = n div 25" and e1: "n mod 25 \<noteq> 0 \<Longrightarrow> (n + 24) div 25 = n div 25 + 1"
    for n :: nat
  proof -
    have sum: "(n + 24) div 25 = n div 25 + (n mod 25 + 24) div 25" using div_add1_eq [of n 24 25] by simp
    then show "n mod 25 = 0 \<Longrightarrow> (n + 24) div 25 = n div 25" by simp
    have "(r + 24) div 25 = 1" if "r \<noteq> 0" "r < 25" for r :: nat using that by (intro div_nat_eqI) simp_all
    from this [of "n mod 25"] show "n mod 25 \<noteq> 0 \<Longrightarrow> (n + 24) div 25 = n div 25 + 1" using sum by simp
  qed
  show ?thesis
  proof (cases "a mod 25 = 0")
    case True
    then show ?thesis using d e0 z by (simp add: div_ceil_def)
  next
    case False
    then show ?thesis using s e1 z by (simp add: div_ceil_def)
  qed
qed

text \<open>One vCPU for every started quarter, at least one, and never more than four.\<close>

lemma unat_ucast_small: "unat w < 2 ^ LENGTH('b) \<Longrightarrow> unat (ucast (w :: 'a::len word) :: 'b::len word) = unat w"
  by (simp add: unsigned_ucast_eq take_bit_nat_eq_self)

lemma vcpus_of_value: "unat (vcpus_of p) = max 1 ((min (unat p) 100 + 24) div 25)"
proof -
  define q where "q = min (unat p) 100"
  have q: "q \<le> 100" and m: "unat (min p 100) = q" by (simp_all add: q_def unat_min_100)
  have u1: "unat (ucast (min p 100) :: u8) = q" using q m by (simp add: unat_ucast_small)
  then have u2: "unat (ucast (ucast (min p 100) :: u8) :: u32) = q" using q by (simp add: unat_ucast_small)
  then have c: "unat (div_ceil (ucast (ucast (min p 100) :: u8)) 25) = (q + 24) div 25"
    using q by (simp add: unat_div_ceil)
  have le: "(q + 24) div 25 \<le> 4" using q by linarith
  have r: "unat (min (max (div_ceil (ucast (ucast (min p 100) :: u8)) 25) 1) 8) = max 1 ((q + 24) div 25)"
    using c le by (auto simp: min_def max_def word_le_nat_alt)
  then have "unat (ucast (min (max (div_ceil (ucast (ucast (min p 100) :: u8)) 25) 1) 8) :: u8) = max 1 ((q + 24) div 25)"
    using le by (subst unat_ucast_small) simp_all
  then show ?thesis unfolding vcpus_of_def Let_def q_def .
qed

text \<open>The manager keeps one VM per name, each under its own name and within the bounds.\<close>

definition vm_ok :: "string \<Rightarrow> running_vm \<Rightarrow> bool" where
  "vm_ok n vm \<longleftrightarrow> rv_agent_name vm = n \<and> 1 \<le> unat (rv_vcpus vm) \<and> unat (rv_vcpus vm) \<le> 4 \<and> 64 \<le> unat (rv_ram_mib vm)"

definition vmm_inv :: "vm_manager \<Rightarrow> bool" where
  "vmm_inv mgr \<longleftrightarrow> hm_ok (vmm_vms mgr) \<and> (\<forall>n vm. map_of (vmm_vms mgr) n = Some vm \<longrightarrow> vm_ok n vm)"

lemma vmm_inv_new: "vmm_inv (new_vm_manager base)"
  by (simp add: vmm_inv_def new_vm_manager_def)

lemma vmm_inv_delete: "vmm_inv mgr \<Longrightarrow> vmm_inv (mgr\<lparr>vmm_vms := AList.delete n (vmm_vms mgr)\<rparr>)"
  by (simp add: vmm_inv_def)

lemma vmm_inv_update: "vmm_inv mgr \<Longrightarrow> vm_ok n vm \<Longrightarrow> vmm_inv (mgr\<lparr>vmm_vms := AList.update n vm (vmm_vms mgr)\<rparr>)"
  by (simp add: vmm_inv_def)

lemma vm_config_of_bounds:
  "1 \<le> unat (vc_vcpus (vm_config_of os base m ss))" "unat (vc_vcpus (vm_config_of os base m ss)) \<le> 4"
  "64 \<le> unat (vc_ram_mib (vm_config_of os base m ss))"
  by (auto simp: vm_config_of_def Let_def split_beta vcpus_of_value max_def word_le_nat_alt)

lemma start_agent_cases:
  assumes "start_agent os now m ss (mgr, w) = (res, mgr', w')"
  shows "case res of
    Inl e \<Rightarrow> mgr' = mgr \<and> vw_children w' = vw_children w
  | Inr pid \<Rightarrow> map_of (vmm_vms mgr) (am_name (mf_agent m)) = None \<and>
      (\<exists>text vm. vo_print os (vm_config_json (vm_config_of os (vmm_rootfs_base mgr) m ss)) = Inr text \<and>
         vw_children w' = (pid, text) # vw_children w \<and> rv_pid vm = pid \<and> rv_agent_name vm = am_name (mf_agent m) \<and>
         rv_vcpus vm = vc_vcpus (vm_config_of os (vmm_rootfs_base mgr) m ss) \<and>
         rv_ram_mib vm = vc_ram_mib (vm_config_of os (vmm_rootfs_base mgr) m ss) \<and>
         rv_health vm = map_option (\<lambda>hc. \<lparr>hs_config = hc, hs_failures = 0, hs_last_check = now\<rparr>)
           (cp_health_check (mf_capabilities m)) \<and>
         mgr' = mgr\<lparr>vmm_vms := AList.update (am_name (mf_agent m)) vm (vmm_vms mgr)\<rparr>)"
  using assms
  by (auto simp: start_agent_def Let_def spawn_vm_process_def split: if_splits sum.splits prod.splits
      intro!: exI [of _ "\<lparr>rv_agent_name = am_name (mf_agent m), rv_pid = projr res,
        rv_vcpus = vc_vcpus (vm_config_of os (vmm_rootfs_base mgr) m ss),
        rv_ram_mib = vc_ram_mib (vm_config_of os (vmm_rootfs_base mgr) m ss),
        rv_health = map_option (\<lambda>hc. \<lparr>hs_config = hc, hs_failures = 0, hs_last_check = now\<rparr>)
          (cp_health_check (mf_capabilities m))\<rparr>"])

lemma start_agent_inv:
  assumes "vmm_inv mgr" and "start_agent os now m ss (mgr, w) = (res, mgr', w')"
  shows "vmm_inv mgr'"
  using start_agent_cases [OF assms(2)] assms(1) vm_config_of_bounds
  by (cases res) (auto intro!: vmm_inv_update simp: vm_ok_def)

lemma stop_agent_inv: "vmm_inv mgr \<Longrightarrow> stop_agent n (mgr, w) = (res, mgr', w') \<Longrightarrow> vmm_inv mgr'"
  by (auto simp: stop_agent_def vmm_inv_delete split: option.splits)

lemma handle_exit_inv: "vmm_inv mgr \<Longrightarrow> handle_exit os pid status mgr = (r, mgr') \<Longrightarrow> vmm_inv mgr'"
  by (auto simp: handle_exit_def vmm_inv_delete split: option.splits)

definition same_vm :: "string \<times> running_vm \<Rightarrow> string \<times> running_vm \<Rightarrow> bool" where
  "same_vm p q \<longleftrightarrow> fst q = fst p \<and> (\<exists>h. snd q = (snd p)\<lparr>rv_health := h\<rparr>)"

lemma sweep_same: "list_all2 same_vm vms (fst (sweep os now vms n))"
proof (induction vms arbitrary: n)
  case Nil
  then show ?case by simp
next
  case (Cons p vms)
  obtain k vm where p: "p = (k, vm)" by (cases p)
  have refl: "same_vm (k, vm) (k, vm)" by (auto simp: same_vm_def intro: exI [of _ "rv_health vm"])
  have upd: "same_vm (k, vm) (k, vm\<lparr>rv_health := h\<rparr>)" for h by (auto simp: same_vm_def)
  from Cons.IH refl upd show ?case
    by (cases "rv_health vm") (simp_all add: p split_beta Let_def)
qed

lemma sweep_unhealthy: "set (fst (snd (sweep os now vms n))) \<subseteq> fst ` set vms"
proof (induction vms arbitrary: n)
  case (Cons p vms)
  obtain k vm where p: "p = (k, vm)" by (cases p)
  have IH: "x \<in> fst ` set vms" if "x \<in> set (fst (snd (sweep os now vms m)))" for x m using Cons.IH that by blast
  show ?case
    by (cases "rv_health vm") (auto simp: p split_beta Let_def dest!: IH split: if_splits)
qed simp

lemma same_vms_keys: "list_all2 same_vm vms vs \<Longrightarrow> map fst vs = map fst vms"
  by (induction rule: list_all2_induct) (auto simp: same_vm_def)

lemma same_vms_get:
  "list_all2 same_vm vms vs \<Longrightarrow> map_of vs n = Some v \<Longrightarrow> \<exists>h vm. map_of vms n = Some vm \<and> v = vm\<lparr>rv_health := h\<rparr>"
  by (induction rule: list_all2_induct) (auto simp: same_vm_def split: if_splits)

lemma health_sweep_inv:
  assumes "vmm_inv mgr" and "is_iter (vo_it_vms os)" and "health_check_sweep os now (mgr, w) = (us, mgr', w')"
  shows "vmm_inv mgr' \<and> hm_keys (vmm_vms mgr') = hm_keys (vmm_vms mgr) \<and> set us \<subseteq> hm_keys (vmm_vms mgr) \<and>
    vw_children w' = vw_children w"
proof -
  let ?vms = "vo_it_vms os (vmm_vms mgr)"
  let ?vs = "fst (sweep os now ?vms (vw_connects w))"
  have m: "mgr' = mgr\<lparr>vmm_vms := ?vs\<rparr>" and us: "us = fst (snd (sweep os now ?vms (vw_connects w)))"
    and w: "vw_children w' = vw_children w"
    using assms(3) by (auto simp: health_check_sweep_def Let_def split_beta)
  note same = sweep_same [of ?vms os now "vw_connects w"]
  have set: "set ?vms = set (vmm_vms mgr)" by (rule is_iter_set [OF assms(2)])
  have ok: "hm_ok ?vms" and get: "map_of ?vms = map_of (vmm_vms mgr)"
    using assms(1,2) by (simp_all add: vmm_inv_def hm_ok_iter map_of_iter)
  have "hm_ok ?vs" using ok same_vms_keys [OF same] by (simp add: hm_ok_def)
  moreover have "hm_keys ?vs = hm_keys (vmm_vms mgr)"
    using same_vms_keys [OF same] set unfolding hm_keys_def by (metis image_set)
  moreover have "vm_ok n v" if "map_of ?vs n = Some v" for n v
    using same_vms_get [OF same that] get assms(1) by (auto simp: vmm_inv_def vm_ok_def)
  moreover have "set us \<subseteq> hm_keys (vmm_vms mgr)"
    using sweep_unhealthy [of os now ?vms "vw_connects w"] set unfolding us hm_keys_def by simp
  ultimately show ?thesis using w by (simp add: m vmm_inv_def)
qed

section \<open>Properties\<close>

text \<open>
  C39: a start either changes nothing or starts one VM. On success the agent was not running, one child
  was spawned, its input is the configuration of the manifest, and the manager has the VM with the
  child's process id, one vCPU for every started quarter of the CPU share but between one and four, at
  least 64 MiB, and a fresh health state exactly if the manifest asks for checks.
\<close>

theorem start_agent_spec:
  "case start_agent os now m ss (mgr, w) of
     (Inl e, mgr', w') \<Rightarrow> mgr' = mgr \<and> vw_children w' = vw_children w
   | (Inr pid, mgr', w') \<Rightarrow> \<not> is_running mgr (am_name (mf_agent m)) \<and>
       (\<exists>inp vm. vo_print os (vm_config_json (vm_config_of os (vmm_rootfs_base mgr) m ss)) = Inr inp \<and>
          vw_children w' = (pid, inp) # vw_children w \<and>
          map_of (vmm_vms mgr') = (map_of (vmm_vms mgr))(am_name (mf_agent m) \<mapsto> vm) \<and> rv_pid vm = pid \<and>
          unat (rv_vcpus vm) = max 1 ((min (unat (cp_max_cpu_percent (mf_capabilities m))) 100 + 24) div 25) \<and>
          1 \<le> unat (rv_vcpus vm) \<and> unat (rv_vcpus vm) \<le> 4 \<and>
          rv_ram_mib vm = max (cp_max_memory_mb (mf_capabilities m)) 64 \<and>
          rv_health vm = map_option (\<lambda>hc. \<lparr>hs_config = hc, hs_failures = 0, hs_last_check = now\<rparr>)
            (cp_health_check (mf_capabilities m)))"
proof -
  obtain res mgr' w' where s: "start_agent os now m ss (mgr, w) = (res, mgr', w')" by (metis prod.collapse)
  let ?c = "vm_config_of os (vmm_rootfs_base mgr) m ss"
  have v: "unat (vc_vcpus ?c) = max 1 ((min (unat (cp_max_cpu_percent (mf_capabilities m))) 100 + 24) div 25)"
    "vc_ram_mib ?c = max (cp_max_memory_mb (mf_capabilities m)) 64"
    by (simp_all add: vm_config_of_def Let_def split_beta vcpus_of_value)
  show ?thesis
  proof (cases res)
    case (Inl e)
    with start_agent_cases [OF s] s show ?thesis by simp
  next
    case (Inr pid)
    with start_agent_cases [OF s] obtain inp vm where vm: "map_of (vmm_vms mgr) (am_name (mf_agent m)) = None"
      "vo_print os (vm_config_json ?c) = Inr inp" "vw_children w' = (pid, inp) # vw_children w" "rv_pid vm = pid"
      "rv_vcpus vm = vc_vcpus ?c" "rv_ram_mib vm = vc_ram_mib ?c"
      "rv_health vm = map_option (\<lambda>hc. \<lparr>hs_config = hc, hs_failures = 0, hs_last_check = now\<rparr>) (cp_health_check (mf_capabilities m))"
      "mgr' = mgr\<lparr>vmm_vms := AList.update (am_name (mf_agent m)) vm (vmm_vms mgr)\<rparr>" by auto
    have b: "1 \<le> unat (rv_vcpus vm)" "unat (rv_vcpus vm) \<le> 4"
      using vm_config_of_bounds(1,2) [of os "vmm_rootfs_base mgr" m ss] vm(5) by simp_all
    have "map_of (vmm_vms mgr') = (map_of (vmm_vms mgr))(am_name (mf_agent m) \<mapsto> vm)" using vm(8) by simp
    with vm b v s Inr show ?thesis by (auto simp: is_running_def)
  qed
qed

end
