(* ===== verification/Vm_Child.thy ===== *)
theory Vm_Child
  imports Vm
begin

text \<open>
  Model of the VM runner mode of \<open>pkg/cage/src/main.rs\<close> (\<open>run_vm_child\<close>): the process that reads a
  configuration from its standard input, sets the VM up, restricts itself with Landlock and seccomp, and
  enters the VM. The lemmas connect it with the manager that spawned it: the child runs the
  configuration of the parent, in the sandbox of the parent's manifest.
\<close>

section \<open>The process\<close>

record process =
  ps_landlock :: landlock_state
  ps_seccomp :: sandbox_state

text \<open>
  \<open>ce_no_sandbox\<close> says whether \<open>CAGE_NO_SANDBOX\<close> is set; \<open>ce_prctl\<close> are the results of seccomp's two
  calls, \<open>ce_sysno\<close> the numbers of libc's system call constants.
\<close>

record child_env =
  ce_parse :: "string \<Rightarrow> string + json"
  ce_no_sandbox :: bool
  ce_landlock :: landlock_env
  ce_prctl :: "nat \<Rightarrow> int"
  ce_sysno :: "string \<Rightarrow> int"
  ce_krun :: libkrun

definition parse_as :: "child_env \<Rightarrow> (json \<Rightarrow> 'a option) \<Rightarrow> string \<Rightarrow> 'a option" where
  "parse_as env de s = (case ce_parse env s of Inl _ \<Rightarrow> None | Inr v \<Rightarrow> de v)"

definition apply_seccomp :: "child_env \<Rightarrow> agent_manifest \<Rightarrow> process \<Rightarrow> nat option \<times> process" where
  "apply_seccomp env m p =
     (case seccomp_apply (ce_prctl env) (build_profile (ce_sysno env) m) False (ps_seccomp p) of
        (Inr _, s) \<Rightarrow> (None, p\<lparr>ps_seccomp := s\<rparr>)
      | (Inl _, s) \<Rightarrow> (Some 1, p\<lparr>ps_seccomp := s\<rparr>))"

definition pre_enter :: "child_env \<Rightarrow> vm_config \<Rightarrow> process \<Rightarrow> nat option \<times> process" where
  "pre_enter env c p =
     (if ce_no_sandbox env then (None, p)
      else case vc_manifest c of
             None \<Rightarrow> (None, p)
           | Some t \<Rightarrow>
               (case parse_as env de_manifest t of
                  None \<Rightarrow> (None, p)
                | Some m \<Rightarrow>
                    (case sandbox_apply (ce_landlock env) (build_sandbox c m) (ps_landlock p) of
                       (Inr _, l) \<Rightarrow> apply_seccomp env m (p\<lparr>ps_landlock := l\<rparr>)
                     | (Inl NotSupported, l) \<Rightarrow> apply_seccomp env m (p\<lparr>ps_landlock := l\<rparr>)
                     | (Inl _, l) \<Rightarrow> (Some 1, p\<lparr>ps_landlock := l\<rparr>))))"

text \<open>\<open>None\<close> is a standard input that cannot be read or is not UTF-8. Every failure ends with code 1.\<close>

definition run_vm_child :: "child_env \<Rightarrow> string option \<Rightarrow> process \<Rightarrow> vm_outcome \<times> process \<times> krun_state" where
  "run_vm_child env input p =
     (case Option.bind input (parse_as env de_vm_config) of
        None \<Rightarrow> (Vm_exited 1, p, [])
      | Some c \<Rightarrow> run_vm (ce_krun env) c (pre_enter env c) p [])"

section \<open>Lemmas\<close>

text \<open>The child's parser reads back what the parent's printer writes for this value.\<close>

definition pipes :: "vm_os \<Rightarrow> child_env \<Rightarrow> json \<Rightarrow> bool" where
  "pipes os env v \<longleftrightarrow> (\<forall>t. vo_print os v = Inr t \<longrightarrow> ce_parse env t = Inr v)"

lemma build_sandbox_tools: "build_sandbox c (m\<lparr>mf_tools := ts\<rparr>) = build_sandbox c m"
  by (simp add: build_sandbox_def)

lemma build_profile_tools: "build_profile sysno (m\<lparr>mf_tools := ts\<rparr>) = build_profile sysno m"
  by (simp add: build_profile_def)

lemma apply_seccomp_ok:
  assumes "apply_seccomp env m p = (None, p')"
  shows "ps_landlock p' = ps_landlock p \<and> no_new_privs (ps_seccomp p') \<and>
    (\<exists>prog n. assemble_bpf (build_profile (ce_sysno env) m) False = Inr prog \<and>
       filters (ps_seccomp p') = take n prog # filters (ps_seccomp p))"
  using assms by (auto simp: apply_seccomp_def seccomp_apply_def Let_def split: prod.splits sum.splits if_splits)

lemma apply_seccomp_filter:
  assumes "apply_seccomp env m p = (None, p')"
  shows "\<exists>prog. assemble_bpf (build_profile (ce_sysno env) m) False = Inr prog \<and>
    filters (ps_seccomp p') = prog # filters (ps_seccomp p)"
proof -
  obtain prog where p: "assemble_bpf (build_profile (ce_sysno env) m) False = Inr prog"
    "length prog = length (build_profile (ce_sysno env) m) + 3"
    using profile_length [of "ce_sysno env" m] by (auto simp: assemble_cases)
  have "unat (of_nat (length prog) :: u16) = length prog"
    using p(2) profile_length [of "ce_sysno env" m] by (intro unat_of_nat_small) simp
  with assms p(1) show ?thesis
    by (auto simp: apply_seccomp_def seccomp_apply_def Let_def split: if_splits)
qed

text \<open>What the hook has done when it returns, for a configuration with a readable manifest.\<close>

lemma pre_enter_ok:
  assumes "pre_enter env c p = (None, p')" and "\<not> ce_no_sandbox env" and "vc_manifest c = Some t"
    and "parse_as env de_manifest t = Some m"
  shows "(if 0 < le_sys (ce_landlock env) (ll_calls (ps_landlock p)) \<and>
        le_sys (ce_landlock env) (ll_calls (ps_landlock p) + 1) \<noteq> - ENOSYS
      then ll_domains (ps_landlock p') =
        filter (\<lambda>r. le_exists (ce_landlock env) (pr_path r)) (build_sandbox c m) # ll_domains (ps_landlock p)
      else ll_domains (ps_landlock p') = ll_domains (ps_landlock p)) \<and>
    no_new_privs (ps_seccomp p') \<and>
    (\<exists>prog. assemble_bpf (build_profile (ce_sysno env) m) False = Inr prog \<and>
       filters (ps_seccomp p') = prog # filters (ps_seccomp p))"
proof -
  let ?e = "ce_landlock env" and ?n = "ll_calls (ps_landlock p)"
  obtain r l where a: "sandbox_apply ?e (build_sandbox c m) (ps_landlock p) = (r, l)" by fastforce
  have s: "apply_seccomp env m (p\<lparr>ps_landlock := l\<rparr>) = (None, p')" and r: "r = Inr () \<or> r = Inl NotSupported"
    using assms a by (auto simp: pre_enter_def split: sum.splits sandbox_error.splits)
  have ns: "r = Inl NotSupported \<Longrightarrow> 0 < le_sys ?e ?n \<and> le_sys ?e (?n + 1) = - ENOSYS"
    using a by (auto simp: sandbox_apply_def ll_call_def landlock_create_ruleset_def landlock_restrict_self_def
        Let_def split: prod.splits sum.splits if_splits dest: add_rules_not_ns)
  have ok: "r = Inr () \<Longrightarrow> 0 < le_sys ?e ?n \<Longrightarrow> le_sys ?e (?n + 1) \<noteq> - ENOSYS"
    using a by (auto simp: sandbox_apply_def ll_call_def landlock_create_ruleset_def Let_def ENOSYS_def
        split: if_splits)
  note d = sandbox_apply_cases [OF a]
  from apply_seccomp_ok [OF s] apply_seccomp_filter [OF s] d r ns ok show ?thesis by auto
qed

section \<open>Properties\<close>

text \<open>
  C40: the child runs what the parent configured. The text that the manager writes to its child parses
  to the very configuration it was printed from, and the manifest inside it to the manifest, up to the
  order of the tools; for every configuration and every manifest with distinct tools, provided that the
  JSON parser reads back what the printer wrote.
\<close>

theorem config_reaches_child:
  assumes "hm_ok (mf_tools m)" and "is_iter (vo_it_tools os)"
    and "pipes os env (vm_config_json (vm_config_of os base m ss))"
    and "pipes os env (manifest_json (vo_it_tools os) m)"
    and "vo_print os (vm_config_json (vm_config_of os base m ss)) = Inr t"
    and "vo_print os (manifest_json (vo_it_tools os) m) = Inr t'"
  shows "parse_as env de_vm_config t = Some (vm_config_of os base m ss) \<and>
    vc_manifest (vm_config_of os base m ss) = Some t' \<and>
    parse_as env de_manifest t' = Some (m\<lparr>mf_tools := vo_it_tools os (mf_tools m)\<rparr>)"
  using assms
  by (simp add: parse_as_def pipes_def de_vm_config_json de_manifest_json) (simp add: vm_config_of_def Let_def split_beta)

text \<open>
  C4: a VM runs only in its sandbox. If the child of a started agent enters the VM, and the sandbox is
  not switched off by the environment, then every libkrun setting of the parent's configuration was made
  first, the process has the seccomp filter of the manifest's profile and no way to gain privileges, and
  it is restricted by exactly the Landlock rules of the manifest whose path exists, if the kernel has
  Landlock at all.
\<close>

theorem vm_child_sandboxed:
  assumes "hm_ok (mf_tools m)" and "is_iter (vo_it_tools os)"
    and "pipes os env (vm_config_json (vm_config_of os base m ss))"
    and "pipes os env (manifest_json (vo_it_tools os) m)"
    and "vo_print os (vm_config_json (vm_config_of os base m ss)) = Inr t"
    and "vo_print os (manifest_json (vo_it_tools os) m) = Inr t'"
    and "\<not> ce_no_sandbox env" and "run_vm_child env (Some t) p = (Vm_entered, p', h)"
  shows "(if 0 < le_sys (ce_landlock env) (ll_calls (ps_landlock p)) \<and>
        le_sys (ce_landlock env) (ll_calls (ps_landlock p) + 1) \<noteq> - ENOSYS
      then ll_domains (ps_landlock p') = filter (\<lambda>r. le_exists (ce_landlock env) (pr_path r))
          (build_sandbox (vm_config_of os base m ss) m) # ll_domains (ps_landlock p)
      else ll_domains (ps_landlock p') = ll_domains (ps_landlock p)) \<and>
    no_new_privs (ps_seccomp p') \<and>
    (\<exists>prog. assemble_bpf (build_profile (ce_sysno env) m) False = Inr prog \<and>
       filters (ps_seccomp p') = prog # filters (ps_seccomp p)) \<and>
    (\<exists>ctx. h = CreateCtx # setup_calls ctx (vm_config_of os base m ss) @ [StartEnter ctx])"
proof -
  let ?c = "vm_config_of os base m ss" and ?m = "m\<lparr>mf_tools := vo_it_tools os (mf_tools m)\<rparr>"
  have c: "parse_as env de_vm_config t = Some ?c" "vc_manifest ?c = Some t'" "parse_as env de_manifest t' = Some ?m"
    using assms(1-6)
    by (simp_all add: parse_as_def pipes_def de_vm_config_json de_manifest_json) (simp add: vm_config_of_def Let_def split_beta)
  have r: "run_vm (ce_krun env) ?c (pre_enter env ?c) p [] = (Vm_entered, p', h)"
    using assms(8) c(1) by (simp add: run_vm_child_def)
  from run_vm_order [where lib = "ce_krun env" and c = ?c and pre = "pre_enter env ?c" and p = p and h = "[]"] r
  have pre: "pre_enter env ?c p = (None, p')" and h: "\<exists>ctx. h = CreateCtx # setup_calls ctx ?c @ [StartEnter ctx]"
    by simp_all
  from pre_enter_ok [OF pre assms(7) c(2,3)] h show ?thesis
    unfolding build_sandbox_tools build_profile_tools by blast
qed

definition sample_vm_os :: vm_os where
  "sample_vm_os = \<lparr>vo_spawn = (\<lambda>_. Inr 7), vo_exists = (\<lambda>_. True), vo_is_dir = (\<lambda>_. True), vo_connect = (\<lambda>_ _. True),
     vo_print = (\<lambda>v. if v = manifest_json (\<lambda>x. x) (sample_manifest ''a'' []) then Inr ''m'' else Inr ''c''),
     vo_it_tools = (\<lambda>x. x), vo_it_secrets = (\<lambda>x. x), vo_it_vms = (\<lambda>x. x)\<rparr>"

definition sample_config :: vm_config where
  "sample_config = vm_config_of sample_vm_os ''/r'' (sample_manifest ''a'' []) []"

definition sample_child_env :: child_env where
  "sample_child_env = \<lparr>ce_parse = (\<lambda>t. if t = ''m'' then Inr (manifest_json (\<lambda>x. x) (sample_manifest ''a'' []))
       else Inr (vm_config_json sample_config)),
     ce_no_sandbox = False,
     ce_landlock = \<lparr>le_sys = (\<lambda>n. if n < 2 then 3 else 0), le_exists = (\<lambda>p. p = ''/run/''), le_open = (\<lambda>_. None)\<rparr>,
     ce_prctl = (\<lambda>_. 0), ce_sysno = x86_64_sysno,
     ce_krun = \<lparr>lk_result = (\<lambda>_ _. 0), lk_enters = (\<lambda>_. True)\<rparr>\<rparr>"

definition fresh_process :: process where
  "fresh_process = \<lparr>ps_landlock = \<lparr>ll_domains = [], ll_calls = 0, ll_nnp = False, ll_open = []\<rparr>,
     ps_seccomp = \<lparr>no_new_privs = False, filters = []\<rparr>\<rparr>"

lemma json_docs_differ: "vm_config_json c \<noteq> manifest_json it m"
  by (simp add: vm_config_json_def manifest_json_def)

lemma sample_pipes:
  "pipes sample_vm_os sample_child_env (vm_config_json (vm_config_of sample_vm_os ''/r'' (sample_manifest ''a'' []) []))"
  "pipes sample_vm_os sample_child_env (manifest_json (vo_it_tools sample_vm_os) (sample_manifest ''a'' []))"
  "vo_print sample_vm_os (vm_config_json (vm_config_of sample_vm_os ''/r'' (sample_manifest ''a'' []) [])) = Inr ''c''"
  "vo_print sample_vm_os (manifest_json (vo_it_tools sample_vm_os) (sample_manifest ''a'' [])) = Inr ''m''"
  "hm_ok (mf_tools (sample_manifest ''a'' []))" "is_iter (vo_it_tools sample_vm_os)" "\<not> ce_no_sandbox sample_child_env"
  using json_docs_differ
  by (simp_all add: pipes_def sample_vm_os_def sample_child_env_def sample_config_def sample_manifest_def)

theorem config_reaches_child_witness:
  "parse_as sample_child_env de_vm_config ''c'' = Some sample_config \<and> vc_manifest sample_config = Some ''m''"
  using config_reaches_child [OF sample_pipes(5,6,1,2,3,4)] by (simp add: sample_config_def)

lemma show_nat_nul: "CHR 0x00 \<notin> set (show_nat n)"
  using show_nat_digits [of "CHR 0x00" n] by (auto simp: is_digit_def)

lemma sample_setup: "\<exists>h. vm_setup (ce_krun sample_child_env) sample_config [] = (Inr 0, h)"
proof -
  have lib: "ce_krun sample_child_env = \<lparr>lk_result = (\<lambda>_ _. 0), lk_enters = (\<lambda>_. True)\<rparr>" by (simp add: sample_child_env_def)
  have c: "vc_root_path sample_config = ''/r/a''" "vc_exec_path sample_config = ''/agent/bin/a''" "vc_args sample_config = []"
    "vc_env sample_config = [''AGENT_NAME=a'', ''CTXGRAPH_PORT=9100'']" "vc_port_map sample_config = []"
    "vc_workdir sample_config = ''/''" "vc_virtiofs sample_config = []" "vc_console sample_config = None"
    "vc_rlimits sample_config = build_rlimits (sample_manifest ''a'' [])"
    by (simp_all add: sample_config_def vm_config_of_def Let_def exec_of_def sample_manifest_def build_virtiofs_mounts_def
        sample_vm_os_def default_capabilities_def)
  have cstr: "cstring s h = (Inr s, h)" if "CHR 0x00 \<notin> set s" for s h using that by simp
  have rl: "cstrings (build_rlimits m) h = (Inr (build_rlimits m), h)" for m h
    by (simp add: build_rlimits_def Let_def st_bind_def cstr show_nat_nul)
  have ne: "build_rlimits m \<noteq> []" for m by (simp add: build_rlimits_def Let_def)
  show ?thesis
    unfolding vm_setup_def set_exec_def lib
    by (simp add: st_bind_def create_ctx_def checked_def c cstr set_ports_def set_rlimits_def set_console_def rl ne Let_def)
qed

lemma sample_pre_enter: "\<exists>p. pre_enter sample_child_env sample_config fresh_process = (None, p)"
proof -
  let ?m = "sample_manifest ''a'' []"
  have m: "vc_manifest sample_config = Some ''m''" "parse_as sample_child_env de_manifest ''m'' = Some ?m"
    using config_reaches_child_witness de_manifest_json [of ?m "\<lambda>x. x"]
    by (simp_all add: parse_as_def sample_child_env_def sample_manifest_def)
  obtain l where l: "sandbox_apply (ce_landlock sample_child_env) (build_sandbox sample_config ?m) (ps_landlock fresh_process) = (Inr (), l)"
    by (simp add: sandbox_apply_def ll_call_def landlock_create_ruleset_def landlock_add_rule_def landlock_restrict_self_def
        build_sandbox_def rule_def sample_child_env_def fresh_process_def sample_config_def vm_config_of_def exec_of_def
        build_virtiofs_mounts_def sample_manifest_def default_capabilities_def Let_def)
  obtain prog where "assemble_bpf (build_profile (ce_sysno sample_child_env) ?m) False = Inr prog"
    using profile_length [of "ce_sysno sample_child_env" ?m] by (auto simp: assemble_cases)
  then have "\<exists>p. apply_seccomp sample_child_env ?m q = (None, p)" for q
    by (simp add: apply_seccomp_def seccomp_apply_def Let_def) (simp add: sample_child_env_def)
  with m l show ?thesis by (simp add: pre_enter_def sample_pipes(7))
qed

theorem vm_child_sandboxed_witness:
  "\<exists>p' h. run_vm_child sample_child_env (Some ''c'') fresh_process = (Vm_entered, p', h) \<and>
     ll_domains (ps_landlock p') = [[rule ''/run/'' ACCESS_READ_WRITE]] \<and> no_new_privs (ps_seccomp p')"
proof -
  let ?m = "sample_manifest ''a'' []"
  obtain p' h1 where "pre_enter sample_child_env sample_config fresh_process = (None, p')"
    "vm_setup (ce_krun sample_child_env) sample_config [] = (Inr 0, h1)"
    using sample_pre_enter sample_setup by blast
  moreover have "lk_enters (ce_krun sample_child_env) h1" by (simp add: sample_child_env_def)
  moreover have "parse_as sample_child_env de_vm_config ''c'' = Some sample_config"
    using config_reaches_child_witness by blast
  ultimately have r: "run_vm_child sample_child_env (Some ''c'') fresh_process = (Vm_entered, p', h1 @ [StartEnter 0])"
    by (simp add: run_vm_child_def run_vm_def)
  have e: "0 < le_sys (ce_landlock sample_child_env) (ll_calls (ps_landlock fresh_process))"
    "le_sys (ce_landlock sample_child_env) (ll_calls (ps_landlock fresh_process) + 1) \<noteq> - ENOSYS"
    "ll_domains (ps_landlock fresh_process) = []"
    by (simp_all add: sample_child_env_def fresh_process_def ENOSYS_def)
  have b: "filter (\<lambda>r. le_exists (ce_landlock sample_child_env) (pr_path r)) (build_sandbox sample_config ?m) =
      [rule ''/run/'' ACCESS_READ_WRITE]"
    by (simp add: build_sandbox_def rule_def sample_child_env_def sample_config_def vm_config_of_def exec_of_def
        build_virtiofs_mounts_def sample_manifest_def default_capabilities_def Let_def)
  from vm_child_sandboxed [OF sample_pipes(5,6,1,2,3,4,7) r] r e b show ?thesis
    by (auto simp: sample_config_def)
qed

text \<open>Without a readable manifest in the configuration the VM is entered with no sandbox at all.\<close>

lemma no_manifest_no_sandbox: "vc_manifest c = None \<Longrightarrow> pre_enter env c p = (None, p)"
  by (simp add: pre_enter_def)

end
