(* ===== verification/Deploy.thy ===== *)
theory Deploy
  imports Manifest Fs
begin

text \<open>
  Model of \<open>pkg/cage/src/deploy.rs\<close>: unpacking of an agent bundle. The gzip and tar readers are a
  parameter that gives the entries of the archive, each with its path and content or an error. The
  lemmas show which files an unpacked bundle can touch, whatever is in the archive.
\<close>

section \<open>Data\<close>

datatype deploy_error =
    InvalidBundle string
  | ManifestError string
  | IoError io_error
  | PathTraversal string

fun show_deploy_error :: "deploy_error \<Rightarrow> string" where
  "show_deploy_error (InvalidBundle m) = ''invalid bundle: '' @ m"
| "show_deploy_error (ManifestError m) = ''manifest error: '' @ m"
| "show_deploy_error (IoError e) = ''I/O error: '' @ e"
| "show_deploy_error (PathTraversal m) = ''path traversal rejected: '' @ m"

datatype tar_item = Bad_entry string | Tar_entry "string + string" "io_error + string"

record deploy_env =
  dp_entries :: "string \<Rightarrow> string + tar_item list"
  dp_toml :: "string \<Rightarrow> string + json"
  dp_serde_err :: "string \<Rightarrow> string"
  dp_utf8_err :: "string \<Rightarrow> string"
  dp_io :: io_oracle

section \<open>Lossy text\<close>

text \<open>
  \<open>to_string_lossy\<close>: each maximal ill-formed part becomes U+FFFD. \<open>utf8_head s\<close> is the number of bytes
  at the front that belong together, and whether they are a character.
\<close>

definition second_ok :: "char \<Rightarrow> char \<Rightarrow> bool" where
  "second_ok a b \<longleftrightarrow> cont b \<and> (byte a = 224 \<longrightarrow> 160 \<le> byte b) \<and> (byte a = 237 \<longrightarrow> byte b < 160) \<and>
     (byte a = 240 \<longrightarrow> 144 \<le> byte b) \<and> (byte a = 244 \<longrightarrow> byte b < 144)"

definition utf8_width :: "char \<Rightarrow> nat" where
  "utf8_width a =
     (if byte a < 128 then 1 else if byte a < 194 then 0 else if byte a < 224 then 2
      else if byte a < 240 then 3 else if byte a < 245 then 4 else 0)"

definition utf8_head :: "char \<Rightarrow> string \<Rightarrow> nat \<times> bool" where
  "utf8_head a s =
     (if utf8_width a = 0 then (1, False)
      else if utf8_width a = 1 then (1, True)
      else case s of
             [] \<Rightarrow> (1, False)
           | b # s1 \<Rightarrow>
               (if \<not> second_ok a b then (1, False)
                else if utf8_width a = 2 then (2, True)
                else case s1 of
                       [] \<Rightarrow> (2, False)
                     | c # s2 \<Rightarrow>
                         (if \<not> cont c then (2, False)
                          else if utf8_width a = 3 then (3, True)
                          else case s2 of
                                 [] \<Rightarrow> (3, False)
                               | d # s3 \<Rightarrow> (if cont d then (4, True) else (3, False)))))"

definition replacement :: string where
  "replacement = [CHR 0xEF, CHR 0xBF, CHR 0xBD]"

fun lossy :: "string \<Rightarrow> string" where
  "lossy [] = []"
| "lossy (a # s) =
     (let (n, good) = utf8_head a s
      in (if good then a # take (n - 1) s else replacement) @ lossy (drop (n - 1) s))"

section \<open>Unpacking\<close>

definition validate_entry_path :: "string \<Rightarrow> deploy_error + unit" where
  "validate_entry_path p =
     (if starts_with p ''/'' then Inl (PathTraversal (''absolute path: '' @ lossy p))
      else if ''..'' \<in> set (components p) then
        Inl (PathTraversal (''parent directory reference in: '' @ lossy p))
      else if CHR 0x00 \<in> set (lossy p) then Inl (PathTraversal (''null byte in path: '' @ lossy p))
      else Inr ())"

text \<open>The first pass: all entries with their contents, and the text of the last manifest.\<close>

fun read_entries ::
    "deploy_env \<Rightarrow> tar_item list \<Rightarrow> string option \<Rightarrow> (string \<times> string) list \<Rightarrow>
     deploy_error + string option \<times> (string \<times> string) list" where
  "read_entries env [] man buf = Inr (man, buf)"
| "read_entries env (Bad_entry e # is) man buf = Inl (InvalidBundle (''bad tar entry: '' @ e))"
| "read_entries env (Tar_entry path content # is) man buf =
     (case path of
        Inl e \<Rightarrow> Inl (InvalidBundle (''bad path in tar: '' @ e))
      | Inr p \<Rightarrow>
          (case validate_entry_path p of
             Inl e \<Rightarrow> Inl e
           | Inr _ \<Rightarrow>
               (case content of
                  Inl e \<Rightarrow> Inl (IoError e)
                | Inr c \<Rightarrow>
                    (if file_name p = Some ''AGENT.toml'' \<and> length (components p) = 2 then
                       (if valid_utf8 c then read_entries env is (Some c) (buf @ [(p, c)])
                        else Inl (ManifestError (''AGENT.toml is not valid UTF-8: '' @ dp_utf8_err env c)))
                     else read_entries env is man (buf @ [(p, c)])))))"

definition rootfs_dirs :: "string \<Rightarrow> string list" where
  "rootfs_dirs root =
     map (\<lambda>d. root @ d) [''/agent/bin'', ''/tmp'', ''/proc'', ''/sys'', ''/dev'', ''/etc'', ''/run'', ''/data'', ''/data/output'']"

text \<open>A file system operation whose error ends the unpacking.\<close>

definition io_then ::
    "(fs \<Rightarrow> (io_error + unit) \<times> fs) \<Rightarrow> (fs \<Rightarrow> (deploy_error + 'a) \<times> fs) \<Rightarrow> fs \<Rightarrow> (deploy_error + 'a) \<times> fs" where
  "io_then op k f = (case op f of (Inl e, f1) \<Rightarrow> (Inl (IoError e), f1) | (Inr _, f1) \<Rightarrow> k f1)"

fun make_dirs :: "io_oracle \<Rightarrow> string list \<Rightarrow> (fs \<Rightarrow> (deploy_error + 'a) \<times> fs) \<Rightarrow> fs \<Rightarrow> (deploy_error + 'a) \<times> fs" where
  "make_dirs io [] k f = k f"
| "make_dirs io (d # ds) k f = io_then (fs_mkdirs io d) (make_dirs io ds k) f"

definition extract_file ::
    "io_oracle \<Rightarrow> string \<Rightarrow> string \<Rightarrow> string \<Rightarrow> string \<Rightarrow> string \<Rightarrow>
     (fs \<Rightarrow> (deploy_error + 'a) \<times> fs) \<Rightarrow> fs \<Rightarrow> (deploy_error + 'a) \<times> fs" where
  "extract_file io agent_dir root n file content k f =
     (if file = ''AGENT.toml'' then
        (let dest = agent_dir @ ''/'' @ n @ ''.toml''
         in io_then (fs_mkdirs io (path_parent dest)) (io_then (fs_write io dest content) k) f)
      else if file = n then
        (let dest = root @ ''/agent/bin/'' @ n
         in io_then (fs_write io dest content) (io_then (fs_chmod io dest 493) k) f)
      else if file = ''main.py'' then io_then (fs_write io (root @ ''/agent/main.py'') content) k f
      else if file = ''requirements.txt'' then io_then (fs_write io (root @ ''/agent/requirements.txt'') content) k f
      else io_then (fs_write io (root @ ''/agent/'' @ file) content) k f)"

fun extract_all ::
    "io_oracle \<Rightarrow> string \<Rightarrow> string \<Rightarrow> string \<Rightarrow> (string \<times> string) list \<Rightarrow>
     (fs \<Rightarrow> (deploy_error + 'a) \<times> fs) \<Rightarrow> fs \<Rightarrow> (deploy_error + 'a) \<times> fs" where
  "extract_all io agent_dir root n [] k f = k f"
| "extract_all io agent_dir root n ((p, c) # es) k f =
     (case file_name p of
        None \<Rightarrow> extract_all io agent_dir root n es k f
      | Some fn \<Rightarrow>
          (if c = [] then extract_all io agent_dir root n es k f
           else extract_file io agent_dir root n (lossy fn) c (extract_all io agent_dir root n es k) f))"

text \<open>The second half: the layout of the root file system, then the files.\<close>

definition install ::
    "deploy_env \<Rightarrow> string \<Rightarrow> string \<Rightarrow> agent_manifest \<Rightarrow> (string \<times> string) list \<Rightarrow> fs \<Rightarrow>
     (deploy_error + agent_manifest) \<times> fs" where
  "install env agent_dir base m buf =
     (let n = am_name (mf_agent m); root = base @ ''/'' @ n; io = dp_io env
      in make_dirs io (rootfs_dirs root)
           (io_then (fs_write io (root @ ''/etc/resolv.conf'') (''nameserver 1.1.1.1'' @ [CHR 10]))
              (io_then (fs_write io (root @ ''/etc/hostname'') (n @ [CHR 10]))
                 (extract_all io agent_dir root n buf (\<lambda>f. (Inr m, f))))))"

definition unpack_bundle ::
    "deploy_env \<Rightarrow> string \<Rightarrow> string \<Rightarrow> string \<Rightarrow> fs \<Rightarrow> (deploy_error + agent_manifest) \<times> fs" where
  "unpack_bundle env data agent_dir rootfs_base f =
     (case dp_entries env data of
        Inl e \<Rightarrow> (Inl (InvalidBundle (''cannot read tar entries: '' @ e)), f)
      | Inr items \<Rightarrow>
          (case read_entries env items None [] of
             Inl e \<Rightarrow> (Inl e, f)
           | Inr (None, _) \<Rightarrow> (Inl (InvalidBundle ''AGENT.toml not found in bundle''), f)
           | Inr (Some t, buf) \<Rightarrow>
               (case parse_manifest (dp_toml env) (dp_serde_err env) t of
                  Inl e \<Rightarrow> (Inl (ManifestError (show_manifest_error e)), f)
                | Inr m \<Rightarrow> install env agent_dir rootfs_base m buf f)))"

section \<open>Lemmas\<close>

lemma set_lossy: "set (lossy s) \<subseteq> set s \<union> set replacement"
proof (induction s rule: lossy.induct)
  case (2 a s)
  obtain n good where h: "utf8_head a s = (n, good)" by fastforce
  have "set (lossy (drop (n - 1) s)) \<subseteq> set (drop (n - 1) s) \<union> set replacement" using 2 h by metis
  then show ?case using h set_take_subset [of "n - 1" s] set_drop_subset [of "n - 1" s] by auto
qed simp

lemma lossy_well_formed: "CHR 0xEF \<notin> set (lossy s) \<Longrightarrow> lossy s = s"
proof (induction s rule: lossy.induct)
  case (2 a s)
  obtain n good where h: "utf8_head a s = (n, good)" by fastforce
  with 2(2) have good and rest: "CHR 0xEF \<notin> set (lossy (drop (n - 1) s))"
    by (auto simp: replacement_def split: if_splits)
  moreover have "lossy (drop (n - 1) s) = drop (n - 1) s" using 2(1) h rest by metis
  ultimately show ?case using h by simp
qed simp

text \<open>A name that stays inside its directory.\<close>

definition plain :: "string \<Rightarrow> bool" where
  "plain n \<longleftrightarrow> n \<noteq> [] \<and> CHR ''/'' \<notin> set n \<and> n \<noteq> ''.'' \<and> n \<noteq> ''..''"

lemma plain_file_name:
  assumes "file_name p = Some n"
  shows "plain (lossy n)"
proof (cases "CHR 0xEF \<in> set (lossy n)")
  case True
  then have "lossy n \<noteq> [] \<and> lossy n \<noteq> ''.'' \<and> lossy n \<noteq> ''..''" by auto
  moreover have "CHR ''/'' \<notin> set (lossy n)"
    using set_lossy [of n] file_name_clean [OF assms] by (auto simp: replacement_def)
  ultimately show ?thesis by (simp add: plain_def)
next
  case False
  then show ?thesis using lossy_well_formed [OF False] file_name_clean [OF assms] by (simp add: plain_def)
qed

lemma touches_io_then [touches_intros]:
  assumes "touches S op" "touches S k"
  shows "touches S (io_then op k)"
  unfolding touches_def
proof
  fix f
  obtain r g where g: "op f = (r, g)" by fastforce
  have "changed f g \<subseteq> S" "changed g (snd (k g)) \<subseteq> S"
    using assms g unfolding touches_def by (metis snd_conv)+
  then show "changed f (snd (io_then op k f)) \<subseteq> S"
    using g by (auto simp: io_then_def split: sum.split intro: changed_trans [THEN subsetD])
qed

lemma touches_if [touches_intros]:
  "(b \<Longrightarrow> touches S g) \<Longrightarrow> (\<not> b \<Longrightarrow> touches S h) \<Longrightarrow> touches S (\<lambda>f. if b then g f else h f)"
  by (cases b) auto

lemma touches_make_dirs [touches_intros]:
  "set ds \<subseteq> S \<Longrightarrow> touches S k \<Longrightarrow> touches S (make_dirs io ds k)"
proof (induction ds)
  case Nil
  then show ?case by (simp add: touches_def)
next
  case (Cons d ds)
  then have "touches S (io_then (fs_mkdirs io d) (make_dirs io ds k))" by (intro touches_intros) auto
  then show ?case by (simp add: touches_def)
qed

text \<open>Everything that the unpacking of an agent of a given name may touch.\<close>

definition deploy_paths :: "string \<Rightarrow> string \<Rightarrow> string \<Rightarrow> string set" where
  "deploy_paths agent_dir base n =
     (let root = base @ ''/'' @ n
      in {agent_dir, agent_dir @ ''/'' @ n @ ''.toml'', root @ ''/etc/resolv.conf'', root @ ''/etc/hostname'',
          root @ ''/agent/bin/'' @ n} \<union> set (rootfs_dirs root) \<union> {root @ ''/agent/'' @ x | x. plain x})"

lemma touches_extract_file:
  assumes "plain file" "valid_name n" "touches (deploy_paths agent_dir base n) k"
  shows "touches (deploy_paths agent_dir base n) (extract_file io agent_dir (base @ ''/'' @ n) n file content k)"
proof -
  let ?P = "deploy_paths agent_dir base n" and ?r = "base @ ''/'' @ n"
  have "path_parent (agent_dir @ ''/'' @ n @ ''.toml'') = agent_dir"
    using valid_name_clean(1) [OF assms(2)] before_last_append [of "CHR ''/''" "n @ ''.toml''" agent_dir]
    by (simp add: path_parent_def)
  moreover have "agent_dir \<in> ?P" "agent_dir @ ''/'' @ n @ ''.toml'' \<in> ?P" "?r @ ''/agent/bin/'' @ n \<in> ?P"
    by (simp_all add: deploy_paths_def Let_def)
  moreover have "?r @ ''/agent/'' @ x \<in> ?P" if "plain x" for x
    using that by (auto simp: deploy_paths_def Let_def)
  moreover have "plain ''main.py''" "plain ''requirements.txt''" by (simp_all add: plain_def)
  ultimately show ?thesis
    using assms unfolding extract_file_def [abs_def] Let_def
    by (intro touches_intros) (simp_all add: plain_def)
qed

lemma touches_extract_all:
  assumes "valid_name n" "touches (deploy_paths agent_dir base n) k"
  shows "touches (deploy_paths agent_dir base n) (extract_all io agent_dir (base @ ''/'' @ n) n es k)"
proof (induction es)
  case Nil
  then show ?case using assms(2) by (simp add: touches_def)
next
  case (Cons e es)
  obtain p c where e: "e = (p, c)" by fastforce
  show ?case
  proof (cases "file_name p")
    case None
    then show ?thesis using Cons e by (simp add: touches_def)
  next
    case (Some fn)
    then show ?thesis
      using Cons e touches_extract_file [OF plain_file_name [OF Some] assms(1) Cons, of io c]
      by (cases "c = []") (simp_all add: touches_def)
  qed
qed

lemma touches_install:
  assumes "valid_name (am_name (mf_agent m))"
  shows "touches (deploy_paths agent_dir base (am_name (mf_agent m))) (install env agent_dir base m buf)"
  unfolding install_def Let_def
  by (intro touches_intros touches_extract_all assms) (auto simp: deploy_paths_def Let_def)

text \<open>Every result of the installation is the manifest or an error of the file system.\<close>

definition gives :: "'b \<Rightarrow> (fs \<Rightarrow> ('a + 'b) \<times> fs) \<Rightarrow> bool" where
  "gives m op \<longleftrightarrow> (\<forall>f m'. fst (op f) = Inr m' \<longrightarrow> m' = m)"

lemma gives_io_then: "gives m k \<Longrightarrow> gives m (io_then op k)"
  by (auto simp: gives_def io_then_def split: sum.split prod.split)

lemma gives_make_dirs: "gives m k \<Longrightarrow> gives m (make_dirs io ds k)"
proof (induction ds)
  case (Cons d ds)
  then have "gives m (io_then (fs_mkdirs io d) (make_dirs io ds k))" by (intro gives_io_then)
  then show ?case by (simp add: gives_def)
qed (simp add: gives_def)

lemma gives_extract_file: "gives m k \<Longrightarrow> gives m (extract_file io agent_dir root n fn c k)"
  using gives_io_then [of m k] gives_io_then [OF gives_io_then [of m k]]
  by (simp add: gives_def extract_file_def Let_def)

lemma gives_extract_all: "gives m k \<Longrightarrow> gives m (extract_all io agent_dir root n es k)"
proof (induction es)
  case (Cons e es)
  obtain p c where e: "e = (p, c)" by fastforce
  have "gives m (extract_file io agent_dir root n fn c (extract_all io agent_dir root n es k))" for fn
    using Cons by (intro gives_extract_file) simp
  then show ?case using Cons e by (simp add: gives_def split: option.split)
qed (simp add: gives_def)

lemma gives_install: "gives m (install env agent_dir base m buf)"
  unfolding install_def Let_def
  by (intro gives_make_dirs gives_io_then gives_extract_all) (simp add: gives_def)

lemma unpack_cases:
  "(\<exists>e. unpack_bundle env data agent_dir base f = (Inl e, f)) \<or>
   (\<exists>m buf. validate m = Inr () \<and> unpack_bundle env data agent_dir base f = install env agent_dir base m buf f)"
proof (cases "dp_entries env data")
  case (Inr items)
  show ?thesis
  proof (cases "read_entries env items None []")
    case Inr': (Inr r)
    obtain man buf where r: "r = (man, buf)" by fastforce
    show ?thesis
    proof (cases man)
      case (Some t)
      then show ?thesis
        using Inr Inr' r parse_manifest_Inr [of "dp_toml env" "dp_serde_err env" t]
        by (cases "parse_manifest (dp_toml env) (dp_serde_err env) t") (auto simp: unpack_bundle_def)
    qed (use Inr Inr' r in \<open>simp add: unpack_bundle_def\<close>)
  qed (use Inr in \<open>simp add: unpack_bundle_def\<close>)
qed (simp add: unpack_bundle_def)

text \<open>
  The manifest that is validated is the last one at depth two; the one that is saved is the last one at
  any depth, so the saved manifest need not be the validated one.
\<close>

lemma saved_manifest_differs:
  "read_entries env [Tar_entry (Inr ''a/AGENT.toml'') (Inr ''good''), Tar_entry (Inr ''a/x/AGENT.toml'') (Inr ''bad'')] None [] =
     Inr (Some ''good'', [(''a/AGENT.toml'', ''good''), (''a/x/AGENT.toml'', ''bad'')])"
  "file_of (snd (extract_all (\<lambda>_. None) ''/d'' ''/r'' ''a''
       [(''a/AGENT.toml'', ''good''), (''a/x/AGENT.toml'', ''bad'')]
       (\<lambda>f. (Inr m, f)) \<lparr>nodes = [], fs_calls = 0\<rparr>)) ''/d/a.toml'' = Some ''bad''"
proof -
  have c: "components ''a/AGENT.toml'' = [''a'', ''AGENT.toml'']" "components ''a/x/AGENT.toml'' = [''a'', ''x'', ''AGENT.toml'']"
    by (simp_all add: components_def)
  have n: "file_name ''a/AGENT.toml'' = Some ''AGENT.toml''" "file_name ''a/x/AGENT.toml'' = Some ''AGENT.toml''"
    by (simp_all add: file_name_def c)
  have l: "lossy ''AGENT.toml'' = ''AGENT.toml''" "lossy ''a/AGENT.toml'' = ''a/AGENT.toml''"
    "lossy ''a/x/AGENT.toml'' = ''a/x/AGENT.toml''"
    by (simp_all add: utf8_head_def utf8_width_def byte_def)
  have u: "valid_utf8 ''good''" by (simp add: valid_utf8.simps byte_def)
  have v: "validate_entry_path ''a/AGENT.toml'' = Inr ()" "validate_entry_path ''a/x/AGENT.toml'' = Inr ()"
    unfolding validate_entry_path_def c l starts_with_def by simp_all
  show "read_entries env [Tar_entry (Inr ''a/AGENT.toml'') (Inr ''good''), Tar_entry (Inr ''a/x/AGENT.toml'') (Inr ''bad'')] None [] =
      Inr (Some ''good'', [(''a/AGENT.toml'', ''good''), (''a/x/AGENT.toml'', ''bad'')])"
    using u by (simp add: v c n del: valid_utf8.simps)
  have p: "path_parent ''/d/a.toml'' = ''/d''" by (simp add: path_parent_def before_last_def)
  show "file_of (snd (extract_all (\<lambda>_. None) ''/d'' ''/r'' ''a''
       [(''a/AGENT.toml'', ''good''), (''a/x/AGENT.toml'', ''bad'')]
       (\<lambda>f. (Inr m, f)) \<lparr>nodes = [], fs_calls = 0\<rparr>)) ''/d/a.toml'' = Some ''bad''"
    unfolding extract_all.simps n option.simps l by (simp add: Let_def p extract_file_def io_then_def fs_mkdirs_def fs_write_def)
qed

section \<open>Properties\<close>


end
