(* ===== verification/Cage.thy ===== *)
theory Cage
  imports Vm_Child Deploy
begin

text \<open>
  Model of the daemon mode of \<open>pkg/cage/src/main.rs\<close>: the daemon that starts the agents' microVMs,
  restarts them, answers start, stop, deploy and list requests, and tells the egress firewall, the
  sentinel and the watcher about every change. Its state keeps the requests it has sent, in order. The
  lemmas relate the running VMs to the requests that the firewall received.
\<close>

section \<open>State\<close>

definition egress_socket_path :: string where "egress_socket_path = ''/run/egress.sock''"
definition warden_socket_path :: string where "warden_socket_path = ''/run/warden.sock''"
definition sentinel_socket_path :: string where "sentinel_socket_path = ''/run/sentinel.sock''"
definition watcher_socket_path :: string where "watcher_socket_path = ''/run/watcher.sock''"
definition cage_socket_path :: string where "cage_socket_path = ''/run/cage.sock''"
definition agent_dir_path :: string where "agent_dir_path = ''/agent''"
definition agent_rootfs_base :: string where "agent_rootfs_base = ''/system/rootfs''"

text \<open>What happens to one exchange with a service: an error at each step, and the line that answers.\<close>

record exchange =
  ex_connect :: "io_error option"
  ex_write :: "io_error option"
  ex_flush :: "io_error option"
  ex_read :: "string \<Rightarrow> io_error + string"

text \<open>
  \<open>co_exchange n\<close> is the n-th exchange with a service, \<open>co_clock n\<close> the n-th reading of the clock,
  \<open>co_read_dir\<close> the readable entries of the agents' directory, \<open>co_signal\<close> the name of a signal.
\<close>

record cage_os =
  co_vm :: vm_os
  co_deploy :: deploy_env
  co_exchange :: "nat \<Rightarrow> exchange"
  co_clock :: "nat \<Rightarrow> instant"
  co_parse :: "string \<Rightarrow> string + json"
  co_base64 :: "string \<Rightarrow> string + string"
  co_read_dir :: "string list option"
  co_signal :: "int \<Rightarrow> string"
  co_it_manifests :: "(string \<times> agent_manifest) list \<Rightarrow> (string \<times> agent_manifest) list"

record cage =
  cg_mgr :: vm_manager
  cg_world :: vm_world
  cg_manifests :: "(string, agent_manifest) hashmap"
  cg_fs :: fs
  cg_sent :: "(string \<times> json) list"
  cg_reads :: nat

section \<open>Requests to the services\<close>

definition send_to_service :: "cage_os \<Rightarrow> exchange \<Rightarrow> json \<Rightarrow> string + string" where
  "send_to_service os x req =
     (case ex_connect x of
        Some e \<Rightarrow> Inl (''connect: '' @ e)
      | None \<Rightarrow>
          (case vo_print (co_vm os) req of
             Inl e \<Rightarrow> Inl (''serialize: '' @ e)
           | Inr msg \<Rightarrow>
               (case ex_write x of
                  Some e \<Rightarrow> Inl (''write: '' @ e)
                | None \<Rightarrow>
                    (case ex_flush x of
                       Some e \<Rightarrow> Inl (''flush: '' @ e)
                     | None \<Rightarrow>
                         (case ex_read x msg of Inl e \<Rightarrow> Inl (''read: '' @ e) | Inr resp \<Rightarrow> Inr (trim resp))))))"

definition call_service :: "cage_os \<Rightarrow> string \<Rightarrow> json \<Rightarrow> cage \<Rightarrow> (string + string) \<times> cage" where
  "call_service os socket req st =
     (send_to_service os (co_exchange os (length (cg_sent st))) req, st\<lparr>cg_sent := cg_sent st @ [(socket, req)]\<rparr>)"

definition secrets_request :: "string \<Rightarrow> string list \<Rightarrow> json" where
  "secrets_request n refs = JObj [(''method'', JStr ''get-secrets''), (''agent'', JStr n), (''credential_refs'', strs refs)]"

text \<open>The string members of the answer's \<open>secrets\<close>; every failure gives an empty map.\<close>

definition secrets_of_answer :: "cage_os \<Rightarrow> string \<Rightarrow> (string, string) hashmap" where
  "secrets_of_answer os resp =
     (case co_parse os resp of
        Inl _ \<Rightarrow> []
      | Inr v \<Rightarrow>
          (case Option.bind (get v ''secrets'') as_object of
             None \<Rightarrow> []
           | Some ms \<Rightarrow>
               fold (\<lambda>(k, s). AList.update k s)
                 (List.map_filter (\<lambda>(k, v). map_option (Pair k) (as_str v)) ms) []))"

definition request_secrets :: "cage_os \<Rightarrow> string \<Rightarrow> string list \<Rightarrow> cage \<Rightarrow> (string, string) hashmap \<times> cage" where
  "request_secrets os n refs st =
     (if refs = [] then ([], st)
      else
        (case call_service os warden_socket_path (secrets_request n refs) st of
           (Inl _, st1) \<Rightarrow> ([], st1)
         | (Inr resp, st1) \<Rightarrow> (secrets_of_answer os resp, st1)))"

definition add_agent_request :: "string \<Rightarrow> string list \<Rightarrow> json" where
  "add_agent_request n domains = JObj [(''method'', JStr ''add-agent''), (''agent'', JStr n), (''domains'', strs domains)]"

definition remove_agent_request :: "string \<Rightarrow> json" where
  "remove_agent_request n = JObj [(''method'', JStr ''remove-agent''), (''agent'', JStr n)]"

definition register_request :: "cage_os \<Rightarrow> agent_manifest \<Rightarrow> json" where
  "register_request os m =
     JObj [(''method'', JStr ''register''), (''agent'', JStr (am_name (mf_agent m))),
       (''max_api_calls_per_hour'', JNum (uint (cp_max_api_calls_per_hour (mf_capabilities m)))),
       (''max_tool_risk'', JStr ''high''),
       (''tools'', JObj (map (\<lambda>(t, r). (t, JStr (show_risk r))) (vo_it_tools (co_vm os) (mf_tools m))))]"

definition deregister_request :: "string \<Rightarrow> json" where
  "deregister_request n = JObj [(''method'', JStr ''deregister''), (''agent'', JStr n)]"

definition audit_request :: "string \<Rightarrow> string \<Rightarrow> string \<Rightarrow> string \<Rightarrow> json" where
  "audit_request n action outcome detail =
     JObj [(''method'', JStr ''record''), (''agent'', JStr n), (''action'', JStr action), (''outcome'', JStr outcome),
       (''detail'', JStr detail)]"

definition notify_egress_add :: "cage_os \<Rightarrow> string \<Rightarrow> string list \<Rightarrow> cage \<Rightarrow> cage" where
  "notify_egress_add os n domains st = snd (call_service os egress_socket_path (add_agent_request n domains) st)"

definition notify_egress_remove :: "cage_os \<Rightarrow> string \<Rightarrow> cage \<Rightarrow> cage" where
  "notify_egress_remove os n st = snd (call_service os egress_socket_path (remove_agent_request n) st)"

definition notify_sentinel_register :: "cage_os \<Rightarrow> agent_manifest \<Rightarrow> cage \<Rightarrow> cage" where
  "notify_sentinel_register os m st = snd (call_service os sentinel_socket_path (register_request os m) st)"

definition notify_sentinel_deregister :: "cage_os \<Rightarrow> string \<Rightarrow> cage \<Rightarrow> cage" where
  "notify_sentinel_deregister os n st = snd (call_service os sentinel_socket_path (deregister_request n) st)"

definition audit_record :: "cage_os \<Rightarrow> string \<Rightarrow> string \<Rightarrow> string \<Rightarrow> string \<Rightarrow> cage \<Rightarrow> cage" where
  "audit_record os n action outcome detail st =
     snd (call_service os watcher_socket_path (audit_request n action outcome detail) st)"

section \<open>Virtual machines\<close>

text \<open>A path is a directory if it is a node of that kind or some node lies below it.\<close>

definition fs_is_dir :: "string \<Rightarrow> fs \<Rightarrow> bool" where
  "fs_is_dir p f \<longleftrightarrow> map_of (nodes f) p = Some Dir \<or> list_ex (\<lambda>(q, _). starts_with q (p @ ''/'')) (nodes f)"

definition path_exists :: "string \<Rightarrow> fs \<Rightarrow> bool" where
  "path_exists p f \<longleftrightarrow> fs_exists p f \<or> fs_is_dir p f"

definition vm_os_at :: "vm_os \<Rightarrow> fs \<Rightarrow> vm_os" where
  "vm_os_at os f = os\<lparr>vo_exists := (\<lambda>p. path_exists p f), vo_is_dir := (\<lambda>p. fs_is_dir p f)\<rparr>"

definition start_vm :: "cage_os \<Rightarrow> agent_manifest \<Rightarrow> (string, string) hashmap \<Rightarrow> cage \<Rightarrow> (vm_error + u32) \<times> cage" where
  "start_vm os m secrets st =
     (case start_agent (vm_os_at (co_vm os) (cg_fs st)) (co_clock os (cg_reads st)) m secrets (cg_mgr st, cg_world st) of
        (r, mgr, w) \<Rightarrow> (r, st\<lparr>cg_mgr := mgr, cg_world := w, cg_reads := cg_reads st + 1\<rparr>))"

definition stop_vm :: "string \<Rightarrow> cage \<Rightarrow> (vm_error + unit) \<times> cage" where
  "stop_vm n st =
     (case stop_agent n (cg_mgr st, cg_world st) of (r, mgr, w) \<Rightarrow> (r, st\<lparr>cg_mgr := mgr, cg_world := w\<rparr>))"

definition allowed_domains :: "agent_manifest \<Rightarrow> string list" where
  "allowed_domains m = nc_allow (cp_network (mf_capabilities m))"

definition show_pid :: "u32 \<Rightarrow> string" where
  "show_pid pid = ''PID '' @ show_nat (unat pid)"

section \<open>Commands\<close>

definition handle_start :: "cage_os \<Rightarrow> string \<Rightarrow> cage \<Rightarrow> json \<times> cage" where
  "handle_start os n st =
     (case map_of (cg_manifests st) n of
        None \<Rightarrow> (error_json (''unknown agent: '' @ n), st)
      | Some m \<Rightarrow>
          (let (secrets, st1) = request_secrets os n (cp_credential_refs (mf_capabilities m)) st
           in case start_vm os m secrets st1 of
                (Inr pid, st2) \<Rightarrow>
                  (JObj [(''ok'', JBool True), (''pid'', JNum (uint pid))],
                   audit_record os n ''start'' ''success'' (show_pid pid)
                     (notify_sentinel_register os m (notify_egress_add os n (allowed_domains m) st2)))
              | (Inl e, st2) \<Rightarrow>
                  (error_json (show_vm_error e), audit_record os n ''start'' ''failure'' (show_vm_error e) st2)))"

definition handle_stop :: "cage_os \<Rightarrow> string \<Rightarrow> cage \<Rightarrow> json \<times> cage" where
  "handle_stop os n st =
     (case stop_vm n st of
        (Inr _, st1) \<Rightarrow>
          (JObj [(''ok'', JBool True)],
           audit_record os n ''stop'' ''success'' [] (notify_sentinel_deregister os n (notify_egress_remove os n st1)))
      | (Inl e, st1) \<Rightarrow> (error_json (show_vm_error e), st1))"

definition handle_deploy :: "cage_os \<Rightarrow> json \<Rightarrow> cage \<Rightarrow> json \<times> cage" where
  "handle_deploy os req st =
     (case str_field req ''bundle'' of
        None \<Rightarrow> (error_json ''missing 'bundle' field'', st)
      | Some b64 \<Rightarrow>
          (case co_base64 os b64 of
             Inl e \<Rightarrow> (error_json (''invalid base64: '' @ e), st)
           | Inr data \<Rightarrow>
               (case unpack_bundle (co_deploy os) data agent_dir_path agent_rootfs_base (cg_fs st) of
                  (Inl e, f) \<Rightarrow> (error_json (''deploy failed: '' @ show_deploy_error e), st\<lparr>cg_fs := f\<rparr>)
                | (Inr m, f) \<Rightarrow>
                    (let n = am_name (mf_agent m);
                         (r, st1) = handle_start os n
                           (st\<lparr>cg_fs := f, cg_manifests := AList.update n m (cg_manifests st)\<rparr>)
                     in (if get r ''error'' \<noteq> None then r else JObj [(''ok'', JBool True), (''agent'', JStr n)], st1)))))"

definition vm_json :: "running_vm \<Rightarrow> json" where
  "vm_json vm =
     JObj [(''name'', JStr (rv_agent_name vm)), (''pid'', JNum (uint (rv_pid vm))), (''vcpus'', JNum (uint (rv_vcpus vm))),
       (''ram_mib'', JNum (uint (rv_ram_mib vm)))]"

definition handle_command :: "cage_os \<Rightarrow> string \<Rightarrow> cage \<Rightarrow> cage \<times> json option \<times> bool" where
  "handle_command os line' st =
     (case co_parse os line' of
        Inl _ \<Rightarrow> (st, None, False)
      | Inr req \<Rightarrow>
          (let m = str_or [] req ''method'';
               (r, st1) =
                 (if m = ''start'' then handle_start os (str_or [] req ''agent'') st
                  else if m = ''stop'' then handle_stop os (str_or [] req ''agent'') st
                  else if m = ''deploy'' then handle_deploy os req st
                  else if m = ''list'' then
                    (JObj [(''agents'', JArr (map vm_json (list_vms (co_vm os) (cg_mgr st))))], st)
                  else (error_json (''unknown method: '' @ m), st))
           in (st1, Some r, True)))"

section \<open>Dead children\<close>

text \<open>The results of \<open>waitpid\<close>; the list ends where no more children have exited.\<close>

datatype wait_status =
    Child_exited u32 int
  | Child_signaled u32 int
  | Still_alive
  | Wait_failed
  | Other_status

definition restart_crashed :: "cage_os \<Rightarrow> string \<Rightarrow> agent_manifest \<Rightarrow> cage \<Rightarrow> cage" where
  "restart_crashed os n m st =
     (let (secrets, st1) = request_secrets os n (cp_credential_refs (mf_capabilities m)) st
      in case start_vm os m secrets st1 of
           (Inr _, st2) \<Rightarrow> notify_egress_add os n (allowed_domains m) st2
         | (Inl _, st2) \<Rightarrow> st2)"

definition child_exited :: "cage_os \<Rightarrow> u32 \<Rightarrow> int \<Rightarrow> cage \<Rightarrow> cage" where
  "child_exited os pid status st =
     (case handle_exit (co_vm os) pid status (cg_mgr st) of
        (None, _) \<Rightarrow> st
      | (Some x, mgr) \<Rightarrow>
          (let n = ve_agent_name x;
               st1 = audit_record os n (if ve_exit_status x = 0 then ''stop'' else ''crash'') ''success''
                 (''exit='' @ show_int (ve_exit_status x))
                 (notify_sentinel_deregister os n (notify_egress_remove os n (st\<lparr>cg_mgr := mgr\<rparr>)))
           in if vm_should_restart (ve_exit_status x)
              then (case map_of (cg_manifests st1) n of None \<Rightarrow> st1 | Some m \<Rightarrow> restart_crashed os n m st1)
              else st1))"

definition child_signaled :: "cage_os \<Rightarrow> u32 \<Rightarrow> int \<Rightarrow> cage \<Rightarrow> cage" where
  "child_signaled os pid sig st =
     (case handle_exit (co_vm os) pid (128 + sig) (cg_mgr st) of
        (None, _) \<Rightarrow> st
      | (Some x, mgr) \<Rightarrow>
          (let n = ve_agent_name x
           in audit_record os n ''crash'' ''failure'' (''signal='' @ co_signal os sig)
                (notify_sentinel_deregister os n (notify_egress_remove os n (st\<lparr>cg_mgr := mgr\<rparr>)))))"

fun cage_reap_children :: "cage_os \<Rightarrow> wait_status list \<Rightarrow> cage \<Rightarrow> cage" where
  "cage_reap_children os [] st = st"
| "cage_reap_children os (Child_exited pid status # ws) st = cage_reap_children os ws (child_exited os pid status st)"
| "cage_reap_children os (Child_signaled pid sig # ws) st = cage_reap_children os ws (child_signaled os pid sig st)"
| "cage_reap_children os (Still_alive # ws) st = st"
| "cage_reap_children os (Wait_failed # ws) st = st"
| "cage_reap_children os (Other_status # ws) st = cage_reap_children os ws st"

section \<open>The daemon\<close>

text \<open>A restart after failed health checks; the result of the stop is ignored.\<close>

definition restart_unhealthy :: "cage_os \<Rightarrow> string \<Rightarrow> cage \<Rightarrow> cage" where
  "restart_unhealthy os n st =
     (let st1 = snd (stop_vm n st)
      in case map_of (cg_manifests st1) n of
           None \<Rightarrow> st1
         | Some m \<Rightarrow>
             (let (secrets, st2) = request_secrets os n (cp_credential_refs (mf_capabilities m)) st1
              in case start_vm os m secrets st2 of
                   (Inr pid, st3) \<Rightarrow>
                     audit_record os n ''health-restart'' ''success'' (show_pid pid)
                       (notify_egress_add os n (allowed_domains m) st3)
                 | (Inl e, st3) \<Rightarrow> audit_record os n ''health-restart'' ''failure'' (show_vm_error e) st3))"

definition sweep_vms :: "cage_os \<Rightarrow> cage \<Rightarrow> string list \<times> cage" where
  "sweep_vms os st =
     (case health_check_sweep (co_vm os) (co_clock os (cg_reads st)) (cg_mgr st, cg_world st) of
        (us, mgr, w) \<Rightarrow> (us, st\<lparr>cg_mgr := mgr, cg_world := w, cg_reads := cg_reads st + 1\<rparr>))"

text \<open>One round of the main loop: the exits since the last one and the connection, if one is pending.\<close>

definition cage_round :: "cage_os \<Rightarrow> wait_status list \<times> conn option \<Rightarrow> cage \<Rightarrow> cage" where
  "cage_round os r st =
     (let (us, st1) = sweep_vms os (cage_reap_children os (fst r) st);
          st2 = fold (restart_unhealthy os) us st1
      in case snd r of None \<Rightarrow> st2 | Some c \<Rightarrow> fst (serve_conn (handle_command os) c st2))"

text \<open>\<open>load_manifests\<close>: entries that cannot be read or parsed are skipped.\<close>

definition load_one :: "cage_os \<Rightarrow> string \<Rightarrow> (string, agent_manifest) hashmap \<times> fs \<Rightarrow> (string, agent_manifest) hashmap \<times> fs" where
  "load_one os entry s =
     (let (ms, f) = s
      in if extension entry \<noteq> Some ''toml'' then s
         else (case fs_read (dp_io (co_deploy os)) (agent_dir_path @ ''/'' @ entry) f of
                 (Inl _, f1) \<Rightarrow> (ms, f1)
               | (Inr c, f1) \<Rightarrow>
                   (if \<not> valid_utf8 c then (ms, f1)
                    else (case parse_manifest (dp_toml (co_deploy os)) (dp_serde_err (co_deploy os)) c of
                            Inl _ \<Rightarrow> (ms, f1)
                          | Inr m \<Rightarrow> (AList.update (am_name (mf_agent m)) m ms, f1)))))"

definition load_manifests :: "cage_os \<Rightarrow> fs \<Rightarrow> (string, agent_manifest) hashmap \<times> fs" where
  "load_manifests os f =
     (if \<not> fs_is_dir agent_dir_path f then ([], f)
      else case co_read_dir os of None \<Rightarrow> ([], f) | Some es \<Rightarrow> fold (load_one os) es ([], f))"

definition rootfs_check :: "agent_manifest \<Rightarrow> string \<Rightarrow> string" where
  "rootfs_check m n =
     (case am_runtime (mf_agent m) of
        Binary \<Rightarrow> agent_rootfs_base @ ''/'' @ n @ ''/agent/bin/'' @ n
      | Python \<Rightarrow> agent_rootfs_base @ ''/'' @ n @ ''/agent/main.py'')"

definition auto_start :: "cage_os \<Rightarrow> string \<times> agent_manifest \<Rightarrow> cage \<Rightarrow> cage" where
  "auto_start os nm st =
     (let (n, m) = nm
      in if \<not> path_exists (rootfs_check m n) (cg_fs st) then st
         else
           (let (secrets, st1) = request_secrets os n (cp_credential_refs (mf_capabilities m)) st
            in case start_vm os m secrets st1 of
                 (Inr pid, st2) \<Rightarrow>
                   audit_record os n ''start'' ''success'' (show_pid pid)
                     (notify_sentinel_register os m (notify_egress_add os n (allowed_domains m) st2))
               | (Inl e, st2) \<Rightarrow> audit_record os n ''start'' ''failure'' (show_vm_error e) st2))"

definition empty_world :: vm_world where
  "empty_world = \<lparr>vw_spawns = 0, vw_children = [], vw_dirs = [], vw_terms = [], vw_connects = 0\<rparr>"

text \<open>The start of the daemon: the socket is opened before the first agent starts.\<close>

definition cage_start :: "cage_os \<Rightarrow> fs \<Rightarrow> io_error + cage" where
  "cage_start os f =
     (let io = dp_io (co_deploy os);
          (ms, f1) = load_manifests os (snd (fs_mkdirs io ''/var/log/cage'' f))
      in case open_socket io cage_socket_path f1 of
           (Inl e, _) \<Rightarrow> Inl e
         | (Inr _, f2) \<Rightarrow>
             (case fs_nonblock io f2 of
                (Inl e, _) \<Rightarrow> Inl e
              | (Inr _, f3) \<Rightarrow>
                  Inr (fold (auto_start os) (co_it_manifests os ms)
                    \<lparr>cg_mgr = new_vm_manager agent_rootfs_base, cg_world = empty_world, cg_manifests = ms, cg_fs = f3,
                     cg_sent = [], cg_reads = 0\<rparr>)))"

text \<open>The daemon runs for ever; \<open>run_daemon\<close> is its state after some rounds.\<close>

definition run_daemon :: "cage_os \<Rightarrow> (wait_status list \<times> conn option) list \<Rightarrow> fs \<Rightarrow> io_error + cage" where
  "run_daemon os rounds f = (case cage_start os f of Inl e \<Rightarrow> Inl e | Inr st \<Rightarrow> Inr (fold (cage_round os) rounds st))"

text \<open>
  \<open>main\<close>: with \<open>--run-vm\<close> the process becomes the VM of its input, otherwise it is the daemon. \<open>None\<close> is
  a process that goes on.
\<close>

definition cage_main ::
    "cage_os \<Rightarrow> child_env \<Rightarrow> string list \<Rightarrow> string option \<Rightarrow> process \<Rightarrow> (wait_status list \<times> conn option) list \<Rightarrow> fs \<Rightarrow>
     nat option" where
  "cage_main os env args input p rounds f =
     (if 2 \<le> length args \<and> args ! 1 = ''--run-vm'' then
        (case fst (run_vm_child env input p) of Vm_entered \<Rightarrow> None | Vm_failed _ \<Rightarrow> Some 1 | Vm_exited code \<Rightarrow> Some code)
      else (case run_daemon os rounds f of Inl _ \<Rightarrow> Some 1 | Inr _ \<Rightarrow> None))"

section \<open>What the firewall was told\<close>

text \<open>The last request about an agent that was sent to the egress daemon.\<close>

definition about :: "string \<Rightarrow> string \<times> json \<Rightarrow> bool" where
  "about n p \<longleftrightarrow> fst p = egress_socket_path \<and> str_field (snd p) ''agent'' = Some n"

definition last_egress :: "string \<Rightarrow> (string \<times> json) list \<Rightarrow> json option" where
  "last_egress n sent = map_option snd (find (about n) (rev sent))"

text \<open>The watcher was told that a restart after failed health checks has failed.\<close>

definition restart_failed :: "string \<Rightarrow> (string \<times> json) list \<Rightarrow> bool" where
  "restart_failed n sent \<longleftrightarrow>
     (\<exists>d. (watcher_socket_path, audit_request n ''health-restart'' ''failure'' d) \<in> set sent)"

definition running :: "cage \<Rightarrow> string set" where
  "running st = hm_keys (vmm_vms (cg_mgr st))"

text \<open>A request for the rules of a validated manifest of that name.\<close>

definition granted :: "string \<Rightarrow> json \<Rightarrow> bool" where
  "granted n r \<longleftrightarrow> (\<exists>m. validate m = Inr () \<and> am_name (mf_agent m) = n \<and> r = add_agent_request n (allowed_domains m))"

definition settled :: "string \<Rightarrow> bool \<Rightarrow> (string \<times> json) list \<Rightarrow> bool" where
  "settled n runs sent \<longleftrightarrow>
     (case last_egress n sent of
        None \<Rightarrow> \<not> runs
      | Some r \<Rightarrow> (if runs then granted n r else r = remove_agent_request n \<or> restart_failed n sent))"

definition status_ok :: "string \<Rightarrow> cage \<Rightarrow> bool" where
  "status_ok n st \<longleftrightarrow> settled n (n \<in> running st) (cg_sent st)"

definition manifests_ok :: "(string, agent_manifest) hashmap \<Rightarrow> bool" where
  "manifests_ok ms \<longleftrightarrow> hm_ok ms \<and> (\<forall>n m. map_of ms n = Some m \<longrightarrow> am_name (mf_agent m) = n \<and> validate m = Inr ())"

definition request_ok :: "string \<times> json \<Rightarrow> bool" where
  "request_ok p \<longleftrightarrow>
     fst p \<noteq> egress_socket_path \<or> (\<exists>n. valid_name n \<and> (granted n (snd p) \<or> snd p = remove_agent_request n))"

text \<open>The invariant, with a set of agents whose status is not settled yet.\<close>

definition cage_inv :: "string set \<Rightarrow> cage \<Rightarrow> bool" where
  "cage_inv X st \<longleftrightarrow> vmm_inv (cg_mgr st) \<and> manifests_ok (cg_manifests st) \<and> running st \<subseteq> hm_keys (cg_manifests st) \<and>
     list_all request_ok (cg_sent st) \<and> (\<forall>n. n \<notin> X \<longrightarrow> status_ok n st)"

lemma socket_paths [simp]:
  "warden_socket_path \<noteq> egress_socket_path" "sentinel_socket_path \<noteq> egress_socket_path"
  "watcher_socket_path \<noteq> egress_socket_path"
  by (simp_all add: warden_socket_path_def sentinel_socket_path_def watcher_socket_path_def egress_socket_path_def)

lemma request_agents [simp]:
  "str_field (add_agent_request n ds) ''agent'' = Some n" "str_field (remove_agent_request n) ''agent'' = Some n"
  by (simp_all add: add_agent_request_def remove_agent_request_def)

lemma call_service_sel [simp]:
  "snd (call_service os s r st) = st\<lparr>cg_sent := cg_sent st @ [(s, r)]\<rparr>"
  by (simp add: call_service_def)

lemma running_sent [simp]: "running (st\<lparr>cg_sent := l\<rparr>) = running st"
  by (simp add: running_def)

lemma last_egress_snoc:
  "last_egress n (sent @ [(s, r)]) =
     (if s = egress_socket_path \<and> str_field r ''agent'' = Some n then Some r else last_egress n sent)"
  by (simp add: last_egress_def about_def)

lemma restart_failed_mono: "restart_failed n sent \<Longrightarrow> restart_failed n (sent @ xs)"
  by (auto simp: restart_failed_def)

text \<open>A request leaves the status of every agent that it is not about.\<close>

lemma status_snoc_other:
  assumes "status_ok n st" "\<not> about n (s, r)"
  shows "status_ok n (st\<lparr>cg_sent := cg_sent st @ [(s, r)]\<rparr>)"
proof -
  have "last_egress n (cg_sent st @ [(s, r)]) = last_egress n (cg_sent st)"
    using assms(2) by (auto simp: last_egress_snoc about_def)
  then show ?thesis
    using assms(1) restart_failed_mono [of n "cg_sent st" "[(s, r)]"] by (auto simp: status_ok_def settled_def split: option.split)
qed

lemma inv_send:
  assumes "cage_inv Y st" "request_ok (s, r)"
    and "\<And>k. k \<notin> X \<Longrightarrow> k \<in> Y \<or> about k (s, r) \<Longrightarrow> status_ok k (st\<lparr>cg_sent := cg_sent st @ [(s, r)]\<rparr>)"
  shows "cage_inv X (st\<lparr>cg_sent := cg_sent st @ [(s, r)]\<rparr>)"
proof -
  have "status_ok k (st\<lparr>cg_sent := cg_sent st @ [(s, r)]\<rparr>)" if "k \<notin> X" for k
  proof (cases "k \<in> Y \<or> about k (s, r)")
    case False
    then show ?thesis using assms(1) by (intro status_snoc_other) (simp_all add: cage_inv_def)
  qed (use that assms(3) in blast)
  then show ?thesis using assms(1,2) by (simp add: cage_inv_def)
qed

lemma inv_other_service:
  "cage_inv X st \<Longrightarrow> s \<noteq> egress_socket_path \<Longrightarrow> cage_inv X (st\<lparr>cg_sent := cg_sent st @ [(s, r)]\<rparr>)"
  by (rule inv_send [of X]) (auto simp: request_ok_def about_def)

lemma inv_request_secrets:
  "cage_inv X st \<Longrightarrow> cage_inv X (snd (request_secrets os n refs st))"
  "running (snd (request_secrets os n refs st)) = running st"
  "cg_manifests (snd (request_secrets os n refs st)) = cg_manifests st"
  by (auto simp: request_secrets_def call_service_def inv_other_service split: sum.split)

lemma manifest_of:
  assumes "cage_inv X st" "map_of (cg_manifests st) n = Some m"
  shows "validate m = Inr ()" "am_name (mf_agent m) = n" "valid_name n"
  using assms by (auto simp: cage_inv_def manifests_ok_def validate_iff)

text \<open>The two requests to the firewall settle the status of their agent.\<close>

lemma inv_egress_add:
  assumes "cage_inv (insert n X) st" "n \<in> running st" "map_of (cg_manifests st) n = Some m"
  shows "cage_inv X (notify_egress_add os n (allowed_domains m) st)"
proof -
  have g: "granted n (add_agent_request n (allowed_domains m))"
    using manifest_of [OF assms(1,3)] by (auto simp: granted_def)
  then have "request_ok (egress_socket_path, add_agent_request n (allowed_domains m))"
    using manifest_of(3) [OF assms(1,3)] by (auto simp: request_ok_def)
  then show ?thesis
    unfolding notify_egress_add_def call_service_sel
    by (rule inv_send [OF assms(1)]) (use g assms(2) in \<open>auto simp: about_def status_ok_def settled_def last_egress_snoc\<close>)
qed

lemma inv_egress_remove:
  assumes "cage_inv (insert n X) st" "n \<notin> running st" "valid_name n"
  shows "cage_inv X (notify_egress_remove os n st)"
proof -
  have "request_ok (egress_socket_path, remove_agent_request n)" using assms(3) by (auto simp: request_ok_def)
  then show ?thesis
    unfolding notify_egress_remove_def call_service_sel
    by (rule inv_send [OF assms(1)]) (use assms(2) in \<open>auto simp: about_def status_ok_def settled_def last_egress_snoc\<close>)
qed

lemma inv_restart_failed:
  assumes "cage_inv (insert n X) st" "n \<notin> running st"
  shows "cage_inv X (audit_record os n ''health-restart'' ''failure'' d st)"
proof -
  let ?p = "(watcher_socket_path, audit_request n ''health-restart'' ''failure'' d)"
  have "restart_failed n (cg_sent st @ [?p])" by (auto simp: restart_failed_def)
  then have "status_ok n (st\<lparr>cg_sent := cg_sent st @ [?p]\<rparr>)" using assms(2) by (simp add: status_ok_def settled_def split: option.split)
  then show ?thesis
    unfolding audit_record_def call_service_sel
    by (intro inv_send [OF assms(1)]) (auto simp: about_def request_ok_def)
qed

text \<open>Changes of the running VMs.\<close>

lemma inv_change:
  assumes "cage_inv X st" "vmm_inv (cg_mgr st1)" "cg_manifests st1 = cg_manifests st" "cg_sent st1 = cg_sent st"
    and "running st1 \<subseteq> hm_keys (cg_manifests st)" "X \<subseteq> Y" "\<And>k. k \<notin> Y \<Longrightarrow> k \<in> running st1 \<longleftrightarrow> k \<in> running st"
  shows "cage_inv Y st1"
proof -
  have "status_ok k st1" if "k \<notin> Y" for k
  proof -
    have "status_ok k st" using assms(1,6) that by (auto simp: cage_inv_def)
    then show ?thesis using assms(4) assms(7) [OF that] by (simp add: status_ok_def)
  qed
  then show ?thesis using assms by (simp add: cage_inv_def)
qed

lemma inv_running: "cage_inv X st \<Longrightarrow> vmm_inv (cg_mgr st) \<and> running st \<subseteq> hm_keys (cg_manifests st)"
  by (simp add: cage_inv_def)

lemma inv_start_vm:
  assumes "cage_inv X st" "map_of (cg_manifests st) n = Some m" "start_vm os m secrets st = (r, st1)"
  shows "cg_manifests st1 = cg_manifests st \<and> cg_sent st1 = cg_sent st \<and>
    (case r of
       Inl _ \<Rightarrow> cage_inv X st1 \<and> running st1 = running st
     | Inr _ \<Rightarrow> cage_inv (insert n X) st1 \<and> running st1 = insert n (running st) \<and> n \<notin> running st)"
proof -
  let ?os = "vm_os_at (co_vm os) (cg_fs st)" and ?now = "co_clock os (cg_reads st)"
  obtain mgr w where s: "start_agent ?os ?now m secrets (cg_mgr st, cg_world st) = (r, mgr, w)"
    and st1: "st1 = st\<lparr>cg_mgr := mgr, cg_world := w, cg_reads := cg_reads st + 1\<rparr>"
    using assms(3) by (auto simp: start_vm_def split: prod.splits)
  have n: "am_name (mf_agent m) = n" using manifest_of(2) [OF assms(1,2)] .
  have inv: "vmm_inv mgr" using start_agent_inv [OF _ s] assms(1) by (simp add: cage_inv_def)
  show ?thesis
  proof (cases r)
    case (Inl e)
    then have "mgr = cg_mgr st" using start_agent_cases [OF s] by simp
    then have run: "running st1 = running st" using st1 by (simp add: running_def)
    then have "cage_inv X st1" using inv_running [OF assms(1)] inv st1 by (intro inv_change [OF assms(1)]) simp_all
    then show ?thesis using Inl run st1 by simp
  next
    case (Inr pid)
    then obtain vm where m: "mgr = (cg_mgr st)\<lparr>vmm_vms := AList.update n vm (vmm_vms (cg_mgr st))\<rparr>"
      and new: "n \<notin> running st"
      using start_agent_cases [OF s] n by (auto simp: running_def hm_keys_dom)
    then have run: "running st1 = insert n (running st)" by (simp add: running_def st1)
    have "n \<in> hm_keys (cg_manifests st)" using assms(2) by (auto simp: hm_keys_dom)
    then have "cage_inv (insert n X) st1"
      using inv_running [OF assms(1)] inv run st1 by (intro inv_change [OF assms(1)]) auto
    then show ?thesis using Inr run new st1 by simp
  qed
qed

lemma inv_fewer:
  assumes "cage_inv X st" "vmm_inv mgr" "hm_keys (vmm_vms mgr) = running st - {n}"
    "st1 = st\<lparr>cg_mgr := mgr, cg_world := w\<rparr>"
  shows "cage_inv (insert n X) st1" "running st1 = running st - {n}"
proof -
  show run: "running st1 = running st - {n}" using assms(3,4) by (simp add: running_def)
  show "cage_inv (insert n X) st1"
    using inv_running [OF assms(1)] assms(2,4) run by (intro inv_change [OF assms(1)]) auto
qed

lemma inv_stop_vm:
  assumes "cage_inv X st" "stop_vm n st = (r, st1)"
  shows "cg_manifests st1 = cg_manifests st \<and> cg_sent st1 = cg_sent st \<and> n \<notin> running st1 \<and>
    (case r of Inl _ \<Rightarrow> st1 = st | Inr _ \<Rightarrow> cage_inv (insert n X) st1 \<and> n \<in> running st)"
proof -
  obtain mgr w where s: "stop_agent n (cg_mgr st, cg_world st) = (r, mgr, w)"
    and st1: "st1 = st\<lparr>cg_mgr := mgr, cg_world := w\<rparr>"
    using assms(2) by (auto simp: stop_vm_def split: prod.splits)
  show ?thesis
  proof (cases r)
    case (Inl e)
    then show ?thesis using s st1 by (auto simp: stop_agent_def running_def hm_keys_dom split: option.splits)
  next
    case (Inr u)
    then have mgr: "mgr = (cg_mgr st)\<lparr>vmm_vms := AList.delete n (vmm_vms (cg_mgr st))\<rparr>" and n: "n \<in> running st"
      using s by (auto simp: stop_agent_def running_def hm_keys_dom split: option.splits)
    have "vmm_inv mgr" using stop_agent_inv [OF _ s] assms(1) by (simp add: cage_inv_def)
    from inv_fewer [OF assms(1) this _ st1, of n] mgr have "cage_inv (insert n X) st1" "running st1 = running st - {n}"
      by (simp_all add: running_def)
    then show ?thesis using Inr st1 n by simp
  qed
qed

lemma inv_handle_exit:
  assumes "cage_inv X st" "is_iter (vo_it_vms (co_vm os))" "handle_exit (co_vm os) pid status (cg_mgr st) = (Some x, mgr)"
  shows "cage_inv (insert (ve_agent_name x) X) (st\<lparr>cg_mgr := mgr\<rparr>)" "ve_agent_name x \<notin> running (st\<lparr>cg_mgr := mgr\<rparr>)"
    "valid_name (ve_agent_name x)"
proof -
  let ?n = "ve_agent_name x" and ?vms = "vmm_vms (cg_mgr st)"
  obtain vm where f: "find (\<lambda>(_, vm). rv_pid vm = pid) (vo_it_vms (co_vm os) ?vms) = Some (?n, vm)"
    and mgr: "mgr = (cg_mgr st)\<lparr>vmm_vms := AList.delete ?n ?vms\<rparr>"
    using assms(3) by (auto simp: handle_exit_def split: option.splits)
  have "(?n, vm) \<in> set (vo_it_vms (co_vm os) ?vms)" using f by (auto simp: find_Some_iff dest!: nth_mem)
  then have n: "?n \<in> running st" using is_iter_set [OF assms(2), of ?vms] by (force simp: running_def hm_keys_def)
  have "vmm_inv mgr" using handle_exit_inv [OF _ assms(3)] assms(1) by (simp add: cage_inv_def)
  from inv_fewer [OF assms(1) this _, of ?n _ "cg_world st"] mgr
  show "cage_inv (insert ?n X) (st\<lparr>cg_mgr := mgr\<rparr>)" "?n \<notin> running (st\<lparr>cg_mgr := mgr\<rparr>)"
    by (simp_all add: running_def)
  show "valid_name ?n" using n assms(1) manifest_of(3) [OF assms(1)] by (fastforce simp: cage_inv_def hm_keys_dom)
qed

lemma inv_sweep:
  assumes "cage_inv X st" "is_iter (vo_it_vms (co_vm os))" "sweep_vms os st = (us, st1)"
  shows "cage_inv X st1" "running st1 = running st" "cg_manifests st1 = cg_manifests st"
proof -
  obtain mgr w where s: "health_check_sweep (co_vm os) (co_clock os (cg_reads st)) (cg_mgr st, cg_world st) = (us, mgr, w)"
    and st1: "st1 = st\<lparr>cg_mgr := mgr, cg_world := w, cg_reads := cg_reads st + 1\<rparr>"
    using assms(3) by (auto simp: sweep_vms_def split: prod.splits)
  have "vmm_inv mgr" "hm_keys (vmm_vms mgr) = running st"
    using health_sweep_inv [OF _ assms(2) s] assms(1) by (simp_all add: cage_inv_def running_def)
  then show run: "running st1 = running st" and "cg_manifests st1 = cg_manifests st"
    and "cage_inv X st1"
    using inv_running [OF assms(1)] st1 inv_change [OF assms(1), of st1 X] by (simp_all add: running_def)
qed

text \<open>The operations of the daemon.\<close>

lemma inv_sentinel_watcher:
  "cage_inv X st \<Longrightarrow> cage_inv X (notify_sentinel_register os m st)"
  "cage_inv X st \<Longrightarrow> cage_inv X (notify_sentinel_deregister os n st)"
  "cage_inv X st \<Longrightarrow> cage_inv X (audit_record os n a b c st)"
  by (simp_all add: notify_sentinel_register_def notify_sentinel_deregister_def audit_record_def inv_other_service)

lemma notify_manifests [simp]:
  "cg_manifests (notify_sentinel_register os m st) = cg_manifests st"
  "cg_manifests (notify_egress_add os n ds st) = cg_manifests st"
  "cg_manifests (audit_record os n a b c st) = cg_manifests st"
  by (simp_all add: notify_sentinel_register_def notify_egress_add_def audit_record_def)

lemma inv_start_after:
  assumes "cage_inv X st" "map_of (cg_manifests st) n = Some m"
    and "request_secrets os n refs st = (secrets, st1)" "start_vm os m secrets st1 = (r, st2)"
  shows "case r of
      Inl _ \<Rightarrow> cage_inv X st2 \<and> running st2 = running st
    | Inr _ \<Rightarrow> cage_inv (X - {n}) (notify_egress_add os n (allowed_domains m) st2)"
proof -
  have s: "cage_inv X st1" "running st1 = running st" "map_of (cg_manifests st1) n = Some m"
    using inv_request_secrets(1) [of X st os n refs] inv_request_secrets(2,3) [of os n refs st] assms(1-3)
    by simp_all
  note v = inv_start_vm [OF s(1,3) assms(4)]
  show ?thesis
  proof (cases r)
    case (Inl e)
    then show ?thesis using v s(2) by simp
  next
    case (Inr pid)
    then have i: "cage_inv (insert n X) st2" "n \<in> running st2" "map_of (cg_manifests st2) n = Some m" using v s(3) by auto
    have "insert n X = insert n (X - {n})" by blast
    then show ?thesis using inv_egress_add [of n "X - {n}" st2 m os] i Inr by simp
  qed
qed

lemma inv_handle_start: "cage_inv {} st \<Longrightarrow> cage_inv {} (snd (handle_start os n st))"
  unfolding handle_start_def Let_def
  by (auto split: option.split prod.split sum.split dest!: inv_start_after intro!: inv_sentinel_watcher)

lemma inv_handle_stop:
  assumes "cage_inv {} st"
  shows "cage_inv {} (snd (handle_stop os n st))"
proof -
  obtain r st1 where s: "stop_vm n st = (r, st1)" by fastforce
  note v = inv_stop_vm [OF assms s]
  show ?thesis
  proof (cases r)
    case (Inl e)
    then show ?thesis using v s assms by (simp add: handle_stop_def)
  next
    case (Inr u)
    then have "n \<in> hm_keys (cg_manifests st)" using v inv_running [OF assms] by auto
    then have "valid_name n" using manifest_of(3) [OF assms] by (auto simp: hm_keys_dom)
    then have "cage_inv {} (notify_egress_remove os n st1)" using v Inr by (intro inv_egress_remove) auto
    then show ?thesis using s Inr by (auto simp: handle_stop_def intro!: inv_sentinel_watcher)
  qed
qed

lemma inv_deployed:
  assumes "cage_inv {} st" "validate m = Inr ()"
  shows "cage_inv {} (st\<lparr>cg_fs := f, cg_manifests := AList.update (am_name (mf_agent m)) m (cg_manifests st)\<rparr>)"
  using assms by (auto simp: cage_inv_def manifests_ok_def status_ok_def running_def)

lemma unpack_validates: "unpack_bundle env data agent_dir base f = (Inr m, f') \<Longrightarrow> validate m = Inr ()"
  using unpack_cases [of env data agent_dir base f] gives_install [unfolded gives_def] by (metis Inr_not_Inl fst_conv)

lemma inv_handle_deploy:
  assumes "cage_inv {} st"
  shows "cage_inv {} (snd (handle_deploy os req st))"
proof -
  have fs: "cage_inv {} (st\<lparr>cg_fs := f\<rparr>)" for f using assms by (simp add: cage_inv_def status_ok_def running_def)
  have "cage_inv {} st1"
    if "unpack_bundle env data d b g = (Inr m, f)"
      "handle_start os (am_name (mf_agent m))
        (st\<lparr>cg_fs := f, cg_manifests := AList.update (am_name (mf_agent m)) m (cg_manifests st)\<rparr>) = (r, st1)"
    for env data d b g m f r st1
    using inv_handle_start [OF inv_deployed [OF assms unpack_validates [OF that(1)]], of os "am_name (mf_agent m)" f]
      that(2) by simp
  then show ?thesis
    using assms fs unfolding handle_deploy_def Let_def by (auto split: option.split sum.split prod.split)
qed

lemma inv_handle_command: "cage_inv {} st \<Longrightarrow> cage_inv {} (fst (handle_command os l st))"
  using inv_handle_start [of st os] inv_handle_stop [of st os] inv_handle_deploy [of st os]
  by (auto simp: handle_command_def Let_def split: sum.split prod.split) (metis snd_conv)+

text \<open>The command socket keeps the invariant, line by line.\<close>

interpretation cage_srv: line_service "handle_command os" "cage_inv {}" "\<lambda>_. True" for os
  by unfold_locales (metis inv_handle_command fst_conv, rule TrueI)

lemma inv_restart_crashed:
  assumes "cage_inv {} st" "map_of (cg_manifests st) n = Some m"
  shows "cage_inv {} (restart_crashed os n m st)"
  using assms unfolding restart_crashed_def Let_def by (auto split: prod.split sum.split dest!: inv_start_after)

lemma inv_child_gone:
  assumes "cage_inv {} st" "is_iter (vo_it_vms (co_vm os))" "handle_exit (co_vm os) pid status (cg_mgr st) = (Some x, mgr)"
  shows "cage_inv {} (audit_record os (ve_agent_name x) a b c
    (notify_sentinel_deregister os (ve_agent_name x) (notify_egress_remove os (ve_agent_name x) (st\<lparr>cg_mgr := mgr\<rparr>))))"
  using inv_handle_exit [OF assms] by (intro inv_sentinel_watcher inv_egress_remove)

lemma inv_child_exited:
  assumes "cage_inv {} st" "is_iter (vo_it_vms (co_vm os))"
  shows "cage_inv {} (child_exited os pid status st)"
  using inv_child_gone [OF assms] assms(1) inv_restart_crashed
  unfolding child_exited_def Let_def by (auto split: option.split prod.split)

lemma inv_child_signaled:
  assumes "cage_inv {} st" "is_iter (vo_it_vms (co_vm os))"
  shows "cage_inv {} (child_signaled os pid sig st)"
  using inv_child_gone [OF assms] assms(1)
  unfolding child_signaled_def Let_def by (auto split: option.split prod.split)

lemma inv_reap: "cage_inv {} st \<Longrightarrow> is_iter (vo_it_vms (co_vm os)) \<Longrightarrow> cage_inv {} (cage_reap_children os ws st)"
  by (induction os ws st rule: cage_reap_children.induct) (simp_all add: inv_child_exited inv_child_signaled)

lemma inv_restart_unhealthy:
  assumes "cage_inv {} st"
  shows "cage_inv {} (restart_unhealthy os n st)"
proof -
  obtain r st1 where s: "stop_vm n st = (r, st1)" by fastforce
  note v = inv_stop_vm [OF assms s]
  have i: "cage_inv {n} st1" "n \<notin> running st1"
    using v inv_change [OF assms, of st "{n}"] inv_running [OF assms] assms by (cases r; simp)+
  show ?thesis
  proof (cases "map_of (cg_manifests st1) n")
    case None
    then have "n \<notin> running st" using v inv_running [OF assms] by (auto simp: hm_keys_dom)
    then have "st1 = st" using v by (cases r) auto
    then show ?thesis using s None assms by (simp add: restart_unhealthy_def)
  next
    case (Some m)
    obtain secrets st2 where q: "request_secrets os n (cp_credential_refs (mf_capabilities m)) st1 = (secrets, st2)" by fastforce
    obtain r' st3 where t: "start_vm os m secrets st2 = (r', st3)" by fastforce
    have "case r' of Inl _ \<Rightarrow> cage_inv {n} st3 \<and> running st3 = running st1
      | Inr _ \<Rightarrow> cage_inv {} (notify_egress_add os n (allowed_domains m) st3)"
      using inv_start_after [OF i(1) Some q t] by (cases r') simp_all
    then show ?thesis
      using s Some q t i(2)
      by (cases r') (simp_all add: restart_unhealthy_def inv_sentinel_watcher inv_restart_failed)
  qed
qed

lemma inv_round:
  assumes "cage_inv {} st" "is_iter (vo_it_vms (co_vm os))"
  shows "cage_inv {} (cage_round os r st)"
proof -
  obtain us st1 where s: "sweep_vms os (cage_reap_children os (fst r) st) = (us, st1)" by fastforce
  have "cage_inv {} st1" using inv_sweep(1) [OF inv_reap [OF assms] assms(2) s] .
  then have "cage_inv {} (fold (restart_unhealthy os) us st1)"
    by (induction us arbitrary: st1) (simp_all add: inv_restart_unhealthy)
  then show ?thesis using s cage_srv.serve by (simp add: cage_round_def Let_def split: option.split)
qed

lemma inv_auto_start:
  assumes "cage_inv {} st" "map_of (cg_manifests st) n = Some m"
  shows "cage_inv {} (auto_start os (n, m) st) \<and> cg_manifests (auto_start os (n, m) st) = cg_manifests st"
proof -
  obtain secrets st1 where q: "request_secrets os n (cp_credential_refs (mf_capabilities m)) st = (secrets, st1)" by fastforce
  obtain r st2 where t: "start_vm os m secrets st1 = (r, st2)" by fastforce
  have s: "cage_inv {} st1" "cg_manifests st1 = cg_manifests st"
    using inv_request_secrets(1) [OF assms(1)] inv_request_secrets(3) q by (metis snd_conv)+
  then have "cg_manifests st2 = cg_manifests st" using inv_start_vm [OF s(1) _ t] assms(2) by simp
  then show ?thesis
    using inv_start_after [OF assms q t] assms(1) q t
    by (auto simp: auto_start_def intro!: inv_sentinel_watcher split: sum.splits)
qed

lemma inv_auto_starts:
  "cage_inv {} st \<Longrightarrow> \<forall>(n, m) \<in> set nms. map_of (cg_manifests st) n = Some m \<Longrightarrow> cage_inv {} (fold (auto_start os) nms st)"
proof (induction nms arbitrary: st)
  case (Cons nm nms)
  obtain n m where nm: "nm = (n, m)" by fastforce
  have "cage_inv {} (auto_start os nm st) \<and> cg_manifests (auto_start os nm st) = cg_manifests st"
    using inv_auto_start [of st n m os] Cons.prems nm by simp
  then show ?case using Cons by simp
qed simp

lemma load_one_ok: "manifests_ok (fst s) \<Longrightarrow> manifests_ok (fst (load_one os entry s))"
  by (auto simp: load_one_def manifests_ok_def parse_manifest_Inr Let_def split: prod.split sum.split)

lemma load_manifests_ok: "manifests_ok (fst (load_manifests os f))"
proof -
  have "manifests_ok (fst (fold (load_one os) es s))" if "manifests_ok (fst s)" for es s
    using that by (induction es arbitrary: s) (simp_all add: load_one_ok)
  moreover have "manifests_ok []" by (simp add: manifests_ok_def)
  ultimately show ?thesis by (auto simp: load_manifests_def split: option.split)
qed

lemma inv_cage_start:
  assumes "is_iter (co_it_manifests os)" "cage_start os f = Inr st"
  shows "cage_inv {} st"
proof -
  obtain ms f1 where l: "load_manifests os (snd (fs_mkdirs (dp_io (co_deploy os)) ''/var/log/cage'' f)) = (ms, f1)"
    by fastforce
  then have ms: "manifests_ok ms" using load_manifests_ok by (metis fst_conv)
  from assms(2) l obtain f3 where st: "st = fold (auto_start os) (co_it_manifests os ms)
      \<lparr>cg_mgr = new_vm_manager agent_rootfs_base, cg_world = empty_world, cg_manifests = ms, cg_fs = f3, cg_sent = [], cg_reads = 0\<rparr>"
    by (auto simp: cage_start_def Let_def split: sum.splits prod.splits)
  have run: "running \<lparr>cg_mgr = new_vm_manager agent_rootfs_base, cg_world = empty_world, cg_manifests = ms, cg_fs = f3,
      cg_sent = [], cg_reads = 0\<rparr> = {}"
    by (simp add: running_def new_vm_manager_def hm_keys_def)
  have "map_of ms n = Some m" if "(n, m) \<in> set (co_it_manifests os ms)" for n m
    using that ms is_iter_set [OF assms(1)] by (simp add: manifests_ok_def hm_ok_mem_iff)
  then show ?thesis
    unfolding st using ms run
    by (intro inv_auto_starts)
      (auto simp: cage_inv_def status_ok_def settled_def last_egress_def vmm_inv_new)
qed

lemma inv_run_daemon:
  assumes "is_iter (co_it_manifests os)" "is_iter (vo_it_vms (co_vm os))" "run_daemon os rounds f = Inr st"
  shows "cage_inv {} st"
proof -
  have "cage_inv {} (fold (cage_round os) rs s)" if "cage_inv {} s" for rs s
    using that by (induction rs arbitrary: s) (simp_all add: inv_round [OF _ assms(2)])
  then show ?thesis
    using assms(3) inv_cage_start [OF assms(1)] by (auto simp: run_daemon_def split: sum.splits)
qed

section \<open>What goes wrong\<close>

text \<open>
  A restart after failed health checks that does not succeed leaves the rules of the agent in place:
  the firewall is not told that the VM is gone.
\<close>

lemma failed_restart_keeps_rules:
  assumes "cage_inv {} st" "n \<in> running st" "\<And>k. \<exists>e. vo_spawn (co_vm os) k = Inl e"
  shows "n \<notin> running (restart_unhealthy os n st)"
    "last_egress n (cg_sent (restart_unhealthy os n st)) = last_egress n (cg_sent st)"
proof -
  obtain r st1 where s: "stop_vm n st = (r, st1)" by fastforce
  note v = inv_stop_vm [OF assms(1) s]
  then obtain u where r: "r = Inr u" using assms(2) by (cases r) auto
  have c: "cage_inv {n} st1" "n \<notin> running st1" "cg_sent st1 = cg_sent st" using v r by auto
  obtain m where m: "map_of (cg_manifests st1) n = Some m"
    using v assms(2) inv_running [OF assms(1)] by (auto simp: hm_keys_dom)
  obtain secrets st2 where q: "request_secrets os n (cp_credential_refs (mf_capabilities m)) st1 = (secrets, st2)" by fastforce
  have s2: "running st2 = running st1" "last_egress n (cg_sent st2) = last_egress n (cg_sent st1)"
    using q by (auto simp: request_secrets_def call_service_def last_egress_snoc split: if_splits sum.splits)
  obtain r' st3 where t: "start_vm os m secrets st2 = (r', st3)" by fastforce
  obtain e where e: "r' = Inl e"
    using t assms(3)
    by (auto simp: start_vm_def start_agent_def spawn_vm_process_def vm_os_at_def Let_def
        split: if_splits sum.splits prod.splits) (metis sum.distinct(1))+
  have "cage_inv {n} st2" "map_of (cg_manifests st2) n = Some m"
    using inv_request_secrets(1) [OF c(1), of os n] inv_request_secrets(3) [of os n _ st1] q m by (metis snd_conv)+
  then have "running st3 = running st2" "cg_sent st3 = cg_sent st2" using inv_start_vm [OF _ _ t] e by simp_all
  then show "n \<notin> running (restart_unhealthy os n st)"
    "last_egress n (cg_sent (restart_unhealthy os n st)) = last_egress n (cg_sent st)"
    using s m q t e c s2
    by (simp_all add: restart_unhealthy_def audit_record_def last_egress_snoc)
qed

text \<open>A VM that dies of a signal is not started again, whatever its manifest says.\<close>

lemma signaled_not_restarted: "cg_world (child_signaled os pid sig st) = cg_world st"
  by (auto simp: child_signaled_def audit_record_def notify_sentinel_deregister_def notify_egress_remove_def Let_def
      split: option.split prod.split)

text \<open>
  A start request for an agent that runs is an error; so the deployment of a new version of a running
  agent replaces its manifest and files, reports an error, and leaves the old VM with its old rules.
\<close>

lemma running_not_replaced:
  assumes "cage_inv {} st" "n \<in> running st"
  shows "fst (handle_start os n st) = error_json (show_vm_error (AlreadyRunning n))"
    "vw_children (cg_world (snd (handle_start os n st))) = vw_children (cg_world st)"
proof -
  obtain m where m: "map_of (cg_manifests st) n = Some m" using assms inv_running [OF assms(1)] by (auto simp: hm_keys_dom)
  obtain secrets st1 where q: "request_secrets os n (cp_credential_refs (mf_capabilities m)) st = (secrets, st1)" by fastforce
  have s1: "cg_mgr st1 = cg_mgr st" "cg_world st1 = cg_world st" "cg_fs st1 = cg_fs st"
    using q by (auto simp: request_secrets_def call_service_def split: if_splits sum.splits)
  have "map_of (vmm_vms (cg_mgr st1)) n \<noteq> None" using assms(2) s1 by (simp add: running_def hm_keys_dom dom_def)
  then have "start_vm os m secrets st1 = (Inl (AlreadyRunning n), st1\<lparr>cg_reads := cg_reads st1 + 1\<rparr>)"
    using manifest_of(2) [OF assms(1) m] by (simp add: start_vm_def start_agent_def)
  then show "fst (handle_start os n st) = error_json (show_vm_error (AlreadyRunning n))"
    "vw_children (cg_world (snd (handle_start os n st))) = vw_children (cg_world st)"
    using m q s1 by (simp_all add: handle_start_def audit_record_def)
qed

section \<open>Properties\<close>

text \<open>
  C3: the firewall follows the VMs. In every state of the daemon, after any exits, health checks and
  connections, every request that went to the egress daemon is about a validated agent name and either
  grants exactly the domains of a validated manifest of that name or removes the agent. If the agent's VM
  runs, the last request granted its domains; if it does not run, the agent was never registered, or the
  last request removed it, or the watcher was told of a restart after failed health checks that failed.
\<close>

theorem egress_follows_vms:
  assumes "is_iter (co_it_manifests os)" and "is_iter (vo_it_vms (co_vm os))" and "run_daemon os rounds f = Inr st"
  shows "list_all request_ok (cg_sent st) \<and>
    (\<forall>n. case last_egress n (cg_sent st) of
       None \<Rightarrow> n \<notin> running st
     | Some r \<Rightarrow>
         (if n \<in> running st then granted n r else r = remove_agent_request n \<or> restart_failed n (cg_sent st)))"
  using inv_run_daemon [OF assms] by (simp add: cage_inv_def status_ok_def settled_def)

definition web_manifest :: agent_manifest where
  "web_manifest = (sample_manifest ''a'' [])\<lparr>mf_capabilities :=
     default_capabilities\<lparr>cp_network := \<lparr>nc_allow = [''104.18.0.1'']\<rparr>\<rparr>\<rparr>"

definition sample_cage_vm :: vm_os where
  "sample_cage_vm = \<lparr>vo_spawn = (\<lambda>_. Inr 7), vo_exists = (\<lambda>_. True), vo_is_dir = (\<lambda>_. True), vo_connect = (\<lambda>_ _. True),
     vo_print = (\<lambda>r. Inr (if r = add_agent_request ''a'' [''104.18.0.1''] then ''{}'' else ''[]'')), vo_it_tools = rev, vo_it_secrets = rev, vo_it_vms = rev\<rparr>"

definition sample_cage_os :: cage_os where
  "sample_cage_os = \<lparr>co_vm = sample_cage_vm,
     co_deploy = \<lparr>dp_entries = (\<lambda>_. Inr []), dp_toml = (\<lambda>_. Inr (manifest_json id web_manifest)),
       dp_serde_err = id, dp_utf8_err = id, dp_io = (\<lambda>_. None)\<rparr>,
     co_exchange = (\<lambda>_. \<lparr>ex_connect = None, ex_write = None, ex_flush = None, ex_read = (\<lambda>_. Inr [])\<rparr>),
     co_clock = (\<lambda>_. 0), co_parse = (\<lambda>_. Inl []), co_base64 = Inl, co_read_dir = Some [''a.toml''],
     co_signal = show_int, co_it_manifests = rev\<rparr>"

definition sample_cage_fs :: fs where
  "sample_cage_fs = \<lparr>nodes = [(''/var/log/cage'', Dir), (''/agent/a.toml'', File ''t'' 420),
       (''/system/rootfs/a/agent/bin/a'', File ''x'' 493)],
     fs_calls = 0\<rparr>"

lemma sample_parse:
  "parse_manifest (dp_toml (co_deploy sample_cage_os)) (dp_serde_err (co_deploy sample_cage_os)) ''t'' =
     Inr web_manifest"
proof -
  have "validate web_manifest = Inr ()"
    by (simp add: validate_iff web_manifest_def sample_manifest_def default_capabilities_def default_cpu_def default_memory_def
        valid_name_def name_char_def is_ascii_alphanumeric_def byte_def)
  moreover have "de_manifest (manifest_json id web_manifest) = Some web_manifest"
    by (subst de_manifest_json) (simp_all add: web_manifest_def sample_manifest_def)
  ultimately show ?thesis by (simp add: parse_manifest_Inr sample_cage_os_def)
qed

text \<open>The start with one manifest file, for any environment that reads it.\<close>

definition fresh_cage :: "agent_manifest \<Rightarrow> fs \<Rightarrow> cage" where
  "fresh_cage m f = \<lparr>cg_mgr = new_vm_manager agent_rootfs_base, cg_world = empty_world, cg_manifests = [(''a'', m)],
     cg_fs = f, cg_sent = [], cg_reads = 0\<rparr>"

lemma sample_load:
  assumes "nodes f = nodes sample_cage_fs" "parse_manifest (dp_toml (co_deploy os)) (dp_serde_err (co_deploy os)) ''t'' = Inr m"
    and "am_name (mf_agent m) = ''a''" "co_read_dir os = Some [''a.toml'']" "dp_io (co_deploy os) = (\<lambda>_. None)"
  shows "load_manifests os f = ([(''a'', m)], fs_tick f)"
proof -
  have d: "fs_is_dir agent_dir_path f" "extension ''a.toml'' = Some ''toml''"
    by (simp_all add: assms(1) fs_is_dir_def sample_cage_fs_def agent_dir_path_def starts_with_def extension_def after_last_def)
  have r: "fs_read (\<lambda>_. None) ''/agent/a.toml'' f = (Inr ''t'', fs_tick f)"
    by (simp add: fs_read_def sample_cage_fs_def file_of_def assms(1))
  have "load_one os ''a.toml'' ([], f) = ([(''a'', m)], fs_tick f)"
    using d r assms by (simp add: load_one_def agent_dir_path_def byte_def)
  then show ?thesis using d(1) assms(4) by (simp add: load_manifests_def)
qed

lemma sample_daemon:
  assumes "parse_manifest (dp_toml (co_deploy os)) (dp_serde_err (co_deploy os)) ''t'' = Inr m" "am_name (mf_agent m) = ''a''"
    and "co_read_dir os = Some [''a.toml'']" "dp_io (co_deploy os) = (\<lambda>_. None)" "co_it_manifests os = rev"
  shows "\<exists>f. run_daemon os [] sample_cage_fs = Inr (auto_start os (''a'', m) (fresh_cage m f)) \<and>
    fs_is_dir ''/system/rootfs/a'' f \<and> path_exists ''/system/rootfs/a/agent/bin/a'' f"
proof -
  let ?io = "\<lambda>_. None" and ?f1 = "fs_tick (fs_tick sample_cage_fs)"
  let ?f2 = "set_node cage_socket_path (Socket 384) (fs_tick (set_node cage_socket_path (Socket 493) (fs_tick ?f1)))"
  have d: "fs_mkdirs ?io ''/var/log/cage'' sample_cage_fs = (Inr (), fs_tick sample_cage_fs)"
    by (simp add: fs_mkdirs_def sample_cage_fs_def)
  have l: "load_manifests os (fs_tick sample_cage_fs) = ([(''a'', m)], ?f1)"
    by (rule sample_load) (simp_all add: assms)
  have "map_of (nodes sample_cage_fs) cage_socket_path = None" by (simp add: sample_cage_fs_def cage_socket_path_def)
  then have o: "open_socket ?io cage_socket_path ?f1 = (Inr (), ?f2)"
    by (simp add: open_socket_def fs_bind_def fs_chmod_def fs_exists_def)
  have n: "fs_nonblock ?io ?f2 = (Inr (), fs_tick ?f2)" by (simp add: fs_nonblock_def)
  have "run_daemon os [] sample_cage_fs = Inr (auto_start os (''a'', m) (fresh_cage m (fs_tick ?f2)))"
    by (simp add: run_daemon_def cage_start_def Let_def assms(4,5) d l o n fresh_cage_def)
  moreover have "fs_is_dir ''/system/rootfs/a'' (fs_tick ?f2)" "path_exists ''/system/rootfs/a/agent/bin/a'' (fs_tick ?f2)"
    by (simp_all add: fs_is_dir_def path_exists_def fs_exists_def set_node_def fs_tick_def cage_socket_path_def
        sample_cage_fs_def starts_with_def)
  ultimately show ?thesis by blast
qed

lemma sample_auto_start:
  assumes "fs_is_dir ''/system/rootfs/a'' (cg_fs st)" "path_exists ''/system/rootfs/a/agent/bin/a'' (cg_fs st)"
    and "running st = {}" "vmm_rootfs_base (cg_mgr st) = agent_rootfs_base"
  shows "running (auto_start sample_cage_os (''a'', web_manifest) st) = {''a''} \<and>
    (\<exists>r r'. cg_sent (auto_start sample_cage_os (''a'', web_manifest) st) = cg_sent st @
       [(egress_socket_path, add_agent_request ''a'' [''104.18.0.1'']), (sentinel_socket_path, r), (watcher_socket_path, r')])"
proof -
  let ?m = "web_manifest"
  have m: "am_name (mf_agent ?m) = ''a''" "am_runtime (mf_agent ?m) = Binary" "cp_credential_refs (mf_capabilities ?m) = []"
    "allowed_domains ?m = [''104.18.0.1'']"
    by (simp_all add: allowed_domains_def web_manifest_def sample_manifest_def default_capabilities_def)
  have p: "path_exists (rootfs_check ?m ''a'') (cg_fs st)"
    using m assms(2) by (simp add: rootfs_check_def agent_rootfs_base_def)
  let ?vos = "vm_os_at sample_cage_vm (cg_fs st)"
  let ?c = "vm_config_of ?vos agent_rootfs_base ?m []"
  have new: "map_of (vmm_vms (cg_mgr st)) ''a'' = None" using assms(3) by (auto simp: running_def hm_keys_dom)
  have c: "vc_root_path ?c = ''/system/rootfs/a''" "vc_exec_path ?c = ''/agent/bin/a''"
    by (simp_all add: vm_config_of_def Let_def exec_of_def m agent_rootfs_base_def)
  have rf: "validate_rootfs ?vos (vc_root_path ?c) (vc_exec_path ?c) = Inr ()"
    unfolding c using assms(1,2) by (simp add: validate_rootfs_def vm_os_at_def join_path_def)
  have sp: "\<exists>w'. spawn_vm_process ?vos x w = (Inr 7, w')" for x w
    by (simp add: spawn_vm_process_def vm_os_at_def sample_cage_vm_def)
  have os: "co_vm sample_cage_os = sample_cage_vm" by (simp add: sample_cage_os_def)
  obtain r st1 where s: "start_vm sample_cage_os ?m [] st = (r, st1)" by fastforce
  obtain w' where w': "spawn_vm_process ?vos ?c ((cg_world st)\<lparr>vw_dirs := vw_dirs (cg_world st) @
      map vm_host_path (vc_virtiofs ?c)\<rparr>) = (Inr 7, w')" using sp by blast
  have "r = Inr 7 \<and> cg_sent st1 = cg_sent st \<and> (\<exists>vm. vmm_vms (cg_mgr st1) = AList.update ''a'' vm (vmm_vms (cg_mgr st)))"
    using s unfolding start_vm_def start_agent_def Let_def os assms(4) m(1) prod.case by (auto simp: new rf w')
  then have "r = Inr 7" "running st1 = {''a''}" "cg_sent st1 = cg_sent st" using assms(3) by (auto simp: running_def)
  then show ?thesis
    using s m p
    by (auto simp: auto_start_def request_secrets_def audit_record_def notify_sentinel_register_def notify_egress_add_def)
qed

lemma sample_running:
  "\<exists>st r r'. run_daemon sample_cage_os [] sample_cage_fs = Inr st \<and> running st = {''a''} \<and>
     cg_sent st = [(egress_socket_path, add_agent_request ''a'' [''104.18.0.1'']), (sentinel_socket_path, r), (watcher_socket_path, r')]"
proof -
  have "am_name (mf_agent web_manifest) = ''a''" "co_read_dir sample_cage_os = Some [''a.toml'']"
    "dp_io (co_deploy sample_cage_os) = (\<lambda>_. None)" "co_it_manifests sample_cage_os = rev"
    by (simp_all add: web_manifest_def sample_manifest_def sample_cage_os_def)
  then obtain f where f: "run_daemon sample_cage_os [] sample_cage_fs =
      Inr (auto_start sample_cage_os (''a'', web_manifest) (fresh_cage web_manifest f))"
    "fs_is_dir ''/system/rootfs/a'' f" "path_exists ''/system/rootfs/a/agent/bin/a'' f"
    using sample_daemon [OF sample_parse] by blast
  have "running (auto_start sample_cage_os (''a'', web_manifest) (fresh_cage web_manifest f)) = {''a''} \<and>
    (\<exists>r r'. cg_sent (auto_start sample_cage_os (''a'', web_manifest) (fresh_cage web_manifest f)) =
       cg_sent (fresh_cage web_manifest f) @
       [(egress_socket_path, add_agent_request ''a'' [''104.18.0.1'']), (sentinel_socket_path, r), (watcher_socket_path, r')])"
    by (rule sample_auto_start) (use f(2,3) in \<open>simp_all add: fresh_cage_def running_def new_vm_manager_def hm_keys_def\<close>)
  then show ?thesis using f(1) by (auto simp: fresh_cage_def)
qed

theorem egress_follows_vms_witness:
  "\<exists>st r. run_daemon sample_cage_os [] sample_cage_fs = Inr st \<and> last_egress ''a'' (cg_sent st) = Some r \<and> granted ''a'' r"
proof -
  obtain st where st: "run_daemon sample_cage_os [] sample_cage_fs = Inr st" "running st = {''a''}"
    using sample_running by blast
  have "is_iter (co_it_manifests sample_cage_os)" "is_iter (vo_it_vms (co_vm sample_cage_os))"
    by (simp_all add: sample_cage_os_def sample_cage_vm_def)
  note f = egress_follows_vms [OF this st(1), THEN conjunct2, THEN spec, of "''a''"]
  have a: "''a'' \<in> running st" using st(2) by simp
  show ?thesis
  proof (cases "last_egress ''a'' (cg_sent st)")
    case None
    then show ?thesis using f a by simp
  next
    case (Some r)
    then have "granted ''a'' r" using f a by simp
    with Some st(1) show ?thesis by blast
  qed
qed

end
