(* ===== verification/Secrets.thy ===== *)
theory Secrets
  imports Cage Warden
begin

text \<open>
  The cage and the warden together: which secrets reach an agent's VM. An interface says what the
  operations of the cage need to keep of a property of its state; the interpretation follows the
  configurations that were handed to the VM runners.
\<close>

section \<open>Properties that every operation keeps\<close>

text \<open>
  \<open>K\<close> is the property, \<open>S m ss\<close> what is known of the secrets \<open>ss\<close> with which \<open>m\<close> is started. The laws are
  about the few ways in which the cage changes its state.
\<close>

locale cage_keeps =
  fixes os :: cage_os
    and K :: "cage \<Rightarrow> bool"
    and S :: "agent_manifest \<Rightarrow> (string, string) hashmap \<Rightarrow> bool"
  assumes known: "K st \<Longrightarrow> manifests_ok (cg_manifests st)"
    and sent: "K st \<Longrightarrow> K (st\<lparr>cg_sent := l\<rparr>)"
    and secrets: "request_secrets os n (cp_credential_refs (mf_capabilities m)) st = (ss, st1) \<Longrightarrow> S m ss"
    and started: "K st \<Longrightarrow> validate m = Inr () \<Longrightarrow> S m ss \<Longrightarrow> K (snd (start_vm os m ss st))"
    and manager: "K st \<Longrightarrow> vw_children w = vw_children (cg_world st) \<Longrightarrow> K (st\<lparr>cg_mgr := mgr, cg_world := w, cg_reads := k\<rparr>)"
    and files: "K st \<Longrightarrow> manifests_ok ms \<Longrightarrow> K (st\<lparr>cg_fs := f, cg_manifests := ms\<rparr>)"
begin

lemma call [intro]: "K st \<Longrightarrow> K (snd (call_service os s r st))"
  by (simp add: sent)

lemma notified [intro]:
  "K st \<Longrightarrow> K (notify_egress_add os n ds st)" "K st \<Longrightarrow> K (notify_egress_remove os n st)"
  "K st \<Longrightarrow> K (notify_sentinel_register os m st)" "K st \<Longrightarrow> K (notify_sentinel_deregister os n st)"
  "K st \<Longrightarrow> K (audit_record os n a b c st)"
  by (simp_all add: notify_egress_add_def notify_egress_remove_def notify_sentinel_register_def
      notify_sentinel_deregister_def audit_record_def sent)

lemma requested: "K st \<Longrightarrow> K (snd (request_secrets os n refs st))"
  by (auto simp: request_secrets_def call_service_def sent split: sum.split)

lemma manager_only: "K st \<Longrightarrow> K (st\<lparr>cg_mgr := mgr\<rparr>)"
  using manager [where st = st and w = "cg_world st" and mgr = mgr and k = "cg_reads st"] by simp

lemma manager_world: "K st \<Longrightarrow> vw_children w = vw_children (cg_world st) \<Longrightarrow> K (st\<lparr>cg_mgr := mgr, cg_world := w\<rparr>)"
  using manager [where st = st and w = w and mgr = mgr and k = "cg_reads st"] by simp

text \<open>Every start of a VM is a request for the secrets of a manifest and a start with the answer.\<close>

lemma start_with_secrets:
  assumes "K st" "validate m = Inr ()"
    and "request_secrets os n (cp_credential_refs (mf_capabilities m)) st = (ss, st1)" "start_vm os m ss st1 = (r, st2)"
  shows "K st2"
  using started [OF _ assms(2) secrets [OF assms(3)], of st1] requested [OF assms(1), of n "cp_credential_refs (mf_capabilities m)"]
    assms(3,4) by simp

lemma manifest_valid: "K st \<Longrightarrow> map_of (cg_manifests st) n = Some m \<Longrightarrow> validate m = Inr ()"
  using known by (auto simp: manifests_ok_def)

lemma start_keeps: "K st \<Longrightarrow> K (snd (handle_start os n st))"
  unfolding handle_start_def Let_def
  by (auto split: option.split prod.split sum.split dest: start_with_secrets [OF _ manifest_valid])

lemma stop_vm_keeps: "K st \<Longrightarrow> K (snd (stop_vm n st))"
  by (auto simp: stop_vm_def stop_agent_def manager_world split: prod.split option.split)

lemma stop_keeps: "K st \<Longrightarrow> K (snd (handle_stop os n st))"
  unfolding handle_stop_def using stop_vm_keeps [of st n] by (auto split: prod.split sum.split intro!: notified)

lemma deploy_keeps:
  assumes "K st"
  shows "K (snd (handle_deploy os req st))"
proof -
  have f: "K (st\<lparr>cg_fs := f\<rparr>)" for f using files [OF assms known [OF assms], of f] by simp
  have "K st1"
    if "unpack_bundle env data d b g = (Inr m, f)"
      "handle_start os (am_name (mf_agent m))
        (st\<lparr>cg_fs := f, cg_manifests := AList.update (am_name (mf_agent m)) m (cg_manifests st)\<rparr>) = (r, st1)"
    for env data d b g m f r st1
  proof -
    have "manifests_ok (AList.update (am_name (mf_agent m)) m (cg_manifests st))"
      using known [OF assms] unpack_validates [OF that(1)] by (auto simp: manifests_ok_def)
    from start_keeps [OF files [OF assms this], of "am_name (mf_agent m)" f] that(2) show ?thesis by simp
  qed
  then show ?thesis
    using assms f unfolding handle_deploy_def Let_def by (auto split: option.split sum.split prod.split)
qed

lemma command_keeps: "K st \<Longrightarrow> K (fst (handle_command os l st))"
  using start_keeps [of st] stop_keeps [of st] deploy_keeps [of st]
  by (auto simp: handle_command_def Let_def split: sum.split prod.split) (metis snd_conv)+

lemma crashed_keeps: "K st \<Longrightarrow> validate m = Inr () \<Longrightarrow> K (restart_crashed os n m st)"
  unfolding restart_crashed_def Let_def by (auto split: prod.split sum.split dest: start_with_secrets)

lemma crashed_known: "K st \<Longrightarrow> K (case map_of (cg_manifests st) n of None \<Rightarrow> st | Some m \<Rightarrow> restart_crashed os n m st)"
  by (auto split: option.split intro: crashed_keeps manifest_valid)

lemma exited_keeps:
  assumes "K st"
  shows "K (child_exited os pid status st)"
proof (cases "handle_exit (co_vm os) pid status (cg_mgr st)")
  case (Pair x mgr)
  show ?thesis
  proof (cases x)
    case (Some e)
    have "K (audit_record os (ve_agent_name e) (if ve_exit_status e = 0 then ''stop'' else ''crash'') ''success''
        (''exit='' @ show_int (ve_exit_status e))
        (notify_sentinel_deregister os (ve_agent_name e) (notify_egress_remove os (ve_agent_name e) (st\<lparr>cg_mgr := mgr\<rparr>))))"
      by (intro notified manager_only assms)
    then show ?thesis
      using crashed_known by (simp add: child_exited_def Pair Some Let_def del: notify_manifests)
  qed (use assms Pair in \<open>simp add: child_exited_def\<close>)
qed

lemma signaled_keeps: "K st \<Longrightarrow> K (child_signaled os pid sig st)"
  unfolding child_signaled_def Let_def by (auto split: option.split prod.split intro!: manager_only)

lemma reap_keeps: "K st \<Longrightarrow> K (cage_reap_children os ws st)"
proof (induction ws arbitrary: st)
  case (Cons x ws)
  then show ?case by (cases x) (simp_all add: exited_keeps signaled_keeps)
qed simp

lemma sweep_keeps: "K st \<Longrightarrow> K (snd (sweep_vms os st))"
  by (auto simp: sweep_vms_def health_check_sweep_def split: prod.split intro!: manager)

lemma unhealthy_keeps:
  assumes "K st"
  shows "K (restart_unhealthy os n st)"
proof -
  have "K (snd (stop_vm n st))" using assms by (rule stop_vm_keeps)
  then show ?thesis
    unfolding restart_unhealthy_def Let_def
    by (auto split: option.split prod.split sum.split dest: start_with_secrets [OF _ manifest_valid] intro!: notified)
qed

lemma conn_keeps: "K st \<Longrightarrow> K (fst (serve_conn (handle_command os) c st))"
  unfolding serve_conn_def by (rule line_loop_inv [where L = UNIV]) (auto intro: command_keeps)

lemma round_keeps:
  assumes "K st"
  shows "K (cage_round os r st)"
proof -
  have u: "K (fold (restart_unhealthy os) us s)" if "K s" for us s
    using that by (induction us arbitrary: s) (simp_all add: unhealthy_keeps)
  have "K (snd (sweep_vms os (cage_reap_children os (fst r) st)))" by (intro sweep_keeps reap_keeps assms)
  from u [OF this] show ?thesis
    by (auto simp: cage_round_def Let_def split: prod.split option.split intro!: conn_keeps)
qed

lemma auto_start_keeps: "K st \<Longrightarrow> validate m = Inr () \<Longrightarrow> K (auto_start os (n, m) st)"
  unfolding auto_start_def Let_def
  by (auto split: prod.split sum.split dest: start_with_secrets intro!: notified)

lemma auto_starts_keep: "K st \<Longrightarrow> \<forall>(n, m) \<in> set nms. validate m = Inr () \<Longrightarrow> K (fold (auto_start os) nms st)"
proof (induction nms arbitrary: st)
  case (Cons nm nms)
  then show ?case using auto_start_keeps by (cases nm) simp
qed simp

theorem daemon_keeps:
  assumes "run_daemon os rounds f = Inr st" "is_iter (co_it_manifests os)"
    and fresh: "\<And>ms g. manifests_ok ms \<Longrightarrow> K \<lparr>cg_mgr = new_vm_manager agent_rootfs_base, cg_world = empty_world,
      cg_manifests = ms, cg_fs = g, cg_sent = [], cg_reads = 0\<rparr>"
  shows "K st"
proof -
  obtain st0 where st0: "cage_start os f = Inr st0" "st = fold (cage_round os) rounds st0"
    using assms(1) by (auto simp: run_daemon_def split: sum.splits)
  obtain ms f1 where l: "load_manifests os (snd (fs_mkdirs (dp_io (co_deploy os)) ''/var/log/cage'' f)) = (ms, f1)"
    by fastforce
  then have ms: "manifests_ok ms" using load_manifests_ok by (metis fst_conv)
  from st0(1) l obtain f3 where s: "st0 = fold (auto_start os) (co_it_manifests os ms)
      \<lparr>cg_mgr = new_vm_manager agent_rootfs_base, cg_world = empty_world, cg_manifests = ms, cg_fs = f3, cg_sent = [], cg_reads = 0\<rparr>"
    by (auto simp: cage_start_def Let_def split: sum.splits prod.splits)
  have "validate m = Inr ()" if "(n, m) \<in> set (co_it_manifests os ms)" for n m
    using that ms is_iter_set [OF assms(2)] by (auto simp: manifests_ok_def hm_ok_mem_iff)
  then have "K st0" unfolding s by (intro auto_starts_keep fresh ms) auto
  moreover have "K (fold (cage_round os) rs s)" if "K s" for rs s
    using that by (induction rs arbitrary: s) (simp_all add: round_keeps)
  ultimately show ?thesis using st0(2) by simp
qed

end

section \<open>The configurations that are handed out\<close>

text \<open>Secrets that a request for a manifest's references gave, and the text of a configuration with them.\<close>

definition obtained :: "cage_os \<Rightarrow> agent_manifest \<Rightarrow> (string, string) hashmap \<Rightarrow> bool" where
  "obtained os m ss \<longleftrightarrow> (\<exists>n st. fst (request_secrets os n (cp_credential_refs (mf_capabilities m)) st) = ss)"

definition handed :: "cage_os \<Rightarrow> string \<Rightarrow> bool" where
  "handed os t \<longleftrightarrow> (\<exists>base m ss. validate m = Inr () \<and> obtained os m ss \<and>
     vo_print (co_vm os) (vm_config_json (vm_config_of (co_vm os) base m ss)) = Inr t)"

definition children_handed :: "cage_os \<Rightarrow> cage \<Rightarrow> bool" where
  "children_handed os st \<longleftrightarrow> manifests_ok (cg_manifests st) \<and> list_all (\<lambda>(_, t). handed os t) (vw_children (cg_world st))"

lemma vm_os_at_config [simp]:
  "vm_config_of (vm_os_at os f) base m ss = vm_config_of os base m ss" "vo_print (vm_os_at os f) = vo_print os"
  by (simp_all add: vm_config_of_def vm_os_at_def)

lemma start_vm_handed:
  assumes "children_handed os st" "validate m = Inr ()" "obtained os m ss"
  shows "children_handed os (snd (start_vm os m ss st))"
proof -
  obtain r mgr w where s: "start_agent (vm_os_at (co_vm os) (cg_fs st)) (co_clock os (cg_reads st)) m ss (cg_mgr st, cg_world st) = (r, mgr, w)"
    by (metis prod.collapse)
  have h: "handed os t" if "vo_print (co_vm os) (vm_config_json (vm_config_of (co_vm os) base m ss)) = Inr t" for base t
    using that assms(2,3) unfolding handed_def by blast
  have "list_all (\<lambda>(_, t). handed os t) (vw_children w)"
    using start_agent_cases [OF s] assms(1) h by (cases r) (auto simp: children_handed_def)
  then show ?thesis using s assms(1) by (simp add: start_vm_def children_handed_def)
qed

interpretation handed_keeps: cage_keeps os "children_handed os" "obtained os" for os
proof
  show "children_handed os (snd (start_vm os m ss st))"
    if "children_handed os st" "validate m = Inr ()" "obtained os m ss" for st m ss
    using that by (rule start_vm_handed)
  show "obtained os m ss" if "request_secrets os n (cp_credential_refs (mf_capabilities m)) st = (ss, st1)" for n m st ss st1
    using that unfolding obtained_def by (metis fst_conv)
qed (simp_all add: children_handed_def)

section \<open>The warden behind its socket\<close>

text \<open>
  What comes back for a request of secrets is the answer of a warden that is in one of the states \<open>W\<close> and
  reads the request as it was meant, or it is nothing that parses.
\<close>

definition warden_behind :: "cage_os \<Rightarrow> vault_env \<Rightarrow> warden set \<Rightarrow> bool" where
  "warden_behind os wenv W \<longleftrightarrow>
     (\<forall>k n refs l t v. vo_print (co_vm os) (secrets_request n refs) = Inr l \<longrightarrow> ex_read (co_exchange os k) l = Inr t \<longrightarrow>
        co_parse os (trim t) = Inr v \<longrightarrow>
        ve_parse wenv l = Inr (secrets_request n refs) \<and> (\<exists>w \<in> W. fst (snd (warden_step wenv l w)) = Some v))"

definition granted_secrets :: "warden set \<Rightarrow> agent_manifest \<Rightarrow> (string, string) hashmap \<Rightarrow> bool" where
  "granted_secrets W m ss \<longleftrightarrow> (\<forall>(k, v) \<in> set ss. k \<in> set (cp_credential_refs (mf_capabilities m)) \<and>
     (\<exists>w \<in> W. map_of (va_secrets (wd_vault w)) k = Some v))"

lemma set_fold_updates: "set (fold (\<lambda>(k, s). AList.update k s) kvs m) \<subseteq> set kvs \<union> set m"
proof (induction kvs arbitrary: m)
  case (Cons kv kvs)
  have "set (AList.update k s m) \<subseteq> insert (k, s) (set m)" for k :: 'a and s :: 'b by (induction m) auto
  then show ?case using Cons [of "AList.update (fst kv) (snd kv) m"] by (fastforce simp: case_prod_unfold)
qed simp

lemma secrets_request_fields:
  "str_or [] (secrets_request n refs) ''method'' = ''get-secrets''" "strings_of (secrets_request n refs) ''credential_refs'' = refs"
  by (simp_all add: secrets_request_def str_or_def strings_of_def strs_def)

lemma answered_secrets:
  assumes "is_iter (ve_it wenv)" "warden_behind os wenv W"
    and "send_to_service os (co_exchange os i) (secrets_request n refs) = Inr resp" "(k, x) \<in> set (secrets_of_answer os resp)"
  shows "k \<in> set refs \<and> (\<exists>w \<in> W. map_of (va_secrets (wd_vault w)) k = Some x)"
proof -
  obtain l t where l: "vo_print (co_vm os) (secrets_request n refs) = Inr l" "ex_read (co_exchange os i) l = Inr t" "resp = trim t"
    using assms(3) by (auto simp: send_to_service_def split: option.splits sum.splits)
  obtain v where v: "co_parse os resp = Inr v"
    using assms(4) by (cases "co_parse os resp") (simp_all add: secrets_of_answer_def)
  obtain w where w: "w \<in> W" "ve_parse wenv l = Inr (secrets_request n refs)" "fst (snd (warden_step wenv l w)) = Some v"
    using assms(2) l v unfolding warden_behind_def by blast
  obtain ms where ms: "v = JObj [(''ok'', JBool True), (''secrets'', JObj ms)]" "distinct (map fst ms)"
    "map_of ms = (\<lambda>k. if k \<in> set refs then map_option JStr (map_of (va_secrets (wd_vault w)) k) else None)"
    using secrets_confined [OF assms(1) w(2) secrets_request_fields(1), of w] w(3) by (auto simp: secrets_request_fields)
  have "(k, x) \<in> set (List.map_filter (\<lambda>(k, v). map_option (Pair k) (as_str v)) ms)"
    using assms(4) v ms(1) set_fold_updates [of "List.map_filter (\<lambda>(k, v). map_option (Pair k) (as_str v)) ms" "[]"]
    by (auto simp: secrets_of_answer_def)
  then have "(k, JStr x) \<in> set ms" by (auto simp: List.map_filter_def elim!: as_str.elims)
  then have "map_of ms k = Some (JStr x)" using ms(2) by (simp add: map_of_is_SomeI)
  then show ?thesis using ms(3) w(1) by (auto split: if_splits)
qed

lemma obtained_granted:
  assumes "is_iter (ve_it wenv)" "warden_behind os wenv W" "obtained os m ss"
  shows "granted_secrets W m ss"
  using assms(3) answered_secrets [OF assms(1,2)]
  by (fastforce simp: obtained_def granted_secrets_def request_secrets_def call_service_def split: if_splits sum.splits)

section \<open>What reaches a VM\<close>

lemma config_env: "set (vc_env (vm_config_of os base m ss)) =
    {''AGENT_NAME='' @ am_name (mf_agent m), ''CTXGRAPH_PORT=9100''} \<union> {k @ ''='' @ v | k v. (k, v) \<in> set (vo_it_secrets os ss)}"
proof -
  have e: "vc_env (vm_config_of os base m ss) = [''AGENT_NAME='' @ am_name (mf_agent m), ''CTXGRAPH_PORT=9100''] @
      map (\<lambda>(k, v). k @ ''='' @ v) (vo_it_secrets os ss)"
    by (simp add: vm_config_of_def Let_def split_beta)
  have "set (map (\<lambda>(k, v). k @ ''='' @ v) xs) = {k @ ''='' @ v | k v. (k, v) \<in> set xs}" for xs :: "(string \<times> string) list"
    by force
  then show ?thesis unfolding e by (simp only: set_append list.set)
qed


section \<open>An agent with one secret\<close>

definition key_manifest :: agent_manifest where
  "key_manifest = web_manifest\<lparr>mf_capabilities := (mf_capabilities web_manifest)\<lparr>cp_credential_refs := [''K'']\<rparr>\<rparr>"

definition key_request :: json where
  "key_request = secrets_request ''a'' [''K'']"

definition key_config :: vm_config where
  "key_config = vm_config_of (sample_cage_vm\<lparr>vo_print := \<lambda>v. if v = manifest_json rev key_manifest then Inr ''m'' else Inl ''x''\<rparr>)
     agent_rootfs_base key_manifest [(''K'', ''V'')]"

definition key_vm :: vm_os where
  "key_vm = sample_cage_vm\<lparr>vo_print := \<lambda>v. if v = manifest_json rev key_manifest then Inr ''m''
     else if v = vm_config_json key_config then Inr ''c'' else if v = key_request then Inr ''g'' else Inl ''x''\<rparr>"

definition key_answer :: json where
  "key_answer = JObj [(''ok'', JBool True), (''secrets'', JObj [(''K'', JStr ''V'')])]"

definition key_os :: cage_os where
  "key_os = sample_cage_os\<lparr>co_vm := key_vm,
     co_deploy := (co_deploy sample_cage_os)\<lparr>dp_toml := \<lambda>_. Inr (manifest_json id key_manifest)\<rparr>,
     co_exchange := \<lambda>_. \<lparr>ex_connect = None, ex_write = None, ex_flush = None, ex_read = \<lambda>_. Inr ''r''\<rparr>,
     co_parse := \<lambda>l. if l = ''r'' then Inr key_answer else Inl []\<rparr>"

lemma key_manifest_simps:
  "am_name (mf_agent key_manifest) = ''a''" "am_runtime (mf_agent key_manifest) = Binary"
  "cp_credential_refs (mf_capabilities key_manifest) = [''K'']" "validate key_manifest = Inr ()" "mf_tools key_manifest = []"
  by (simp_all add: key_manifest_def web_manifest_def sample_manifest_def validate_iff default_capabilities_def default_cpu_def
      default_memory_def valid_name_def name_char_def is_ascii_alphanumeric_def byte_def)

lemma key_parse:
  "parse_manifest (dp_toml (co_deploy key_os)) (dp_serde_err (co_deploy key_os)) ''t'' = Inr key_manifest"
proof -
  have "de_manifest (manifest_json id key_manifest) = Some key_manifest"
    by (subst de_manifest_json) (simp_all add: key_manifest_simps)
  then show ?thesis using key_manifest_simps(4) by (simp add: parse_manifest_Inr key_os_def sample_cage_os_def)
qed

lemma key_documents:
  "vm_config_json c \<noteq> manifest_json it m" "secrets_request n refs \<noteq> manifest_json it m" "secrets_request n refs \<noteq> vm_config_json c"
  by (simp_all add: vm_config_json_def manifest_json_def secrets_request_def)

lemma key_config: "vm_config_of key_vm agent_rootfs_base key_manifest [(''K'', ''V'')] = key_config"
  by (simp add: vm_config_of_def Let_def split_beta key_config_def key_vm_def sample_cage_vm_def)

lemma key_printed: "vo_print key_vm (vm_config_json key_config) = Inr ''c''" "vo_print key_vm v = Inr ''c'' \<Longrightarrow> v = vm_config_json key_config"
  "vo_print key_vm (secrets_request n refs) = Inr l \<Longrightarrow> secrets_request n refs = key_request \<and> l = ''g''"
  "vo_print key_vm key_request = Inr ''g''"
  using key_documents by (auto simp: key_vm_def key_request_def split: if_splits)

lemma trim_r: "trim ''r'' = ''r''"
  by (simp add: trim_one byte_def)

lemma key_secrets: "request_secrets key_os ''a'' [''K''] st = ([(''K'', ''V'')], st\<lparr>cg_sent := cg_sent st @ [(warden_socket_path, key_request)]\<rparr>)"
proof -
  have "send_to_service key_os (co_exchange key_os k) (secrets_request ''a'' [''K'']) = Inr ''r''" for k
    using key_printed(4) by (simp add: send_to_service_def key_os_def key_request_def trim_r)
  moreover have "secrets_of_answer key_os ''r'' = [(''K'', ''V'')]"
    by (simp add: secrets_of_answer_def key_os_def key_answer_def List.map_filter_def)
  ultimately show ?thesis by (simp add: request_secrets_def call_service_def key_request_def)
qed

lemma key_warden: "warden_behind key_os (warden_env_with key_request) {sample_warden empty_fs}"
proof -
  let ?wenv = "warden_env_with key_request"
  have p: "ve_parse ?wenv ''g'' = Inr key_request" by (simp add: warden_env_with_def)
  have m: "str_or [] key_request ''method'' = ''get-secrets''" "strings_of key_request ''credential_refs'' = [''K'']"
    by (simp_all add: key_request_def secrets_request_fields)
  have "handle_get_secrets ?wenv key_request (sample_warden empty_fs) = key_answer"
    by (simp add: handle_get_secrets_def m vault_get_def sample_warden_def sample_vault_def warden_env_with_def sample_vault_env_def
        string_map_json_def key_answer_def List.map_filter_def)
  then have "fst (snd (warden_step ?wenv ''g'' (sample_warden empty_fs))) = Some key_answer"
    by (simp add: warden_step_def p m)
  moreover have "v = key_answer" if "co_parse key_os s = Inr v" for s v
    using that by (simp add: key_os_def split: if_splits)
  moreover have "co_vm key_os = key_vm" by (simp add: key_os_def)
  ultimately show ?thesis
    unfolding warden_behind_def using p key_printed(3) by (metis singletonI)
qed

lemma key_child:
  "\<exists>st. run_daemon key_os [] sample_cage_fs = Inr st \<and> (7, ''c'') \<in> set (vw_children (cg_world st))"
proof -
  have os: "co_read_dir key_os = Some [''a.toml'']" "dp_io (co_deploy key_os) = (\<lambda>_. None)" "co_it_manifests key_os = rev"
    "co_vm key_os = key_vm" by (simp_all add: key_os_def sample_cage_os_def)
  obtain f where f: "run_daemon key_os [] sample_cage_fs = Inr (auto_start key_os (''a'', key_manifest) (fresh_cage key_manifest f))"
    "fs_is_dir ''/system/rootfs/a'' f" "path_exists ''/system/rootfs/a/agent/bin/a'' f"
    using sample_daemon [OF key_parse key_manifest_simps(1) os(1-3)] by blast
  let ?fresh = "fresh_cage key_manifest f" and ?vos = "vm_os_at key_vm f"
  let ?st = "?fresh\<lparr>cg_sent := cg_sent ?fresh @ [(warden_socket_path, key_request)]\<rparr>"
  have p: "path_exists (rootfs_check key_manifest ''a'') (cg_fs ?fresh)"
    using f(3) by (simp add: rootfs_check_def agent_rootfs_base_def key_manifest_simps fresh_cage_def)
  have c: "vc_root_path key_config = ''/system/rootfs/a''" "vc_exec_path key_config = ''/agent/bin/a''"
    by (simp_all add: key_config_def vm_config_of_def Let_def exec_of_def key_manifest_simps agent_rootfs_base_def)
  have rf: "validate_rootfs ?vos (vc_root_path key_config) (vc_exec_path key_config) = Inr ()"
    unfolding c using f(2,3) by (simp add: validate_rootfs_def vm_os_at_def join_path_def)
  have sp: "\<exists>w'. spawn_vm_process ?vos key_config w = (Inr 7, w') \<and> (7, ''c'') \<in> set (vw_children w')" for w
    by (simp add: spawn_vm_process_def key_printed(1)) (simp add: vm_os_at_def key_vm_def sample_cage_vm_def)
  obtain r st1 where s: "start_vm key_os key_manifest [(''K'', ''V'')] ?st = (r, st1)" by fastforce
  obtain w' where w': "spawn_vm_process ?vos key_config (empty_world\<lparr>vw_dirs := vw_dirs empty_world @
      map vm_host_path (vc_virtiofs key_config)\<rparr>) = (Inr 7, w')" "(7, ''c'') \<in> set (vw_children w')" using sp by blast
  have "r = Inr 7 \<and> (7, ''c'') \<in> set (vw_children (cg_world st1))"
    using s w'(2) unfolding start_vm_def start_agent_def Let_def os(4) prod.case key_manifest_simps(1)
    by (auto simp: fresh_cage_def new_vm_manager_def key_config rf w'(1))
  moreover have "auto_start key_os (''a'', key_manifest) ?fresh =
      (case r of Inr pid \<Rightarrow> audit_record key_os ''a'' ''start'' ''success'' (show_pid pid) (notify_sentinel_register key_os key_manifest
           (notify_egress_add key_os ''a'' (allowed_domains key_manifest) st1))
       | Inl e \<Rightarrow> audit_record key_os ''a'' ''start'' ''failure'' (show_vm_error e) st1)"
    unfolding auto_start_def Let_def prod.case key_manifest_simps(3) key_secrets s using p by simp
  ultimately have "(7, ''c'') \<in> set (vw_children (cg_world (auto_start key_os (''a'', key_manifest) ?fresh)))"
    by (simp add: audit_record_def notify_sentinel_register_def notify_egress_add_def)
  then show ?thesis using f(1) by blast
qed


end
