(* ===== verification/Web.thy ===== *)
theory Web
  imports Cage
begin

text \<open>
  Model of \<open>pkg/nullweb/src/main.rs\<close> and \<open>routes.rs\<close>: the web front end. It parses one HTTP request per
  connection, turns it into a request to one of the daemons, and answers with the daemon's reply. The
  sockets, the JSON parser and printer, the dashboard's text and the version are parameters. The lemmas
  show that the base64 encoder is correct, and which of the requests the cage daemon understands.
\<close>

section \<open>State\<close>

record http_request =
  hr_method :: string
  hr_path :: string
  hr_headers :: "(string \<times> string) list"
  hr_body :: string

text \<open>
  One exchange with a daemon: the error of the connection, whether the write fails, and what
  \<open>read_line\<close> then gives, an error or a line (the empty one at the end of the stream).
\<close>

record web_env =
  wb_connect :: "string \<Rightarrow> io_error option"
  wb_write_fails :: "string \<Rightarrow> bool"
  wb_read :: "string \<Rightarrow> string \<Rightarrow> io_error + string"
  wb_parse :: "string \<Rightarrow> string + json"
  wb_print :: "json \<Rightarrow> string + string"
  wb_dashboard :: string
  wb_registry :: "string option"
  wb_version :: string
  wb_exists :: "string \<Rightarrow> bool"

definition MAX_BODY_SIZE :: nat where
  "MAX_BODY_SIZE = 64 * 1024 * 1024"

section \<open>Parsing a request\<close>

text \<open>
  \<open>read_line\<close>: the bytes up to and with the next newline. Without one, the rest if the peer has closed
  the connection, and an error (the timeout) if it has not; text that is not UTF-8 is an error too.
\<close>

definition web_read_line :: "bool \<Rightarrow> string \<Rightarrow> (string \<times> string) option" where
  "web_read_line waits s =
     (let l = takeWhile (\<lambda>c. c \<noteq> CHR 10) s; r = dropWhile (\<lambda>c. c \<noteq> CHR 10) s
      in case r of
           [] \<Rightarrow> (if waits \<or> \<not> valid_utf8 s then None else Some (s, []))
         | n # r' \<Rightarrow> (if valid_utf8 (l @ [n]) then Some (l @ [n], r') else None))"

text \<open>
  \<open>to_uppercase\<close> as far as it can give ASCII letters only: those of ASCII, the dotless i, the long s, the
  sharp s and the ligatures; every other character stays, since the result is only compared with method
  names. \<open>ascii_lower\<close> is \<open>to_lowercase\<close> of a header's key in the same sense: no other character becomes a
  letter of \<open>content-length\<close>, and the other headers are stored but not read.
\<close>

definition ascii_upper :: "char \<Rightarrow> char" where
  "ascii_upper c = (if 97 \<le> byte c \<and> byte c \<le> 122 then char_of (byte c - 32) else c)"

definition ascii_lower :: "char \<Rightarrow> char" where
  "ascii_lower c = (if 65 \<le> byte c \<and> byte c \<le> 90 then char_of (byte c + 32) else c)"

definition special_upper :: "(string \<times> string) list" where
  "special_upper =
     [(map char_of [196, 177 :: nat], ''I''), (map char_of [197, 191 :: nat], ''S''),
      (map char_of [239, 172, 128 :: nat], ''FF''), (map char_of [239, 172, 129 :: nat], ''FI''),
      (map char_of [239, 172, 130 :: nat], ''FL''), (map char_of [239, 172, 131 :: nat], ''FFI''),
      (map char_of [239, 172, 132 :: nat], ''FFL''), (map char_of [239, 172, 133 :: nat], ''ST''),
      (map char_of [239, 172, 134 :: nat], ''ST''), (map char_of [195, 159 :: nat], ''SS'')]"

fun to_uppercase :: "string \<Rightarrow> string" where
  "to_uppercase [] = []"
| "to_uppercase (c # s) =
     (case find (\<lambda>(p, _). starts_with (c # s) p) special_upper of
        Some (p, u) \<Rightarrow> u @ to_uppercase (drop (length p - 1) s)
      | None \<Rightarrow> ascii_upper c # to_uppercase s)"

text \<open>\<open>parse::<usize>\<close>, with 0 for everything that does not parse.\<close>

definition parse_usize :: "string \<Rightarrow> nat" where
  "parse_usize s =
     (let d = (case s of c # r \<Rightarrow> if c = CHR ''+'' then r else s | [] \<Rightarrow> [])
      in if d \<noteq> [] \<and> list_all is_digit d \<and> nat_of_digits 0 d < 2 ^ 64 then nat_of_digits 0 d else 0)"

text \<open>\<open>splitn(3, ' ')\<close>, of which the first two pieces are used.\<close>

definition request_parts :: "string \<Rightarrow> (string \<times> string) option" where
  "request_parts s =
     (case split_on (CHR '' '') s of m # p # _ \<Rightarrow> Some (m, p) | _ \<Rightarrow> None)"

definition split_colon :: "string \<Rightarrow> (string \<times> string) option" where
  "split_colon s =
     (if CHR '':'' \<in> set s then Some (takeWhile (\<lambda>c. c \<noteq> CHR '':'') s, tl (dropWhile (\<lambda>c. c \<noteq> CHR '':'') s)) else None)"

lemma web_read_line_append: "web_read_line waits s = Some (l, r) \<Longrightarrow> s = l @ r"
proof -
  assume a: "web_read_line waits s = Some (l, r)"
  let ?p = "\<lambda>c. c \<noteq> CHR 10"
  have s: "takeWhile ?p s @ dropWhile ?p s = s" by (rule takeWhile_dropWhile_id)
  show "s = l @ r"
  proof (cases "dropWhile ?p s")
    case Nil
    show ?thesis using a unfolding web_read_line_def Let_def Nil by (simp split: if_splits)
  next
    case (Cons n r')
    then have "l = takeWhile ?p s @ [n]" "r = r'"
      using a unfolding web_read_line_def Let_def Cons by (simp_all split: if_splits)
    then show ?thesis using s Cons by (metis append.assoc append_Cons append_Nil)
  qed
qed

text \<open>The header lines, up to the first blank one or the end of the stream.\<close>

function read_headers ::
    "bool \<Rightarrow> string \<Rightarrow> (string \<times> string) list \<Rightarrow> nat \<Rightarrow> ((string \<times> string) list \<times> nat \<times> string) option" where
  "read_headers waits s hs len =
     (case web_read_line waits s of
        None \<Rightarrow> None
      | Some (l, r) \<Rightarrow>
          (if l = [] \<or> trim l = [] then Some (hs, len, r)
           else case split_colon (trim l) of
                  None \<Rightarrow> read_headers waits r hs len
                | Some (key, val) \<Rightarrow>
                    read_headers waits r (hs @ [(map ascii_lower (trim key), trim val)])
                      (if map ascii_lower (trim key) = ''content-length'' then parse_usize (trim val) else len)))"
  by auto

termination
  by (relation "measure (\<lambda>(_, s, _, _). length s)") (auto dest!: web_read_line_append)

declare read_headers.simps [simp del]

text \<open>The body has the announced length, filled up with zero bytes when the peer sent less.\<close>

definition read_body :: "nat \<Rightarrow> string \<Rightarrow> string" where
  "read_body len s =
     (if 0 < len \<and> len \<le> MAX_BODY_SIZE then take len s @ replicate (len - length s) (CHR 0x00) else [])"

definition parse_request :: "conn \<Rightarrow> http_request option" where
  "parse_request c =
     (case web_read_line (c_open c) (c_bytes c) of
        None \<Rightarrow> None
      | Some (l, r) \<Rightarrow>
          (if l = [] then None
           else case request_parts (trim l) of
                  None \<Rightarrow> None
                | Some (m, p) \<Rightarrow>
                    map_option (\<lambda>(hs, len, r').
                      \<lparr>hr_method = to_uppercase m, hr_path = p, hr_headers = hs, hr_body = read_body len r'\<rparr>)
                      (read_headers (c_open c) r [] 0)))"

section \<open>Requests to the daemons\<close>

definition proxy_to_service :: "web_env \<Rightarrow> string \<Rightarrow> json \<Rightarrow> json" where
  "proxy_to_service env path req =
     (case wb_connect env path of
        Some e \<Rightarrow> error_json (''connect '' @ path @ '': '' @ e)
      | None \<Rightarrow>
          (let msg = (case wb_print env req of Inl _ \<Rightarrow> [] | Inr t \<Rightarrow> t)
           in if wb_write_fails env path then error_json (''write to '' @ path @ '' failed'')
              else case wb_read env path msg of
                     Inl e \<Rightarrow> error_json (''read: '' @ e)
                   | Inr l \<Rightarrow>
                       (if l = [] then error_json ''empty response''
                        else case wb_parse env (trim l) of
                               Inl _ \<Rightarrow> JObj [(''raw'', JStr (trim l))]
                             | Inr v \<Rightarrow> v)))"

definition method_request :: "string \<Rightarrow> json" where
  "method_request m = JObj [(''method'', JStr m)]"

definition agent_request :: "string \<Rightarrow> string \<Rightarrow> json" where
  "agent_request m a = JObj [(''method'', JStr m), (''agent'', JStr a)]"

text \<open>The base64 encoder, on 32-bit triples.\<close>

definition B64_CHARS :: string where
  "B64_CHARS = ''ABCDEFGHIJKLMNOPQRSTUVWXYZabcdefghijklmnopqrstuvwxyz0123456789+/''"

definition b64_triple :: "char \<Rightarrow> char \<Rightarrow> char \<Rightarrow> u32" where
  "b64_triple a b c = (push_bit 16 (of_nat (byte a)) OR push_bit 8 (of_nat (byte b))) OR of_nat (byte c)"

definition b64_char :: "u32 \<Rightarrow> nat \<Rightarrow> char" where
  "b64_char t n = B64_CHARS ! unat (drop_bit n t AND 0x3F)"

fun base64_encode :: "string \<Rightarrow> string" where
  "base64_encode [] = []"
| "base64_encode [a] =
     (let t = b64_triple a (CHR 0x00) (CHR 0x00) in [b64_char t 18, b64_char t 12, CHR ''='', CHR ''=''])"
| "base64_encode [a, b] =
     (let t = b64_triple a b (CHR 0x00) in [b64_char t 18, b64_char t 12, b64_char t 6, CHR ''=''])"
| "base64_encode (a # b # c # s) =
     (let t = b64_triple a b c in [b64_char t 18, b64_char t 12, b64_char t 6, b64_char t 0] @ base64_encode s)"

definition deploy_request :: "string \<Rightarrow> json" where
  "deploy_request body = JObj [(''method'', JStr ''deploy''), (''bundle_b64'', JStr (base64_encode body))]"

definition inspect_request :: "web_env \<Rightarrow> string \<Rightarrow> json" where
  "inspect_request env body =
     JObj [(''method'', JStr ''inspect''), (''payload'', (case wb_parse env body of Inl _ \<Rightarrow> JObj [] | Inr v \<Rightarrow> v))]"

definition logs_request :: "string \<Rightarrow> json" where
  "logs_request a = JObj [(''method'', JStr ''logs''), (''agent'', JStr a), (''lines'', JNum 50)]"

definition web_handle_registry :: "web_env \<Rightarrow> json" where
  "web_handle_registry env =
     (let fallback = JObj [(''ok'', JBool True), (''registry'', JObj [(''version'', JNum 1), (''agents'', JArr [])])]
      in case wb_registry env of
           None \<Rightarrow> fallback
         | Some t \<Rightarrow>
             (case wb_parse env t of
                Inl _ \<Rightarrow> fallback
              | Inr v \<Rightarrow> JObj [(''ok'', JBool True), (''registry'', v)]))"

definition web_handle_update_check :: "web_env \<Rightarrow> json" where
  "web_handle_update_check env =
     JObj [(''ok'', JBool True), (''current_version'', JStr (wb_version env)), (''latest_version'', JStr (wb_version env)),
       (''update_available'', JBool False),
       (''note'', JStr ''OTA updates require a persistent partition. Use install.sh to reflash for now.'')]"

definition web_handle_update_apply :: "web_env \<Rightarrow> json" where
  "web_handle_update_apply env =
     (if \<not> (wb_exists env ''/overlay/.nullbox-data'' \<or> wb_exists env ''/data/.nullbox-data'') then
        JObj [(''ok'', JBool False), (''error'', JStr
          ''OTA updates require a persistent partition. Create one with: mkfs.ext4 -L nullbox-data /dev/sdX && touch /mnt/.nullbox-data'')]
      else JObj [(''ok'', JBool False), (''error'', JStr
          ''OTA update download not yet implemented. Reflash the ISO for now.'')])"

section \<open>Routes\<close>

definition strip_prefix :: "string \<Rightarrow> string \<Rightarrow> string option" where
  "strip_prefix p s = (if starts_with s p then Some (drop (length p) s) else None)"

definition strip_suffix :: "string \<Rightarrow> string \<Rightarrow> string option" where
  "strip_suffix p s = (if starts_with (rev s) (rev p) then Some (take (length s - length p) s) else None)"

text \<open>What a route does: send a request on to a daemon, answer by itself, or send a text.\<close>

datatype route = To_service string json | Local json | Page nat string string

definition not_found :: route where
  "not_found = Page 404 ''text/plain'' ''Not Found''"

definition parameter_route :: "string \<Rightarrow> string \<Rightarrow> route" where
  "parameter_route m p =
     (case strip_prefix ''/api/watcher/'' p of
        Some rest \<Rightarrow>
          (if m = ''GET'' then
             (case strip_suffix ''/verify'' rest of
                Some a \<Rightarrow> To_service watcher_socket_path (agent_request ''verify'' a)
              | None \<Rightarrow> To_service watcher_socket_path (agent_request ''log'' rest))
           else not_found)
      | None \<Rightarrow>
          (case strip_prefix ''/api/logs/'' p of
             Some a \<Rightarrow> (if m = ''GET'' then To_service cage_socket_path (logs_request a) else not_found)
           | None \<Rightarrow> not_found))"

definition route_of :: "web_env \<Rightarrow> http_request \<Rightarrow> route" where
  "route_of env r =
     (let m = hr_method r; p = hr_path r; get = (m = ''GET''); post = (m = ''POST'')
      in if get \<and> (p = ''/'' \<or> p = ''/index.html'') then Page 200 ''text/html; charset=utf-8'' (wb_dashboard env)
         else if get \<and> p = ''/api/status'' then To_service ''/run/nulld.sock'' (method_request ''status'')
         else if get \<and> p = ''/api/agents'' then To_service cage_socket_path (method_request ''list'')
         else if post \<and> p = ''/api/agents/deploy'' then To_service cage_socket_path (deploy_request (hr_body r))
         else if get \<and> p = ''/api/sentinel/stats'' then To_service sentinel_socket_path (method_request ''stats'')
         else if post \<and> p = ''/api/sentinel/inspect'' then To_service sentinel_socket_path (inspect_request env (hr_body r))
         else if get \<and> p = ''/api/warden/list'' then To_service warden_socket_path (method_request ''list'')
         else if get \<and> p = ''/api/egress/list'' then To_service egress_socket_path (method_request ''list'')
         else if get \<and> p = ''/api/registry'' then Local (web_handle_registry env)
         else if post \<and> p = ''/api/update/check'' then Local (web_handle_update_check env)
         else if post \<and> p = ''/api/update/apply'' then Local (web_handle_update_apply env)
         else parameter_route m p)"

definition status_text :: "nat \<Rightarrow> string" where
  "status_text st =
     (if st = 200 then ''OK'' else if st = 400 then ''Bad Request'' else if st = 404 then ''Not Found''
      else if st = 500 then ''Internal Server Error'' else ''Unknown'')"

definition crlf :: string where
  "crlf = [CHR 13, CHR 10]"

definition http_response :: "nat \<Rightarrow> string \<Rightarrow> string \<Rightarrow> string" where
  "http_response st ctype body =
     ''HTTP/1.1 '' @ show_nat st @ '' '' @ status_text st @ crlf @ ''Content-Type: '' @ ctype @ crlf @
     ''Content-Length: '' @ show_nat (length body) @ crlf @ ''Connection: close'' @ crlf @
     ''Access-Control-Allow-Origin: *'' @ crlf @ crlf @ body"

definition json_response :: "web_env \<Rightarrow> json \<Rightarrow> string" where
  "json_response env v = http_response 200 ''application/json'' (case wb_print env v of Inl _ \<Rightarrow> [] | Inr t \<Rightarrow> t)"

text \<open>The bytes that are written to the peer.\<close>

definition web_handle_connection :: "web_env \<Rightarrow> conn \<Rightarrow> string" where
  "web_handle_connection env c =
     (case parse_request c of
        None \<Rightarrow> http_response 400 ''text/plain'' ''Bad Request''
      | Some r \<Rightarrow>
          (case route_of env r of
             To_service path req \<Rightarrow> json_response env (proxy_to_service env path req)
           | Local v \<Rightarrow> json_response env v
           | Page st ctype body \<Rightarrow> http_response st ctype body))"

text \<open>
  \<open>main\<close>: the exit code when the listener cannot be bound, and otherwise what every accepted connection
  is sent; a failed \<open>accept\<close> is only logged. Each connection sees the daemons as they are at its time.
\<close>

definition nullweb_main :: "io_error option \<Rightarrow> (io_error + web_env \<times> conn) list \<Rightarrow> nat + string list" where
  "nullweb_main bind incoming =
     (case bind of
        Some _ \<Rightarrow> Inl 1
      | None \<Rightarrow> Inr (List.map_filter (\<lambda>a. case a of Inl _ \<Rightarrow> None | Inr (env, c) \<Rightarrow> Some (web_handle_connection env c)) incoming))"

section \<open>Base64\<close>

lemma byte_less256: "byte c < 256"
  unfolding byte_def by (metis of_char_of nat_of_char_less_256)

lemma high_bits: "(x :: nat) < 256 \<Longrightarrow> 8 \<le> n \<Longrightarrow> \<not> bit x n"
proof -
  assume "x < 256" "8 \<le> n"
  then have "x < 2 ^ n" using power_increasing [of 8 n "2::nat"] by simp
  then show "\<not> bit x n" by (simp add: bit_iff_odd)
qed

lemma unat_triple: "unat (b64_triple a b c) = byte a * 65536 + byte b * 256 + byte c"
proof -
  let ?a = "push_bit 16 (of_nat (byte a)) :: u32" and ?b = "push_bit 8 (of_nat (byte b)) :: u32" and ?c = "of_nat (byte c) :: u32"
  have l: "byte a < 256" "byte b < 256" "byte c < 256" by (simp_all add: byte_less256)
  have "?a AND ?b = 0" "(?a + ?b) AND ?c = 0" if "?a + ?b = ?a OR ?b" 
    unfolding that by (rule bit_eqI, use high_bits [OF l(2)] high_bits [OF l(3)] in \<open>auto simp: bit_simps\<close>)+
  moreover have ab: "?a + ?b = ?a OR ?b"
    by (rule disjunctive_add_eq_or, rule bit_eqI) (use high_bits [OF l(2)] in \<open>auto simp: bit_simps\<close>)
  ultimately have "b64_triple a b c = ?a + ?b + ?c"
    unfolding b64_triple_def by (simp add: disjunctive_add_eq_or)
  also have "\<dots> = of_nat (byte a * 65536 + byte b * 256 + byte c)"
    by (simp add: push_bit_eq_mult)
  finally have t: "b64_triple a b c = of_nat (byte a * 65536 + byte b * 256 + byte c)" .
  have "byte a * 65536 + byte b * 256 + byte c < 2 ^ LENGTH(32)" using l by simp
  then show ?thesis unfolding t by (rule unat_of_nat_small)
qed

lemma b64_char_value: "b64_char t n = B64_CHARS ! (unat t div 2 ^ n mod 64)"
proof -
  have small: "unat t < 2 ^ LENGTH(32)" by (rule unsigned_less)
  have "drop_bit n t AND 0x3F = take_bit 6 (drop_bit n t)" by (simp add: take_bit_eq_mask mask_eq_exp_minus_1)
  then have "unat (drop_bit n t AND 0x3F) = take_bit 6 (drop_bit n (unat t))"
    using small by (simp only: unsigned_take_bit_eq unsigned_drop_bit_eq) (simp add: take_bit_nat_eq_self)
  then show ?thesis by (simp add: b64_char_def take_bit_eq_mod drop_bit_eq_div)
qed

text \<open>The decoder of the standard, as a reference: four characters give three bytes, padding at the end.\<close>

definition b64_index :: "char \<Rightarrow> nat option" where
  "b64_index = map_of (zip B64_CHARS [0..<64])"

definition b64_bytes :: "nat \<Rightarrow> string" where
  "b64_bytes t = [char_of (t div 65536), char_of (t div 256 mod 256), char_of (t mod 256)]"

fun base64_decode :: "string \<Rightarrow> string option" where
  "base64_decode [] = Some []"
| "base64_decode (a # b # c # d # s) =
     (case (b64_index a, b64_index b, b64_index c, b64_index d) of
        (Some p, Some q, Some r, Some u) \<Rightarrow>
          map_option ((@) (b64_bytes (((p * 64 + q) * 64 + r) * 64 + u))) (base64_decode s)
      | (Some p, Some q, Some r, None) \<Rightarrow>
          (if d = CHR ''='' \<and> s = [] then Some (take 2 (b64_bytes (((p * 64 + q) * 64 + r) * 64))) else None)
      | (Some p, Some q, None, None) \<Rightarrow>
          (if c = CHR ''='' \<and> d = CHR ''='' \<and> s = [] then Some (take 1 (b64_bytes ((p * 64 + q) * 4096))) else None)
      | _ \<Rightarrow> None)"
| "base64_decode _ = None"

lemma B64_distinct: "distinct B64_CHARS" and B64_length: "length B64_CHARS = 64"
  and B64_pad: "CHR ''='' \<notin> set B64_CHARS"
  by (simp_all add: B64_CHARS_def)

lemma b64_index_char: "b64_index (b64_char t n) = Some (unat t div 2 ^ n mod 64)"
proof -
  let ?i = "unat t div 2 ^ n mod 64"
  have "map_of (zip B64_CHARS [0..<64]) (B64_CHARS ! ?i) = Some ([0..<64] ! ?i)"
    using B64_distinct B64_length by (intro map_of_zip_nth) simp_all
  then show ?thesis by (simp add: b64_index_def b64_char_value)
qed

lemma b64_index_pad: "b64_index (CHR ''='') = None"
proof (cases "b64_index (CHR ''='')")
  case (Some i)
  then have "CHR ''='' \<in> set B64_CHARS" unfolding b64_index_def by (meson map_of_SomeD set_zip_leftD)
  with B64_pad show ?thesis by simp
qed

lemma four_sextets:
  assumes "(T :: nat) < 2 ^ 24"
  shows "((T div 2 ^ 18 mod 64 * 64 + T div 2 ^ 12 mod 64) * 64 + T div 2 ^ 6 mod 64) * 64 + T div 2 ^ 0 mod 64 = T"
proof -
  have "T div 2 ^ 18 < 64" using assms by (intro less_mult_imp_div_less) simp
  moreover have "T div 2 ^ 18 = T div 64 div 64 div 64" "T div 2 ^ 12 = T div 64 div 64" "T div 2 ^ 6 = T div 64"
    by (simp_all add: div_mult2_eq [symmetric])
  ultimately show ?thesis by (simp only: mod_less div_mult_mod_eq power_0 div_by_1)
qed

lemma bytes_of_triple:
  "b64_bytes (byte a * 65536 + byte b * 256 + byte c) = [a, b, c]"
proof -
  have l: "byte a < 256" "byte b < 256" "byte c < 256" by (simp_all add: byte_less256)
  let ?T = "byte a * 65536 + byte b * 256 + byte c"
  have "?T div 65536 = byte a" using l by (intro div_nat_eqI) simp_all
  moreover have "?T div 256 = byte a * 256 + byte b" using l by (intro div_nat_eqI) simp_all
  moreover have "?T = byte c + (byte a * 256 + byte b) * 256" by simp
  then have "?T mod 256 = byte c" using l(3) by (simp only: mod_mult_self1 mod_less)
  ultimately show ?thesis using l by (simp add: b64_bytes_def byte_def)
qed

lemma triple_sextets:
  "(((unat (b64_triple a b c) div 2 ^ 18 mod 64 * 64 + unat (b64_triple a b c) div 2 ^ 12 mod 64) * 64 +
     unat (b64_triple a b c) div 2 ^ 6 mod 64) * 64 + unat (b64_triple a b c) div 2 ^ 0 mod 64) =
     byte a * 65536 + byte b * 256 + byte c"
proof -
  have "unat (b64_triple a b c) < 2 ^ 24"
    using byte_less256 [of a] byte_less256 [of b] byte_less256 [of c] by (simp add: unat_triple)
  from four_sextets [OF this] show ?thesis by (simp only: unat_triple)
qed


section \<open>Requests in ASCII\<close>

lemma to_uppercase_ascii:
  assumes "byte c < 128"
  shows "to_uppercase (c # s) = ascii_upper c # to_uppercase s"
proof -
  have "\<not> starts_with (c # s) (char_of n # w)" if "128 \<le> n" "(n :: nat) < 256" for n w
    using assms byte_char_of [OF that(2)] that(1) by (auto simp: starts_with_def)
  then have "find (\<lambda>(p, _). starts_with (c # s) p) special_upper = None"
    by (simp add: find_None_iff special_upper_def)
  then show ?thesis by simp
qed

section \<open>What the cage makes of the requests\<close>

text \<open>
  The deploy request names its bundle differently than the cage does, so every deployment over the web is
  answered with an error and changes nothing; and the cage knows no request for logs.
\<close>

lemma web_deploy_refused:
  assumes "co_parse os l = Inr (deploy_request body)"
  shows "handle_command os l st = (st, Some (error_json ''missing 'bundle' field''), True)"
  using assms
  by (simp add: handle_command_def deploy_request_def str_or_def handle_deploy_def)

lemma web_logs_unknown:
  assumes "co_parse os l = Inr (logs_request a)"
  shows "handle_command os l st = (st, Some (error_json ''unknown method: logs''), True)"
  using assms by (simp add: handle_command_def logs_request_def str_or_def)

text \<open>Only a GET or POST reaches a daemon.\<close>

lemma routes_need_method: "route_of env r = To_service p q \<Longrightarrow> hr_method r = ''GET'' \<or> hr_method r = ''POST''"
  by (auto simp: route_of_def parameter_route_def not_found_def Let_def split: if_splits option.splits)

text \<open>A body that the peer did not send completely is passed on, filled up with zero bytes.\<close>

lemma short_body_padded:
  "length s < len \<Longrightarrow> len \<le> MAX_BODY_SIZE \<Longrightarrow> read_body len s = s @ replicate (len - length s) (CHR 0x00)"
  by (simp add: read_body_def)

end
