(* ===== verification/Cli.thy ===== *)
theory Cli
  imports Web Control Warden Egress
begin

text \<open>
  Model of \<open>cmd/nullctl/src/main.rs\<close>, the command line client: which request each command sends, what
  it prints, and how it ends. Sockets, files and the JSON parser and printer are parameters. The lemmas
  connect the requests with the daemons that answer them.
\<close>

section \<open>A run of the client\<close>

text \<open>What a run does, in order: a request that is handed to \<open>send_to_socket\<close>, and lines of output.\<close>

datatype cli_event = Sent string json | Out string | Err_line string

text \<open>How a command ends: with \<open>Ok\<close>, with an error that \<open>main\<close> prints, or by \<open>process::exit\<close>.\<close>

datatype cli_end = Ended_ok | Ended_err string | Process_exit nat

type_synonym cli_result = "cli_event list \<times> cli_end"

text \<open>
  \<open>cl_answer path msg\<close> is the first line that comes back, if there is one, or the error of reading it;
  \<open>cl_file\<close> and \<open>cl_text\<close> read a file as bytes and as text.
\<close>

record cli_env =
  cl_connect :: "string \<Rightarrow> io_error option"
  cl_write :: "string \<Rightarrow> io_error option"
  cl_shutdown :: "string \<Rightarrow> io_error option"
  cl_answer :: "string \<Rightarrow> string \<Rightarrow> (io_error + string) option"
  cl_print :: "json \<Rightarrow> string + string"
  cl_parse :: "string \<Rightarrow> string + json"
  cl_file :: "string \<Rightarrow> io_error + string"
  cl_text :: "string \<Rightarrow> io_error + string"
  cl_base64 :: "string \<Rightarrow> string"

definition nulld_socket_path :: string where "nulld_socket_path = ''/run/nulld.sock''"

fun as_u64 :: "json \<Rightarrow> nat option" where
  "as_u64 (JNum n) = (if 0 \<le> n \<and> n < 2 ^ 64 then Some (nat n) else None)"
| "as_u64 _ = None"

definition u64_or :: "nat \<Rightarrow> json \<Rightarrow> string \<Rightarrow> nat" where
  "u64_or d v k = (case Option.bind (get v k) as_u64 of None \<Rightarrow> d | Some n \<Rightarrow> n)"

definition array_field :: "json \<Rightarrow> string \<Rightarrow> json list option" where
  "array_field v k = Option.bind (get v k) as_array"

definition is_true :: "json \<Rightarrow> string \<Rightarrow> bool" where
  "is_true v k \<longleftrightarrow> Option.bind (get v k) as_bool = Some True"

text \<open>\<open>{:<n}\<close> counts characters, not bytes.\<close>

definition pad :: "nat \<Rightarrow> string \<Rightarrow> string" where
  "pad n s = s @ replicate (n - length (filter (\<lambda>c. \<not> cont c) s)) (CHR '' '')"

definition send_to_socket :: "cli_env \<Rightarrow> string \<Rightarrow> json \<Rightarrow> string + string" where
  "send_to_socket env path req =
     (case cl_connect env path of
        Some e \<Rightarrow> Inl (''cannot connect to '' @ path @ '': '' @ e)
      | None \<Rightarrow>
          (case cl_print env req of
             Inl e \<Rightarrow> Inl e
           | Inr msg \<Rightarrow>
               (case cl_write env path of
                  Some e \<Rightarrow> Inl e
                | None \<Rightarrow>
                    (case cl_shutdown env path of
                       Some e \<Rightarrow> Inl e
                     | None \<Rightarrow>
                         (case cl_answer env path msg of
                            None \<Rightarrow> Inl (''no response from '' @ path)
                          | Some (Inl e) \<Rightarrow> Inl e
                          | Some (Inr l) \<Rightarrow> Inr l)))))"

text \<open>Send a request, parse the answer and go on with it.\<close>

definition ask :: "cli_env \<Rightarrow> string \<Rightarrow> json \<Rightarrow> (json \<Rightarrow> cli_result) \<Rightarrow> cli_result" where
  "ask env path req k =
     (case res_bind (send_to_socket env path req) (cl_parse env) of
        Inl e \<Rightarrow> ([Sent path req], Ended_err e)
      | Inr v \<Rightarrow> (let (es, r) = k v in (Sent path req # es, r)))"

text \<open>The error of an answer: printed, and the end of the process where the code says so.\<close>

definition answer_error :: "string \<Rightarrow> cli_end \<Rightarrow> json \<Rightarrow> cli_result" where
  "answer_error who r v =
     (case str_field v ''error'' of Some e \<Rightarrow> ([Err_line (who @ '': '' @ e)], r) | None \<Rightarrow> ([], Ended_ok))"

section \<open>Commands\<close>

definition status_line :: "json \<Rightarrow> string" where
  "status_line svc =
     pad 15 (str_or ''?'' svc ''name'') @ '' '' @ pad 12 (str_or ''?'' svc ''state'') @ '' '' @
     pad 8 (case Option.bind (get svc ''pid'') as_u64 of None \<Rightarrow> ''-'' | Some p \<Rightarrow> show_nat p) @ '' '' @
     show_nat (u64_or 0 svc ''restart_count'')"

definition cli_status :: "cli_env \<Rightarrow> cli_result" where
  "cli_status env =
     ask env nulld_socket_path (method_request ''status'') (\<lambda>v.
       case array_field v ''services'' of
         Some svcs \<Rightarrow>
           (Out (pad 15 ''SERVICE'' @ '' '' @ pad 12 ''STATE'' @ '' '' @ pad 8 ''PID'' @ '' RESTARTS'') #
              map (Out \<circ> status_line) svcs, Ended_ok)
       | None \<Rightarrow> answer_error ''nulld'' Ended_ok v)"

definition cli_shutdown :: "cli_env \<Rightarrow> cli_result" where
  "cli_shutdown env =
     ask env nulld_socket_path (method_request ''shutdown'') (\<lambda>v.
       if is_true v ''ok'' then ([Out ''nulld: shutdown initiated''], Ended_ok) else answer_error ''nulld'' Ended_ok v)"

definition usage_lines :: "string \<Rightarrow> string list \<Rightarrow> cli_result" where
  "usage_lines who ls =
     (map Err_line ([''nullctl '' @ who @ '': missing subcommand'', [], ''usage:''] @ ls), Process_exit 1)"

definition unknown_subcommand :: "string \<Rightarrow> string \<Rightarrow> cli_result" where
  "unknown_subcommand who c = ([Err_line (''nullctl '' @ who @ '': unknown subcommand '' @ quote c)], Process_exit 1)"

definition vm_line :: "json \<Rightarrow> string" where
  "vm_line vm =
     pad 20 (str_or ''?'' vm ''name'') @ '' '' @ pad 10 (show_nat (u64_or 0 vm ''pid'')) @ '' '' @
     pad 8 (show_nat (u64_or 0 vm ''vcpus'')) @ '' '' @ show_nat (u64_or 0 vm ''ram_mib'')"

definition done_answer :: "string \<Rightarrow> string \<Rightarrow> json \<Rightarrow> cli_result" where
  "done_answer who what v =
     (if is_true v ''ok'' then ([Out (who @ '': '' @ what)], Ended_ok) else answer_error who (Process_exit 1) v)"

definition cage_list_answer :: "json \<Rightarrow> cli_result" where
  "cage_list_answer v =
     (case array_field v ''agents'' of
        Some [] \<Rightarrow> ([Out ''no running agents''], Ended_ok)
      | Some vms \<Rightarrow>
          (Out (pad 20 ''AGENT'' @ '' '' @ pad 10 ''PID'' @ '' '' @ pad 8 ''VCPUS'' @ '' RAM_MIB'') #
             map (Out \<circ> vm_line) vms, Ended_ok)
      | None \<Rightarrow> answer_error ''cage'' Ended_ok v)"

definition cli_cage :: "cli_env \<Rightarrow> string list \<Rightarrow> cli_result" where
  "cli_cage env argv =
     (case argv of
        [] \<Rightarrow> usage_lines ''cage''
          [''  nullctl cage list                List running agent VMs'',
           ''  nullctl cage start <agent>       Start an agent microVM'',
           ''  nullctl cage stop <agent>        Stop an agent microVM'']
      | c # as \<Rightarrow>
          (if c = ''list'' then
             ask env cage_socket_path (method_request ''list'') cage_list_answer
           else if c = ''start'' then
             (case as of
                [] \<Rightarrow> ([], Ended_err ''usage: nullctl cage start <agent>'')
              | n # _ \<Rightarrow>
                  ask env cage_socket_path (agent_request ''start'' n) (\<lambda>v.
                    done_answer ''cage'' (''started '' @ quote n @ '' (PID '' @ show_nat (u64_or 0 v ''pid'') @ '')'') v))
           else if c = ''stop'' then
             (case as of
                [] \<Rightarrow> ([], Ended_err ''usage: nullctl cage stop <agent>'')
              | n # _ \<Rightarrow>
                  ask env cage_socket_path (agent_request ''stop'' n) (done_answer ''cage'' (''stopped '' @ quote n)))
           else unknown_subcommand ''cage'' c))"

definition set_request :: "string \<Rightarrow> string \<Rightarrow> json" where
  "set_request k v = JObj [(''method'', JStr ''set''), (''key'', JStr k), (''value'', JStr v)]"

definition delete_request :: "string \<Rightarrow> json" where
  "delete_request k = JObj [(''method'', JStr ''delete''), (''key'', JStr k)]"

definition vault_list_answer :: "json \<Rightarrow> cli_result" where
  "vault_list_answer v =
     (case array_field v ''keys'' of
        Some [] \<Rightarrow> ([Out ''no secrets stored''], Ended_ok)
      | Some ks \<Rightarrow>
          (Out (pad 30 ''KEY'' @ '' STATUS'') # map (\<lambda>k. Out (pad 30 k @ '' set'')) (List.map_filter as_str ks), Ended_ok)
      | None \<Rightarrow> answer_error ''warden'' (Process_exit 1) v)"

definition cli_vault :: "cli_env \<Rightarrow> string list \<Rightarrow> cli_result" where
  "cli_vault env argv =
     (case argv of
        [] \<Rightarrow> usage_lines ''vault''
          [''  nullctl vault list                  List stored secret keys'',
           ''  nullctl vault set <KEY> <VALUE>      Set a secret'',
           ''  nullctl vault delete <KEY>            Delete a secret'']
      | c # as \<Rightarrow>
          (if c = ''list'' then
             ask env warden_socket_path (method_request ''list'') vault_list_answer
           else if c = ''set'' then
             (case as of
                k # x # _ \<Rightarrow>
                  ask env warden_socket_path (set_request k x) (done_answer ''warden'' (''secret '' @ quote k @ '' set''))
              | _ \<Rightarrow> ([], Ended_err ''usage: nullctl vault set <KEY> <VALUE>''))
           else if c = ''delete'' then
             (case as of
                [] \<Rightarrow> ([], Ended_err ''usage: nullctl vault delete <KEY>'')
              | k # _ \<Rightarrow>
                  ask env warden_socket_path (delete_request k) (done_answer ''warden'' (''secret '' @ quote k @ '' deleted'')))
           else unknown_subcommand ''vault'' c))"

definition bundle_request :: "string \<Rightarrow> json" where
  "bundle_request b64 = JObj [(''method'', JStr ''deploy''), (''bundle'', JStr b64)]"

definition cli_deploy :: "cli_env \<Rightarrow> string list \<Rightarrow> cli_result" where
  "cli_deploy env argv =
     (case argv of
        [] \<Rightarrow> ([], Ended_err ''usage: nullctl deploy <bundle.tar.gz>'')
      | p # _ \<Rightarrow>
          (case cl_file env p of
             Inl e \<Rightarrow> ([], Ended_err (''cannot read bundle '' @ quote p @ '': '' @ e))
           | Inr data \<Rightarrow>
               ask env cage_socket_path (bundle_request (cl_base64 env data)) (\<lambda>v.
                 done_answer ''cage'' (''deployed and started agent '' @ quote (str_or ''?'' v ''agent'')) v)))"

text \<open>Commands that print the answer as it is.\<close>

definition show_answer :: "cli_env \<Rightarrow> string \<Rightarrow> json \<Rightarrow> cli_result" where
  "show_answer env path req =
     (case send_to_socket env path req of
        Inl e \<Rightarrow> ([Sent path req], Ended_err e)
      | Inr l \<Rightarrow> ([Sent path req, Out l], Ended_ok))"

definition cli_sentinel :: "cli_env \<Rightarrow> string list \<Rightarrow> cli_result" where
  "cli_sentinel env argv =
     (case argv of
        [] \<Rightarrow> usage_lines ''sentinel'' [''  nullctl sentinel stats            Show sentinel statistics'']
      | c # _ \<Rightarrow>
          (if c = ''stats'' then show_answer env sentinel_socket_path (method_request ''stats'')
           else unknown_subcommand ''sentinel'' c))"

definition cli_egress :: "cli_env \<Rightarrow> string list \<Rightarrow> cli_result" where
  "cli_egress env argv =
     (case argv of
        [] \<Rightarrow> usage_lines ''egress'' [''  nullctl egress list               List active firewall rules'']
      | c # _ \<Rightarrow>
          (if c = ''list'' then show_answer env egress_socket_path (method_request ''list'')
           else unknown_subcommand ''egress'' c))"

definition audit_line :: "json \<Rightarrow> string" where
  "audit_line e =
     ''['' @ str_or ''?'' e ''timestamp'' @ ''] '' @ str_or ''?'' e ''action'' @ '' '' @ str_or ''?'' e ''outcome'' @ '' '' @
     str_or [] e ''detail''"

definition verify_answer :: "string \<Rightarrow> json \<Rightarrow> cli_result" where
  "verify_answer a v =
     (if is_true v ''valid'' then ([Out (''watcher: audit chain for '' @ quote a @ '' is valid'')], Ended_ok)
      else case str_field v ''error'' of
             Some e \<Rightarrow> ([Err_line (''watcher: '' @ e)], Process_exit 1)
           | None \<Rightarrow>
               (Err_line (''watcher: audit chain for '' @ quote a @ '' is INVALID'') #
                  (case str_field v ''detail'' of Some d \<Rightarrow> [Err_line (''  detail: '' @ d)] | None \<Rightarrow> []),
                Process_exit 1))"

definition query_answer :: "string \<Rightarrow> json \<Rightarrow> cli_result" where
  "query_answer a v =
     (case array_field v ''entries'' of
        Some [] \<Rightarrow> ([Out (''no audit entries for '' @ quote a)], Ended_ok)
      | Some es \<Rightarrow> (map (Out \<circ> audit_line) es, Ended_ok)
      | None \<Rightarrow> answer_error ''watcher'' (Process_exit 1) v)"

definition cli_watcher :: "cli_env \<Rightarrow> string list \<Rightarrow> cli_result" where
  "cli_watcher env argv =
     (case argv of
        [] \<Rightarrow> usage_lines ''watcher''
          [''  nullctl watcher verify <agent>    Verify agent audit chain'',
           ''  nullctl watcher query <agent>     Query recent audit entries'']
      | c # as \<Rightarrow>
          (if c = ''verify'' then
             (case as of
                [] \<Rightarrow> ([], Ended_err ''usage: nullctl watcher verify <agent>'')
              | a # _ \<Rightarrow>
                  ask env watcher_socket_path (agent_request ''verify'' a) (verify_answer a))
           else if c = ''query'' then
             (case as of
                [] \<Rightarrow> ([], Ended_err ''usage: nullctl watcher query <agent>'')
              | a # _ \<Rightarrow>
                  ask env watcher_socket_path (agent_request ''query'' a) (query_answer a))
           else unknown_subcommand ''watcher'' c))"

text \<open>The last fifty lines of the console log.\<close>

definition cli_logs :: "cli_env \<Rightarrow> string list \<Rightarrow> cli_result" where
  "cli_logs env argv =
     (case argv of
        [] \<Rightarrow> ([], Ended_err ''usage: nullctl logs <agent>'')
      | a # _ \<Rightarrow>
          (let p = ''/var/log/cage/'' @ a @ ''.log''
           in case cl_text env p of
                Inl e \<Rightarrow> ([], Ended_err (''cannot read '' @ p @ '': '' @ e))
              | Inr t \<Rightarrow> (let ls = lines_of t in (map Out (drop (length ls - 50) ls), Ended_ok))))"

definition print_usage :: "cli_event list" where
  "print_usage = map Err_line
     [''nullctl '' @ em_dash @ '' NullBox CLI'', [], ''usage:'',
      ''  nullctl status                    Show service status'',
      ''  nullctl shutdown                  Initiate clean shutdown'',
      ''  nullctl cage list                 List running agent VMs'',
      ''  nullctl cage start <agent>        Start an agent microVM'',
      ''  nullctl cage stop <agent>         Stop an agent microVM'',
      ''  nullctl deploy <bundle.tar.gz>    Deploy agent bundle to cage'',
      ''  nullctl sentinel stats            Show sentinel statistics'',
      ''  nullctl watcher verify <agent>    Verify agent audit chain'',
      ''  nullctl watcher query <agent>     Query recent audit entries'',
      ''  nullctl egress list               List active firewall rules'',
      ''  nullctl logs <agent>              Tail agent console log'',
      ''  nullctl vault list                List stored secret keys'',
      ''  nullctl vault set <KEY> <VALUE>   Set a secret'',
      ''  nullctl vault delete <KEY>        Delete a secret'']"

definition cli_command :: "cli_env \<Rightarrow> string \<Rightarrow> string list \<Rightarrow> cli_result" where
  "cli_command env c rest =
     (if c = ''status'' then cli_status env
      else if c = ''shutdown'' then cli_shutdown env
      else if c = ''cage'' then cli_cage env rest
      else if c = ''vault'' then cli_vault env rest
      else if c = ''deploy'' then cli_deploy env rest
      else if c = ''sentinel'' then cli_sentinel env rest
      else if c = ''watcher'' then cli_watcher env rest
      else if c = ''egress'' then cli_egress env rest
      else if c = ''logs'' then cli_logs env rest
      else if c \<in> {''help'', ''--help'', ''-h''} then (print_usage, Ended_ok)
      else (Err_line (''nullctl: unknown command '' @ quote c) # print_usage, Process_exit 1))"

text \<open>\<open>main\<close>: what happened and the exit code.\<close>

definition cli_main :: "cli_env \<Rightarrow> string list \<Rightarrow> cli_event list \<times> nat" where
  "cli_main env argv =
     (case argv of
        [] \<Rightarrow> (print_usage, 1)
      | c # rest \<Rightarrow>
          (case cli_command env c rest of
             (es, Ended_ok) \<Rightarrow> (es, 0)
           | (es, Ended_err e) \<Rightarrow> (es @ [Err_line (''nullctl: error: '' @ e)], 1)
           | (es, Process_exit code) \<Rightarrow> (es, code)))"

section \<open>Lemmas\<close>

text \<open>Every run sends at most one request, before it prints anything.\<close>

definition one_request :: "cli_event list \<Rightarrow> bool" where
  "one_request es \<longleftrightarrow> list_all (\<lambda>e. \<forall>p q. e \<noteq> Sent p q) (case es of Sent _ _ # r \<Rightarrow> r | _ \<Rightarrow> es)"

definition silent :: "cli_event list \<Rightarrow> bool" where
  "silent es \<longleftrightarrow> list_all (\<lambda>e. \<forall>p q. e \<noteq> Sent p q) es"

lemma silent_simps [simp]:
  "silent []" "silent (Out s # es) = silent es" "silent (Err_line s # es) = silent es" "\<not> silent (Sent p q # es)"
  "silent (es @ fs) \<longleftrightarrow> silent es \<and> silent fs" "silent (map Err_line ss)" "silent (map Out ss)"
  "silent (map (Out \<circ> f) vs)" "silent (map (\<lambda>v. Out (g v)) us)"
  by (auto simp: silent_def list_all_iff)

lemma silent_one: "silent es \<Longrightarrow> one_request es"
  by (auto simp: silent_def one_request_def split: list.split cli_event.split)

lemma ask_one: "(\<And>v. silent (fst (k v))) \<Longrightarrow> one_request (fst (ask env p q k))"
  by (auto simp: ask_def one_request_def silent_def Let_def split: sum.split prod.split) (metis fst_conv)

lemma silent_answer [simp]: "silent (fst (answer_error who r v))"
  by (simp add: answer_error_def split: option.split)

lemma silent_fixed [simp]: "silent (fst (usage_lines who ls))" "silent (fst (unknown_subcommand who c))" "silent print_usage"
  by (simp_all add: usage_lines_def unknown_subcommand_def print_usage_def)

lemma show_answer_one: "one_request (fst (show_answer env p q))"
  by (auto simp: show_answer_def one_request_def split: sum.split)

lemma silent_if [simp]: "silent (fst (if b then r else r')) = (if b then silent (fst r) else silent (fst r'))"
  by simp

lemma silent_option [simp]:
  "silent (fst (case x of None \<Rightarrow> r | Some y \<Rightarrow> f y)) = (case x of None \<Rightarrow> silent (fst r) | Some y \<Rightarrow> silent (fst (f y)))"
  by (simp split: option.split)

lemma silent_option_True [simp]: "case_option True (\<lambda>_. True) x"
  by (cases x) simp_all

lemma silent_answers [simp]:
  "silent (fst (done_answer who what v))" "silent (fst (cage_list_answer v))" "silent (fst (vault_list_answer v))"
  "silent (fst (verify_answer a v))" "silent (fst (query_answer a v))"
  by (simp_all add: done_answer_def cage_list_answer_def vault_list_answer_def verify_answer_def query_answer_def
      split: option.split list.split)

lemmas one_intros = ask_one silent_one show_answer_one

lemma cli_simple_one:
  "one_request (fst (cli_status env))" "one_request (fst (cli_shutdown env))"
  "one_request (fst (cli_deploy env argv))" "one_request (fst (cli_logs env argv))"
  by (simp_all add: cli_status_def cli_shutdown_def cli_deploy_def cli_logs_def Let_def one_intros
      split: list.split option.split sum.split)

lemma cli_group_one:
  "one_request (fst (cli_sentinel env argv))" "one_request (fst (cli_egress env argv))"
  "one_request (fst (cli_cage env argv))" "one_request (fst (cli_vault env argv))"
  "one_request (fst (cli_watcher env argv))"
  by (simp_all add: cli_sentinel_def cli_egress_def cli_cage_def cli_vault_def cli_watcher_def one_intros
      split: list.split)

lemma cli_command_one: "one_request (fst (cli_command env c rest))"
  by (simp add: cli_command_def cli_simple_one cli_group_one silent_one)

text \<open>
  The requests of the client are the ones its daemons wait for: shutting down sets nulld's flag, and the
  bundle of a deployment is what the cage decodes.
\<close>

lemma cli_shutdown_reaches_nulld:
  "serde l = Inr (method_request ''shutdown'') \<Longrightarrow> l \<noteq> [] \<Longrightarrow>
     control_step serde err sv l flag = (True, Some ok_response, True)"
  by (simp add: control_step_def deserialize_request_def method_request_def)

lemma cli_deploy_reaches_cage:
  "co_parse os l = Inr (bundle_request b64) \<Longrightarrow>
     handle_command os l st =
       (snd (handle_deploy os (bundle_request b64) st), Some (fst (handle_deploy os (bundle_request b64) st)), True) \<and>
     str_field (bundle_request b64) ''bundle'' = Some b64"
  by (auto simp: handle_command_def str_or_def bundle_request_def Let_def split: prod.split)

text \<open>An answer that is neither \<open>ok\<close> nor an error is taken for a success.\<close>

lemma cli_unclear_answer_succeeds:
  assumes "send_to_socket env cage_socket_path (agent_request ''start'' n) = Inr l" "cl_parse env l = Inr (JObj [])"
  shows "snd (cli_main env [''cage'', ''start'', n]) = 0"
  using assms by (simp add: cli_main_def cli_command_def cli_cage_def ask_def done_answer_def is_true_def answer_error_def)

text \<open>There are no commands to start and stop an agent outside the \<open>cage\<close> group.\<close>

lemma cli_start_unknown: "c = ''start'' \<or> c = ''stop'' \<Longrightarrow> snd (cli_main env (c # as)) = 1"
  by (elim disjE) (simp_all add: cli_main_def cli_command_def)

end
