(* ===== verification/Protocol.thy ===== *)
theory Protocol
  imports Cli Ctxgraph
begin

text \<open>
  The protocol of the sockets: a small type system for JSON values, the type of the answer to every
  method of every daemon, and the proof that the daemons keep to it. The client's decisions rest on
  these types.
\<close>

section \<open>Types of JSON values\<close>

datatype jty =
    TAny
  | TNull
  | TTrue
  | TInt
  | TNat nat
  | TStr
  | TArr jty
  | TMap jty
  | TObj "(string \<times> jty) list"
  | TOr jty jty

text \<open>Numbers have a width in bits; an object may have more members than its type names.\<close>

fun has_ty :: "jty \<Rightarrow> json \<Rightarrow> bool" and has_fields :: "(string \<times> jty) list \<Rightarrow> json \<Rightarrow> bool" where
  "has_ty TAny v = True"
| "has_ty TNull v = (v = JNull)"
| "has_ty TTrue v = (v = JBool True)"
| "has_ty TInt v = (case v of JNum n \<Rightarrow> True | _ \<Rightarrow> False)"
| "has_ty (TNat w) v = (case v of JNum n \<Rightarrow> 0 \<le> n \<and> n < 2 ^ w | _ \<Rightarrow> False)"
| "has_ty TStr v = (as_str v \<noteq> None)"
| "has_ty (TArr t) v = (case v of JArr vs \<Rightarrow> list_all (has_ty t) vs | _ \<Rightarrow> False)"
| "has_ty (TMap t) v = (case v of JObj ms \<Rightarrow> list_all (\<lambda>(_, w). has_ty t w) ms | _ \<Rightarrow> False)"
| "has_ty (TObj fs) v = has_fields fs v"
| "has_ty (TOr t u) v = (has_ty t v \<or> has_ty u v)"
| "has_fields [] v = (as_object v \<noteq> None)"
| "has_fields ((k, t) # fs) v = (case get v k of None \<Rightarrow> False | Some w \<Rightarrow> has_ty t w \<and> has_fields fs v)"

section \<open>The types of the answers\<close>

definition error_ty :: jty where
  "error_ty = TObj [(''error'', TStr)]"

definition done_ty :: "(string \<times> jty) list \<Rightarrow> jty" where
  "done_ty fs = TOr (TObj ((''ok'', TTrue) # fs)) error_ty"

definition entry_fields :: "(string \<times> jty) list" where
  "entry_fields = [(''hash'', TStr), (''agent_id'', TStr), (''key'', TStr), (''value'', TAny), (''timestamp'', TInt)]"

type_synonym method_types = "string \<Rightarrow> jty option"

definition nulld_types :: method_types where
  "nulld_types = map_of
     [(''status'', TObj [(''services'', TArr (TObj [(''name'', TStr), (''state'', TStr),
         (''pid'', TOr TNull (TNat 32)), (''restart_count'', TNat 32)]))]),
      (''shutdown'', TObj [(''ok'', TTrue)])]"

definition cage_types :: method_types where
  "cage_types = map_of
     [(''list'', TObj [(''agents'', TArr (TObj [(''name'', TStr), (''pid'', TNat 32), (''vcpus'', TNat 8), (''ram_mib'', TNat 32)]))]),
      (''start'', done_ty [(''pid'', TNat 32)]), (''stop'', done_ty []), (''deploy'', done_ty [(''agent'', TStr)])]"

definition warden_types :: method_types where
  "warden_types = map_of
     [(''get-secrets'', TObj [(''ok'', TTrue), (''secrets'', TMap TStr)]), (''set'', done_ty []), (''delete'', done_ty []),
      (''list'', TObj [(''keys'', TArr TStr)])]"

definition egress_types :: method_types where
  "egress_types = map_of
     [(''list'', TObj [(''agents'', TArr (TObj [(''agent'', TStr), (''domains'', TArr TStr), (''allowed_ips'', TArr TStr)]))]),
      (''add-agent'', done_ty [(''agent'', TStr), (''allowed_ips'', TInt)]), (''remove-agent'', done_ty [(''agent'', TStr)])]"

definition ctxgraph_types :: method_types where
  "ctxgraph_types = map_of
     [(''write'', done_ty [(''hash'', TStr)]), (''read'', TOr (TObj entry_fields) error_ty),
      (''query'', TOr (TObj [(''entries'', TArr (TObj entry_fields))]) error_ty),
      (''history'', TOr (TObj [(''entries'', TArr (TObj entry_fields))]) error_ty)]"

text \<open>
  The answer to a line: of the type of its method; an error if the daemon has no such method, or if the
  line has none because it does not parse.
\<close>

definition reply_typed :: "method_types \<Rightarrow> string + string \<Rightarrow> json \<Rightarrow> bool" where
  "reply_typed types m r =
     (case m of
        Inl _ \<Rightarrow> has_ty error_ty r
      | Inr x \<Rightarrow> (case types x of None \<Rightarrow> has_ty error_ty r | Some t \<Rightarrow> has_ty t r))"

definition asked_method :: "string + json \<Rightarrow> string + string" where
  "asked_method p = map_sum id (\<lambda>req. str_or [] req ''method'') p"

section \<open>The daemons keep to the types\<close>

lemma error_typed [simp]: "has_ty error_ty (error_json e)"
  by (simp add: error_ty_def error_json_def)

lemma done_typed [simp]: "has_ty (done_ty fs) (error_json e)"
  by (simp add: done_ty_def)

lemma done_ok [simp]:
  "has_fields fs (JObj ((''ok'', JBool True) # ms)) \<Longrightarrow> has_ty (done_ty fs) (JObj ((''ok'', JBool True) # ms))"
  by (simp add: done_ty_def)

lemma strs_typed [simp]: "has_ty (TArr TStr) (strs xs)"
  by (induction xs) (simp_all add: strs_def)

lemma u32_typed [simp]: "uint (w :: u32) < 4294967296"
  using uint_lt2p [of w] by simp

lemma u8_typed [simp]: "uint (w :: u8) < 256"
  using uint_lt2p [of w] by simp

lemma status_typed: "has_ty (TArr (TObj [(''name'', TStr), (''state'', TStr), (''pid'', TOr TNull (TNat 32)),
    (''restart_count'', TNat 32)])) (JArr (map status_json sts))"
  by (induction sts) (auto simp: status_json_def split: option.split)

lemma nulld_typed:
  assumes "control_step serde err sv l flag = (flag', Some r, go_on)"
  shows "reply_typed nulld_types (res_bind (serde l) (deserialize_request err l)) r"
proof (cases "res_bind (serde l) (deserialize_request err l)")
  case (Inl e)
  then show ?thesis using assms by (auto simp: control_step_def reply_typed_def split: if_splits)
next
  case (Inr m)
  then have "r = (if m = ''status'' then status_response (status sv) else if m = ''shutdown'' then ok_response
      else error_json (''unknown method: '' @ m))"
    using assms by (simp add: control_step_def split: if_splits)
  then show ?thesis
    using Inr status_typed [of "status sv"]
    by (simp add: reply_typed_def nulld_types_def status_response_def ok_response_def del: has_ty.simps(7))
qed

lemma start_typed: "has_ty (done_ty [(''pid'', TNat 32)]) (fst (handle_start os n st))"
  by (auto simp: handle_start_def Let_def split: option.split sum.split prod.split)

lemma start_deploy_typed: "get (fst (handle_start os n st)) ''error'' \<noteq> None \<Longrightarrow> has_ty error_ty (fst (handle_start os n st))"
  by (auto simp: handle_start_def Let_def split: option.splits sum.splits prod.splits)

lemma stop_typed: "has_ty (done_ty []) (fst (handle_stop os n st))"
  by (auto simp: handle_stop_def split: sum.split prod.split)

lemma deploy_typed: "has_ty (done_ty [(''agent'', TStr)]) (fst (handle_deploy os req st))"
proof -
  have "has_ty (done_ty [(''agent'', TStr)])
      (if get r ''error'' \<noteq> None then r else JObj [(''ok'', JBool True), (''agent'', JStr n)])"
    if "handle_start os n st' = (r, st1)" for n st' r st1
    using start_deploy_typed [of os n st'] that by (auto simp: done_ty_def)
  then show ?thesis
    by (auto simp: handle_deploy_def Let_def split: option.split sum.split prod.split)
qed

lemma vms_typed: "has_ty (TArr (TObj [(''name'', TStr), (''pid'', TNat 32), (''vcpus'', TNat 8), (''ram_mib'', TNat 32)]))
    (JArr (map vm_json vms))"
  by (induction vms) (auto simp: vm_json_def)

text \<open>The answer of a daemon that looks a method up.\<close>

lemma reply_typed_method:
  "p = Inr req \<Longrightarrow> str_or [] req ''method'' = m \<Longrightarrow>
     reply_typed types (asked_method p) r = (case types m of None \<Rightarrow> has_ty error_ty r | Some t \<Rightarrow> has_ty t r)"
  by (simp add: reply_typed_def asked_method_def)

lemma cage_typed:
  assumes "handle_command os l st = (st', Some r, go_on)"
  shows "reply_typed cage_types (asked_method (co_parse os l)) r"
proof (cases "co_parse os l")
  case (Inr req)
  let ?m = "str_or [] req ''method''"
  have "r = (if ?m = ''start'' then fst (handle_start os (str_or [] req ''agent'') st)
      else if ?m = ''stop'' then fst (handle_stop os (str_or [] req ''agent'') st)
      else if ?m = ''deploy'' then fst (handle_deploy os req st)
      else if ?m = ''list'' then JObj [(''agents'', JArr (map vm_json (list_vms (co_vm os) (cg_mgr st))))]
      else error_json (''unknown method: '' @ ?m))"
    using assms Inr by (auto simp: handle_command_def Let_def split: if_splits prod.splits)
  then show ?thesis
    using start_typed stop_typed deploy_typed vms_typed [of "list_vms (co_vm os) (cg_mgr st)"]
    by (simp add: reply_typed_method [OF Inr refl] cage_types_def del: has_ty.simps(7))
qed (use assms in \<open>simp add: handle_command_def\<close>)

lemma save_typed: "has_ty (done_ty []) (snd (save_answer env v st))"
  by (auto simp: save_answer_def ok_json_def split: sum.split prod.split)

lemma secrets_typed: "has_ty (TMap TStr) (string_map_json m)"
  by (induction m) (auto simp: string_map_json_def)

lemma warden_set_typed: "has_ty (done_ty []) (snd (warden_handle_set env req st))"
  using save_typed by (simp add: warden_handle_set_def missing_key_def split: option.split)

lemma warden_delete_typed: "has_ty (done_ty []) (snd (warden_handle_delete env req st))"
  using save_typed by (simp add: warden_handle_delete_def missing_key_def Let_def split: option.split prod.split)

lemma warden_typed:
  assumes "warden_step env l st = (st', Some r, go_on)"
  shows "reply_typed warden_types (asked_method (ve_parse env l)) r"
proof (cases "ve_parse env l")
  case (Inr req)
  let ?m = "str_or [] req ''method''"
  have "r = (if ?m = ''get-secrets'' then handle_get_secrets env req st
      else if ?m = ''set'' then snd (warden_handle_set env req st)
      else if ?m = ''delete'' then snd (warden_handle_delete env req st)
      else if ?m = ''list'' then warden_handle_list env st
      else error_json (''unknown method: '' @ ?m))"
    using assms Inr by (auto simp: warden_step_def Let_def split: if_splits prod.splits)
  then show ?thesis
    using warden_set_typed warden_delete_typed secrets_typed strs_typed
    by (simp add: reply_typed_method [OF Inr refl] warden_types_def handle_get_secrets_def warden_handle_list_def
        del: has_ty.simps(7,8))
qed (use assms in \<open>auto simp: warden_step_def reply_typed_def asked_method_def\<close>)

lemma egress_list_typed:
  "has_ty (TArr (TObj [(''agent'', TStr), (''domains'', TArr TStr), (''allowed_ips'', TArr TStr)]))
     (JArr (map (\<lambda>(n, e). JObj [(''agent'', JStr n), (''domains'', strs (ae_domains e)),
       (''allowed_ips'', strs (map show_ip (ae_ips e)))]) xs))"
  using strs_typed by (induction xs) (auto simp del: has_ty.simps(7) simp: has_ty.simps(7) [of "TObj fs" for fs])

lemma egress_add_typed: "has_ty (done_ty [(''agent'', TStr), (''allowed_ips'', TInt)]) (snd (handle_add_agent env req st))"
  by (auto simp: handle_add_agent_def missing_agent_def Let_def split: option.split sum.split prod.split)

lemma egress_remove_typed: "has_ty (done_ty [(''agent'', TStr)]) (snd (handle_remove_agent env req st))"
  by (auto simp: handle_remove_agent_def missing_agent_def Let_def split: option.split sum.split prod.split)

lemma egress_typed:
  assumes "egress_step env l st = (st', Some r, go_on)"
  shows "reply_typed egress_types (asked_method (ev_parse env l)) r"
proof (cases "ev_parse env l")
  case (Inr req)
  let ?m = "str_or [] req ''method''"
  have "r = (if ?m = ''add-agent'' then snd (handle_add_agent env req st)
      else if ?m = ''remove-agent'' then snd (handle_remove_agent env req st)
      else if ?m = ''list'' then handle_list env st
      else error_json (''unknown method: '' @ ?m))"
    using assms Inr by (auto simp: egress_step_def Let_def split: if_splits prod.splits)
  then show ?thesis
    using egress_add_typed egress_remove_typed egress_list_typed [of "ev_it env (eg_agents st)"]
    by (simp add: reply_typed_method [OF Inr refl] egress_types_def handle_list_def del: has_ty.simps(7))
qed (use assms in \<open>auto simp: egress_step_def reply_typed_def asked_method_def\<close>)

lemma entry_typed: "has_fields entry_fields (entry_to_json e)"
  by (simp add: entry_to_json_def entry_fields_def)

lemma entries_typed: "has_ty (TOr (TObj [(''entries'', TArr (TObj entry_fields))]) error_ty) (entries_json r)"
  using entry_typed by (auto simp: entries_json_def list_all_iff split: sum.split)

lemma write_typed: "has_ty (done_ty [(''hash'', TStr)]) (snd (ctx_handle_write env req s))"
  by (auto simp: ctx_handle_write_def Let_def split: sum.split prod.split)

lemma read_typed: "has_ty (TOr (TObj entry_fields) error_ty) (snd (ctx_handle_read env req s))"
  using entry_typed by (auto simp: ctx_handle_read_def Let_def split: sum.split option.split prod.split)

lemma query_typed: "has_ty (TOr (TObj [(''entries'', TArr (TObj entry_fields))]) error_ty) (snd (handle_query env req s))"
  using entries_typed by (simp add: handle_query_def Let_def split: prod.split del: has_ty.simps)

lemma history_typed: "has_ty (TOr (TObj [(''entries'', TArr (TObj entry_fields))]) error_ty) (snd (handle_history env req s))"
  using entries_typed by (auto simp: handle_history_def Let_def split: prod.split simp del: has_ty.simps(9) simp: has_ty.simps(10))

lemma ctx_typed:
  assumes "ctx_step env l s = (s', Some r, go_on)"
  shows "reply_typed ctxgraph_types (asked_method (dv_parse env l)) r"
proof -
  have r: "r = snd (dispatch_request env l s)"
    using assms by (simp add: ctx_step_def Let_def split: if_splits prod.splits)
  show ?thesis
  proof (cases "dv_parse env l")
    case (Inr req)
    let ?m = "str_or [] req ''method''"
    have "r = snd (if ?m = ''write'' then ctx_handle_write env req s else if ?m = ''read'' then ctx_handle_read env req s
        else if ?m = ''query'' then handle_query env req s else if ?m = ''history'' then handle_history env req s
        else (s, error_json (''unknown method: '' @ ?m)))"
      using r Inr by (simp add: dispatch_request_def Let_def)
    then show ?thesis
      using write_typed read_typed query_typed history_typed
      by (simp add: reply_typed_method [OF Inr refl] ctxgraph_types_def del: has_ty.simps)
  qed (use r in \<open>simp add: dispatch_request_def reply_typed_def asked_method_def\<close>)
qed

section \<open>Every answer has its type\<close>

lemma reply_all: "(\<And>s r go_on. p = (s, Some r, go_on) \<Longrightarrow> P r) \<Longrightarrow> pred_option P (fst (snd p))"
  by (cases p; cases "fst (snd p)") simp_all

text \<open>
  C12: the protocol is typed. Whatever line a daemon receives in whatever state, the answer it writes, if
  it writes one, has the type of the method that the line asks for: the fields that the clients read are
  there, with strings, numbers of the stated width, and arrays where they expect them. A line that does
  not parse or that names no method of the daemon is answered with an error.
\<close>

theorem answers_typed:
  "pred_option (reply_typed nulld_types (res_bind (serde l) (deserialize_request err l)))
     (fst (snd (control_step serde err sv l flag))) \<and>
   pred_option (reply_typed cage_types (asked_method (co_parse os l))) (fst (snd (handle_command os l st))) \<and>
   pred_option (reply_typed warden_types (asked_method (ve_parse wenv l))) (fst (snd (warden_step wenv l w))) \<and>
   pred_option (reply_typed egress_types (asked_method (ev_parse eenv l))) (fst (snd (egress_step eenv l eg))) \<and>
   pred_option (reply_typed ctxgraph_types (asked_method (dv_parse denv l))) (fst (snd (ctx_step denv l s)))"
  by (intro conjI reply_all) (erule nulld_typed cage_typed warden_typed egress_typed ctx_typed)+

end
