(* ===== verification/Clients.thy ===== *)
theory Clients
  imports Protocol
begin

text \<open>
  The clients and the daemons together: what a request of the web front end or of the command line client
  does to the state of the node, and what the client's exit code says about it.
\<close>

section \<open>The node\<close>

text \<open>The state that requests can change: nulld's shutdown flag and the states of three daemons.\<close>

record node =
  nd_flag :: bool
  nd_cage :: cage
  nd_warden :: warden
  nd_egress :: egress

record node_env =
  ne_serde :: "string \<Rightarrow> string + json"
  ne_err :: "string \<Rightarrow> string"
  ne_services :: supervisor
  ne_cage :: cage_os
  ne_warden :: vault_env
  ne_egress :: egress_env

text \<open>A line on one of the sockets; the sentinel and the watcher have no sources and no state here.\<close>

definition deliver :: "node_env \<Rightarrow> string \<Rightarrow> string \<Rightarrow> node \<Rightarrow> node \<times> json option" where
  "deliver ev path l w =
     (if path = nulld_socket_path then
        (let (flag, r, _) = control_step (ne_serde ev) (ne_err ev) (ne_services ev) l (nd_flag w)
         in (w\<lparr>nd_flag := flag\<rparr>, r))
      else if path = cage_socket_path then
        (let (st, r, _) = handle_command (ne_cage ev) l (nd_cage w) in (w\<lparr>nd_cage := st\<rparr>, r))
      else if path = warden_socket_path then
        (let (st, r, _) = warden_step (ne_warden ev) l (nd_warden w) in (w\<lparr>nd_warden := st\<rparr>, r))
      else if path = egress_socket_path then
        (let (st, r, _) = egress_step (ne_egress ev) l (nd_egress w) in (w\<lparr>nd_egress := st\<rparr>, r))
      else (w, None))"

text \<open>All daemons read the line as this request.\<close>

definition reads :: "node_env \<Rightarrow> string \<Rightarrow> json \<Rightarrow> bool" where
  "reads ev l req \<longleftrightarrow> l \<noteq> [] \<and> ne_serde ev l = Inr req \<and> co_parse (ne_cage ev) l = Inr req \<and>
     ve_parse (ne_warden ev) l = Inr req \<and> ev_parse (ne_egress ev) l = Inr req"

lemma deliver_simps:
  "deliver ev nulld_socket_path l w =
     (w\<lparr>nd_flag := fst (control_step (ne_serde ev) (ne_err ev) (ne_services ev) l (nd_flag w))\<rparr>,
      fst (snd (control_step (ne_serde ev) (ne_err ev) (ne_services ev) l (nd_flag w))))"
  "deliver ev cage_socket_path l w =
     (w\<lparr>nd_cage := fst (handle_command (ne_cage ev) l (nd_cage w))\<rparr>, fst (snd (handle_command (ne_cage ev) l (nd_cage w))))"
  "deliver ev warden_socket_path l w =
     (w\<lparr>nd_warden := fst (warden_step (ne_warden ev) l (nd_warden w))\<rparr>, fst (snd (warden_step (ne_warden ev) l (nd_warden w))))"
  "deliver ev egress_socket_path l w =
     (w\<lparr>nd_egress := fst (egress_step (ne_egress ev) l (nd_egress w))\<rparr>, fst (snd (egress_step (ne_egress ev) l (nd_egress w))))"
  by (simp_all add: deliver_def case_prod_unfold Let_def nulld_socket_path_def cage_socket_path_def warden_socket_path_def
      egress_socket_path_def)

lemma deliver_elsewhere:
  "path \<notin> {nulld_socket_path, cage_socket_path, warden_socket_path, egress_socket_path} \<Longrightarrow> deliver ev path l w = (w, None)"
  by (simp add: deliver_def)

section \<open>The web front end\<close>

text \<open>A request that only reads, at the daemon it is sent to.\<close>

definition read_only :: "string \<Rightarrow> json \<Rightarrow> bool" where
  "read_only path q \<longleftrightarrow>
     (path = nulld_socket_path \<and> q = method_request ''status'') \<or>
     (path \<in> {cage_socket_path, warden_socket_path, egress_socket_path} \<and> q = method_request ''list'') \<or>
     (path = cage_socket_path \<and> ((\<exists>b. q = deploy_request b) \<or> (\<exists>a. q = logs_request a))) \<or>
     path \<in> {sentinel_socket_path, watcher_socket_path}"

lemma web_routes_read_only: "route_of env r = To_service path q \<Longrightarrow> read_only path q"
  by (auto simp: route_of_def parameter_route_def not_found_def read_only_def nulld_socket_path_def Let_def
      split: if_splits option.splits)

lemma read_only_changes_nothing:
  assumes "read_only path q" "reads ev l q"
  shows "fst (deliver ev path l w) = w"
proof -
  have l: "l \<noteq> []" "ne_serde ev l = Inr q" "co_parse (ne_cage ev) l = Inr q" "ve_parse (ne_warden ev) l = Inr q"
    "ev_parse (ne_egress ev) l = Inr q" using assms(2) by (simp_all add: reads_def)
  from assms(1) consider
      "path = nulld_socket_path" "q = method_request ''status''"
    | "path \<in> {cage_socket_path, warden_socket_path, egress_socket_path}" "q = method_request ''list''"
    | "path = cage_socket_path" "(\<exists>b. q = deploy_request b) \<or> (\<exists>a. q = logs_request a)"
    | "path \<in> {sentinel_socket_path, watcher_socket_path}" unfolding read_only_def by blast
  then show ?thesis
  proof cases
    case 1
    then show ?thesis
      using l by (simp add: deliver_simps control_step_def deserialize_request_def method_request_def)
  next
    case 2
    then have "str_or [] q ''method'' = ''list''" by (simp add: method_request_def str_or_def)
    then show ?thesis
      using 2(1) l
      by (elim insertE emptyE)
        (simp_all add: deliver_simps handle_command_def warden_step_def egress_step_def)
  next
    case 3
    then have "fst (handle_command (ne_cage ev) l (nd_cage w)) = nd_cage w"
      using web_deploy_refused web_logs_unknown l(3) by (elim disjE exE) simp_all
    then show ?thesis using 3(1) by (simp add: deliver_simps)
  next
    case 4
    then have "path \<notin> {nulld_socket_path, cage_socket_path, warden_socket_path, egress_socket_path}"
      by (auto simp: nulld_socket_path_def cage_socket_path_def warden_socket_path_def egress_socket_path_def
          sentinel_socket_path_def watcher_socket_path_def)
    then show ?thesis by (simp add: deliver_elsewhere)
  qed
qed

text \<open>
  One connection to the web front end. \<open>unwrap_or_default\<close> sends an empty line when a request does not
  print.
\<close>

definition web_visit :: "node_env \<Rightarrow> web_env \<Rightarrow> conn \<Rightarrow> node \<Rightarrow> node" where
  "web_visit ev env c w =
     (case parse_request c of
        None \<Rightarrow> w
      | Some r \<Rightarrow>
          (case route_of env r of
             To_service path q \<Rightarrow> fst (deliver ev path (case wb_print env q of Inl _ \<Rightarrow> [] | Inr t \<Rightarrow> t) w)
           | _ \<Rightarrow> w))"

text \<open>What is printed is read back as it was, and an empty line is not a value.\<close>

definition speaks :: "node_env \<Rightarrow> (json \<Rightarrow> string + string) \<Rightarrow> bool" where
  "speaks ev print \<longleftrightarrow> (\<forall>q l. print q = Inr l \<longrightarrow> reads ev l q) \<and> (\<exists>e. co_parse (ne_cage ev) [] = Inl e) \<and>
     (\<exists>e. ve_parse (ne_warden ev) [] = Inl e) \<and> (\<exists>e. ev_parse (ne_egress ev) [] = Inl e)"

lemma empty_line_changes_nothing:
  assumes "speaks ev print"
  shows "fst (deliver ev path [] w) = w"
proof -
  from assms obtain e1 e2 e3 where e: "co_parse (ne_cage ev) [] = Inl e1" "ve_parse (ne_warden ev) [] = Inl e2"
    "ev_parse (ne_egress ev) [] = Inl e3" unfolding speaks_def by (elim exE conjE)
  show ?thesis
    by (simp add: deliver_def e control_step_def handle_command_def warden_step_def egress_step_def)
qed


section \<open>The command line client\<close>

text \<open>The daemon behind \<open>path\<close> gets the client's request in state \<open>w\<close>, and the client reads its answer.\<close>

definition answered :: "node_env \<Rightarrow> cli_env \<Rightarrow> string \<Rightarrow> json \<Rightarrow> node \<Rightarrow> node \<Rightarrow> bool" where
  "answered ev env path req w w' \<longleftrightarrow>
     (\<exists>l r t. reads ev l req \<and> deliver ev path l w = (w', Some r) \<and> send_to_socket env path req = Inr t \<and> cl_parse env t = Inr r)"

lemma is_true_iff: "is_true v k \<longleftrightarrow> get v k = Some (JBool True)"
  unfolding is_true_def by (cases "get v k"; cases "the (get v k)") auto

lemma done_answer_code:
  "snd (done_answer who what r) =
     (if is_true r ''ok'' then Ended_ok else if str_field r ''error'' \<noteq> None then Process_exit 1 else Ended_ok)"
  by (simp add: done_answer_def answer_error_def split: option.split)

lemma ask_answered:
  "send_to_socket env path q = Inr t \<Longrightarrow> cl_parse env t = Inr r \<Longrightarrow>
     ask env path q k = (Sent path q # fst (k r), snd (k r))"
  by (simp add: ask_def case_prod_unfold Let_def)

definition exit_code :: "cli_end \<Rightarrow> nat" where
  "exit_code r = (case r of Ended_ok \<Rightarrow> 0 | Ended_err _ \<Rightarrow> 1 | Process_exit n \<Rightarrow> n)"

lemma cli_main_code: "snd (cli_main env (c # as)) = exit_code (snd (cli_command env c as))"
  by (simp add: cli_main_def exit_code_def split: prod.split cli_end.split)

lemma done_typed_code:
  "has_ty (done_ty fs) r \<Longrightarrow> exit_code (snd (done_answer who what r)) = (if is_true r ''ok'' then 0 else 1)"
  by (auto simp: done_answer_code exit_code_def done_ty_def error_ty_def str_field_def is_true_def split: option.splits)

lemma notify_running [simp]:
  "running (notify_sentinel_register os m st) = running st" "running (notify_egress_add os n ds st) = running st"
  "running (audit_record os n a b c st) = running st" "running (notify_sentinel_deregister os n st) = running st"
  "running (notify_egress_remove os n st) = running st"
  by (simp_all add: notify_sentinel_register_def notify_egress_add_def audit_record_def notify_sentinel_deregister_def
      notify_egress_remove_def)

lemma stop_vm_running: "stop_vm n st = (Inr u, st1) \<Longrightarrow> running st1 = running st - {n}"
  by (auto simp: stop_vm_def stop_agent_def running_def split: prod.splits option.splits)

lemma handle_start_running:
  assumes "cage_inv {} st" "handle_start os n st = (r, st')"
  shows "(if is_true r ''ok'' then running st' = insert n (running st) \<and> n \<notin> running st else running st' = running st) \<and>
    has_ty (done_ty [(''pid'', TNat 32)]) r"
proof (cases "map_of (cg_manifests st) n")
  case None
  then show ?thesis using assms(2) by (auto simp: handle_start_def is_true_def)
next
  case (Some m)
  obtain ss st1 where q: "request_secrets os n (cp_credential_refs (mf_capabilities m)) st = (ss, st1)" by fastforce
  then have "st1 = snd (request_secrets os n (cp_credential_refs (mf_capabilities m)) st)" by simp
  then have i: "cage_inv {} st1" "running st1 = running st" "map_of (cg_manifests st1) n = Some m"
    using inv_request_secrets(1) [OF assms(1)] Some by (simp_all add: inv_request_secrets)
  obtain s st2 where s: "start_vm os m ss st1 = (s, st2)" by fastforce
  note v = inv_start_vm [OF i(1,3) s]
  show ?thesis
  proof (cases s)
    case (Inl e)
    then show ?thesis using assms(2) Some q s v i(2) by (auto simp: handle_start_def is_true_def)
  next
    case (Inr pid)
    then show ?thesis using assms(2) Some q s v i(2) start_typed [of os n st] by (auto simp: handle_start_def is_true_def)
  qed
qed

lemma handle_stop_running:
  assumes "cage_inv {} st" "handle_stop os n st = (r, st')"
  shows "(if is_true r ''ok'' then running st' = running st - {n} \<and> n \<in> running st else st' = st \<and> n \<notin> running st) \<and>
    has_ty (done_ty []) r"
proof -
  obtain s st1 where s: "stop_vm n st = (s, st1)" by fastforce
  note v = inv_stop_vm [OF assms(1) s]
  show ?thesis using assms(2) s v stop_typed [of os n st]
    by (auto simp: handle_stop_def is_true_def stop_vm_running split: sum.splits)
qed

text \<open>
  C11: the exit code of \<open>nullctl cage start\<close> and \<open>nullctl cage stop\<close> is the truth about the VM. It is 0
  exactly if the agent's VM has come up, or has gone, by this command, and 1 if the set of running VMs is
  what it was; no other agent's VM is touched in either case.
\<close>

theorem cage_command_exit_code:
  assumes "cage_inv {} (nd_cage w)" and "c = ''start'' \<or> c = ''stop''"
    and "answered ev env cage_socket_path (agent_request c n) w w'"
    and "vms0 = running (nd_cage w)" and "vms1 = running (nd_cage w')"
  shows "(snd (cli_main env [''cage'', c, n]) = 0 \<longleftrightarrow> (if c = ''start'' then n \<in> vms1 - vms0 else n \<in> vms0 - vms1)) \<and>
     (snd (cli_main env [''cage'', c, n]) \<noteq> 0 \<longrightarrow> snd (cli_main env [''cage'', c, n]) = 1 \<and> vms1 = vms0) \<and>
     vms1 - {n} = vms0 - {n}"
proof -
  from assms(3) obtain l r t where x: "co_parse (ne_cage ev) l = Inr (agent_request c n)"
    "deliver ev cage_socket_path l w = (w', Some r)"
    "send_to_socket env cage_socket_path (agent_request c n) = Inr t" "cl_parse env t = Inr r"
    by (auto simp: answered_def reads_def)
  obtain st' where h: "(if c = ''start'' then handle_start else handle_stop) (ne_cage ev) n (nd_cage w) = (r, st')"
    "w' = w\<lparr>nd_cage := st'\<rparr>"
    using x(1,2) assms(2) by (auto simp: deliver_simps handle_command_def agent_request_def str_or_def split: prod.splits)
  have code: "snd (cli_main env [''cage'', c, n]) = (if is_true r ''ok'' then 0 else 1)"
    using assms(2)
  proof
    assume c: "c = ''start''"
    then have "has_ty (done_ty [(''pid'', TNat 32)]) r" using handle_start_running [OF assms(1), of "ne_cage ev" n r st'] h(1) by simp
    then show ?thesis using c x(3,4) by (simp add: cli_main_code cli_command_def cli_cage_def ask_answered done_typed_code)
  next
    assume c: "c = ''stop''"
    then have "has_ty (done_ty []) r" using handle_stop_running [OF assms(1), of "ne_cage ev" n r st'] h(1) by simp
    then show ?thesis using c x(3,4) by (simp add: cli_main_code cli_command_def cli_cage_def ask_answered done_typed_code)
  qed
  show ?thesis
    using assms(2)
  proof
    assume c: "c = ''start''"
    then show ?thesis
      using handle_start_running [OF assms(1), of "ne_cage ev" n r st'] h code assms(4,5) by (auto split: if_splits)
  next
    assume c: "c = ''stop''"
    then show ?thesis
      using handle_stop_running [OF assms(1), of "ne_cage ev" n r st'] h code assms(4,5) by (auto split: if_splits)
  qed
qed


section \<open>Instances\<close>

text \<open>A node whose daemons read one line as a given request, and a client that gets a given answer.\<close>

definition node_reading :: "json \<Rightarrow> node_env" where
  "node_reading req =
     (let p = (\<lambda>l. if l = ''g'' then Inr req else Inl ''bad'')
      in \<lparr>ne_serde = p, ne_err = id, ne_services = sample_sv, ne_cage = sample_cage_os\<lparr>co_parse := p\<rparr>,
          ne_warden = warden_env_with req, ne_egress = sample_env\<lparr>ev_parse := p\<rparr>\<rparr>)"

definition cli_getting :: "json \<Rightarrow> cli_env" where
  "cli_getting r = \<lparr>cl_connect = \<lambda>_. None, cl_write = \<lambda>_. None, cl_shutdown = \<lambda>_. None, cl_answer = \<lambda>_ _. Some (Inr ''r''),
     cl_print = \<lambda>_. Inr ''g'', cl_parse = \<lambda>_. Inr r, cl_file = Inl, cl_text = Inl, cl_base64 = id\<rparr>"

definition node_with :: "cage \<Rightarrow> node" where
  "node_with st = \<lparr>nd_flag = False, nd_cage = st, nd_warden = sample_warden empty_fs,
     nd_egress = snd (egress_start sample_env sample_fs)\<rparr>"

lemma node_reading: "reads (node_reading req) ''g'' req"
  by (simp add: reads_def node_reading_def warden_env_with_def Let_def)

lemma answered_instance:
  "deliver (node_reading req) path ''g'' w = (w', Some r) \<Longrightarrow> answered (node_reading req) (cli_getting r) path req w w'"
  unfolding answered_def using node_reading [of req]
  by (intro exI conjI) (assumption, assumption, simp_all add: send_to_socket_def cli_getting_def)

theorem cage_command_exit_code_witness:
  "\<exists>w w' r. ''a'' \<in> running (nd_cage w) \<and>
     answered (node_reading (agent_request ''stop'' ''a'')) (cli_getting r) cage_socket_path (agent_request ''stop'' ''a'') w w' \<and>
     snd (cli_main (cli_getting r) [''cage'', ''stop'', ''a'']) = 0 \<and> ''a'' \<notin> running (nd_cage w')"
proof -
  let ?q = "agent_request ''stop'' ''a''"
  obtain st where st: "run_daemon sample_cage_os [] sample_cage_fs = Inr st" "running st = {''a''}"
    using sample_running by (elim exE conjE)
  have inv: "cage_inv {} (nd_cage (node_with st))"
    using inv_run_daemon [OF _ _ st(1)] by (simp add: node_with_def sample_cage_os_def sample_cage_vm_def)
  obtain r st' where h: "handle_stop (ne_cage (node_reading ?q)) ''a'' st = (r, st')" by fastforce
  have d: "deliver (node_reading ?q) cage_socket_path ''g'' (node_with st) = ((node_with st)\<lparr>nd_cage := st'\<rparr>, Some r)"
    using h node_reading [of ?q]
    by (simp add: deliver_simps handle_command_def reads_def node_with_def str_or_def agent_request_def)
  note a = answered_instance [OF d]
  have run: "''a'' \<in> running (nd_cage (node_with st))" "is_true r ''ok''"
    using handle_stop_running [OF inv, of "ne_cage (node_reading ?q)" "''a''" r st'] h st(2)
    by (auto simp: node_with_def split: if_splits)
  then have gone: "''a'' \<notin> running (nd_cage ((node_with st)\<lparr>nd_cage := st'\<rparr>))"
    using handle_stop_running [OF inv, of "ne_cage (node_reading ?q)" "''a''" r st'] h
    by (auto simp: node_with_def)
  have "snd (cli_main (cli_getting r) [''cage'', ''stop'', ''a'']) = 0"
    using cage_command_exit_code [OF inv disjI2 [OF refl] a refl refl] run(1) gone by simp
  then show ?thesis using run(1) gone a by blast
qed


text \<open>A visit that asks for the list of agents.\<close>

definition web_asking :: web_env where
  "web_asking = \<lparr>wb_connect = \<lambda>_. None, wb_write_fails = \<lambda>_. False, wb_read = \<lambda>_ _. Inr ''r'', wb_parse = Inl,
     wb_print = \<lambda>q. if q = method_request ''list'' then Inr ''g'' else Inl ''bad'', wb_dashboard = [], wb_registry = None,
     wb_version = [], wb_exists = \<lambda>_. False\<rparr>"

definition list_conn :: conn where
  "list_conn = \<lparr>c_bytes = ''GET /api/agents'', c_open = False\<rparr>"

lemma list_conn_request:
  "parse_request list_conn = Some \<lparr>hr_method = ''GET'', hr_path = ''/api/agents'', hr_headers = [], hr_body = []\<rparr>"
proof -
  have "web_read_line False (c_bytes list_conn) = Some (c_bytes list_conn, [])"
    by (simp add: web_read_line_def list_conn_def Let_def byte_def)
  moreover have "trim (c_bytes list_conn) = c_bytes list_conn"
    using trim_printable [of "CHR ''G''" "CHR ''s''" "''ET /api/agent''"] by (simp add: list_conn_def byte_def)
  moreover have "request_parts (c_bytes list_conn) = Some (''GET'', ''/api/agents'')"
    by (simp add: request_parts_def list_conn_def)
  moreover have "to_uppercase ''GET'' = ''GET''"
    by (simp add: to_uppercase_ascii ascii_upper_def byte_def del: to_uppercase.simps(2))
  moreover have "read_headers False [] [] 0 = Some ([], 0, [])"
    by (subst read_headers.simps) (simp add: web_read_line_def)
  moreover have "c_bytes list_conn \<noteq> []" "c_open list_conn = False" by (simp_all add: list_conn_def)
  ultimately show ?thesis by (simp add: parse_request_def read_body_def del: to_uppercase.simps)
qed

lemma web_asking_speaks: "speaks (node_reading (method_request ''list'')) (wb_print web_asking)"
  using node_reading
  by (simp add: speaks_def web_asking_def) (simp add: node_reading_def Let_def warden_env_with_def sample_vault_env_def)


end
