(* ===== verification/Test_Tools.thy ===== *)
theory Test_Tools
  imports Web Ctxgraph
begin

text \<open>
  Model of \<open>pkg/test-harness/src/main.rs\<close>, the bridge from TCP to the daemons' sockets, and of
  \<open>pkg/test-agent/src/main.rs\<close>, the agent that writes one entry to ctxgraph. Sockets, the environment and
  the JSON parser and printer are parameters; sleeps are not modelled. The lemmas say which requests the
  bridge passes on, and that the agent's entry is the one that ctxgraph stores.
\<close>

section \<open>The bridge\<close>

definition SERVICES :: "(string \<times> string) list" where
  "SERVICES =
     [(''warden'', ''/run/warden.sock''), (''sentinel'', ''/run/sentinel.sock''), (''watcher'', ''/run/watcher.sock''),
      (''egress'', ''/run/egress.sock''), (''cage'', ''/run/cage.sock''), (''nulld'', ''/run/nulld.sock'')]"

text \<open>\<open>BufReader::new(stream).lines()\<close>, without the limit that the daemons set.\<close>

definition all_lines :: "conn \<Rightarrow> (unit + string) list" where
  "all_lines c =
     (let ps = split_on (CHR 10) (c_bytes c)
      in map (\<lambda>p. decode_line (strip_cr p)) (butlast ps) @
         (if c_open c then [Inl ()] else if last ps = [] then [] else [decode_line (last ps)]))"

definition forward_exchange :: "web_env \<Rightarrow> string \<Rightarrow> string \<Rightarrow> json \<Rightarrow> json" where
  "forward_exchange env service path req =
     (case wb_connect env path of
        Some e \<Rightarrow> error_json (''connect to '' @ service @ '' ('' @ path @ ''): '' @ e)
      | None \<Rightarrow>
          (let msg = (case wb_print env req of Inl _ \<Rightarrow> [] | Inr t \<Rightarrow> t)
           in if wb_write_fails env path then error_json (''write to '' @ service @ '' failed'')
              else case wb_read env path msg of
                     Inl e \<Rightarrow> error_json (''read from '' @ service @ '': '' @ e)
                   | Inr l \<Rightarrow>
                       (if l = [] then error_json ''empty response from service''
                        else JObj [(''ok'', JBool True), (''service'', JStr service),
                               (case wb_parse env (trim l) of
                                  Inr v \<Rightarrow> (''response'', v)
                                | Inl _ \<Rightarrow> (''raw'', JStr (trim l)))])))"

definition unknown_service :: "string \<Rightarrow> json" where
  "unknown_service service =
     JObj [(''error'', JStr (''unknown service: '' @ service)), (''available'', strs (map fst SERVICES))]"

text \<open>
  The state is the history of the requests that were passed on; the daemons answer the \<open>n\<close>th of them as
  \<open>envs n\<close> says.
\<close>

type_synonym harness = "(string \<times> json) list"

definition forward_to_service :: "(nat \<Rightarrow> web_env) \<Rightarrow> string \<Rightarrow> json \<Rightarrow> harness \<Rightarrow> harness \<times> json" where
  "forward_to_service envs service req sent =
     (case map_of SERVICES service of
        None \<Rightarrow> (sent, unknown_service service)
      | Some path \<Rightarrow> (sent @ [(path, req)], forward_exchange (envs (length sent)) service path req))"

definition inner_request :: "json \<Rightarrow> json" where
  "inner_request request = (case get request ''request'' of None \<Rightarrow> JObj [] | Some v \<Rightarrow> v)"

definition harness_step :: "(nat \<Rightarrow> web_env) \<Rightarrow> string \<Rightarrow> harness \<Rightarrow> harness \<times> json option \<times> bool" where
  "harness_step envs l sent =
     (case wb_parse (envs (length sent)) l of
        Inl e \<Rightarrow> (sent, Some (error_json (''invalid JSON: '' @ e)), False)
      | Inr request \<Rightarrow>
          (let service = str_or [] request ''service'';
               (sent', r) =
                 (if service = ''ping'' then (sent, JObj [(''ok'', JBool True), (''service'', JStr ''test-harness'')])
                  else forward_to_service envs service (inner_request request) sent)
           in (sent', Some r, True)))"

definition harness_connection :: "(nat \<Rightarrow> web_env) \<Rightarrow> conn \<Rightarrow> harness \<Rightarrow> harness \<times> json list" where
  "harness_connection envs c sent = line_loop (harness_step envs) (all_lines c) sent"

fun harness_accepted :: "(nat \<Rightarrow> web_env) \<Rightarrow> (io_error + conn) list \<Rightarrow> harness \<Rightarrow> harness \<times> json list list" where
  "harness_accepted envs [] sent = (sent, [])"
| "harness_accepted envs (Inl _ # as) sent = harness_accepted envs as sent"
| "harness_accepted envs (Inr c # as) sent =
     (let (sent1, out) = harness_connection envs c sent; (sent2, outs) = harness_accepted envs as sent1
      in (sent2, out # outs))"

definition harness_main :: "io_error option \<Rightarrow> (nat \<Rightarrow> web_env) \<Rightarrow> (io_error + conn) list \<Rightarrow> nat + harness \<times> json list list" where
  "harness_main bind envs incoming = (case bind of Some _ \<Rightarrow> Inl 1 | None \<Rightarrow> Inr (harness_accepted envs incoming []))"

section \<open>The test agent\<close>

text \<open>The results of the calls of the \<open>k\<close>th attempt; \<open>ta_address\<close> is the parser of socket addresses.\<close>

record agent_env =
  ta_name :: "string option"
  ta_port :: "string option"
  ta_address :: "string \<Rightarrow> string option"
  ta_connect :: "nat \<Rightarrow> io_error option"
  ta_timeout :: "nat \<Rightarrow> io_error option"
  ta_write :: "nat \<Rightarrow> io_error option"
  ta_answer :: "nat \<Rightarrow> string \<Rightarrow> (io_error + string) option"
  ta_parse :: "string \<Rightarrow> string + json"

definition write_line :: "string \<Rightarrow> string" where
  "write_line name =
     ''{\"method\":\"write\",\"agent_id\":\"'' @ name @ ''\",\"key\":\"agent.status\",\"value\":\"booted\"}''"

definition hash_of_answer :: "json \<Rightarrow> string + string" where
  "hash_of_answer v =
     (case str_field v ''hash'' of
        Some h \<Rightarrow> Inr h
      | None \<Rightarrow> Inl (case str_field v ''error'' of Some e \<Rightarrow> e | None \<Rightarrow> ''unexpected response''))"

definition write_to_ctxgraph :: "agent_env \<Rightarrow> nat \<Rightarrow> string \<Rightarrow> string \<Rightarrow> string + string" where
  "write_to_ctxgraph env k addr name =
     (case ta_address env addr of
        Some e \<Rightarrow> Inl e
      | None \<Rightarrow>
          (case ta_connect env k of
             Some e \<Rightarrow> Inl e
           | None \<Rightarrow>
               (case ta_timeout env k of
                  Some e \<Rightarrow> Inl e
                | None \<Rightarrow>
                    (case ta_write env k of
                       Some e \<Rightarrow> Inl e
                     | None \<Rightarrow>
                         (case ta_answer env k (write_line name) of
                            None \<Rightarrow> Inl ''no response''
                          | Some (Inl e) \<Rightarrow> Inl e
                          | Some (Inr l) \<Rightarrow> res_bind (ta_parse env l) hash_of_answer)))))"

text \<open>The attempts: the lines printed, and the hash of the first that succeeds.\<close>

fun agent_attempts :: "agent_env \<Rightarrow> string \<Rightarrow> string \<Rightarrow> nat list \<Rightarrow> string list \<times> string option" where
  "agent_attempts env addr name [] = ([], None)"
| "agent_attempts env addr name (k # ks) =
     (case write_to_ctxgraph env k addr name of
        Inr h \<Rightarrow> ([''test-agent: wrote to ctxgraph (attempt '' @ show_nat k @ ''), hash='' @ h], Some h)
      | Inl e \<Rightarrow>
          (let (out, r) = agent_attempts env addr name ks
           in ((''test-agent: ctxgraph attempt '' @ show_nat k @ ''/5 failed: '' @ e) # out, r)))"

text \<open>What is printed up to the \<open>n\<close>th heartbeat.\<close>

definition test_agent_main :: "agent_env \<Rightarrow> nat \<Rightarrow> string list" where
  "test_agent_main env n =
     (let name = (case ta_name env of None \<Rightarrow> ''unknown'' | Some x \<Rightarrow> x);
          addr = ''127.0.0.1:'' @ (case ta_port env of None \<Rightarrow> ''9100'' | Some p \<Rightarrow> p);
          (out, r) = agent_attempts env addr name [1..<6]
      in [''test-agent: booted inside microVM (AGENT_NAME='' @ name @ '')'',
          ''test-agent: connecting to ctxgraph at '' @ addr] @ out @
         (case r of
            None \<Rightarrow> [''test-agent: could not reach ctxgraph (TSI may not work in nested KVM)'']
          | Some _ \<Rightarrow> []) @
         map (\<lambda>t. ''test-agent: heartbeat '' @ show_nat t) [1..<Suc n])"

section \<open>Lemmas\<close>

definition known_sockets :: "harness \<Rightarrow> bool" where
  "known_sockets sent \<longleftrightarrow> list_all (\<lambda>(p, _). p \<in> snd ` set SERVICES) sent"

lemma known_sockets_snoc: "known_sockets sent \<Longrightarrow> map_of SERVICES s = Some p \<Longrightarrow> known_sockets (sent @ [(p, q)])"
  by (force simp: known_sockets_def dest: map_of_SomeD)

interpretation harness_up: line_service "harness_step envs" known_sockets "\<lambda>_. True"
  for envs
  by unfold_locales
    (auto simp: harness_step_def forward_to_service_def Let_def known_sockets_snoc
      split: sum.splits option.splits if_splits)

text \<open>The bridge talks to the sockets of its table only, whatever it receives.\<close>

lemma harness_sockets: "known_sockets sent \<Longrightarrow> known_sockets (fst (harness_accepted envs as sent))"
proof (induction envs as sent rule: harness_accepted.induct)
  case (3 envs c as sent)
  obtain sent1 out where s1: "harness_connection envs c sent = (sent1, out)" by fastforce
  then have "known_sockets sent1" using 3(2) harness_up.loop by (auto simp: harness_connection_def)
  then show ?case using 3(1) [OF s1 [symmetric] refl] s1 by (simp add: case_prod_unfold Let_def)
qed simp_all

text \<open>Unlike the web front end it passes on every request, a shutdown or a change of the vault included.\<close>

lemma harness_forwards_anything:
  assumes "wb_parse (envs (length sent)) l = Inr (JObj [(''service'', JStr s), (''request'', q)])" "(s, path) \<in> set SERVICES"
  shows "fst (harness_step envs l sent) = sent @ [(path, q)]"
proof -
  have "distinct (map fst SERVICES)" "''ping'' \<notin> set (map fst SERVICES)" by (simp_all add: SERVICES_def)
  then have "map_of SERVICES s = Some path" "s \<noteq> ''ping''" using assms(2) by (auto intro: map_of_is_SomeI) force
  then show ?thesis using assms(1)
    by (simp add: harness_step_def str_or_def forward_to_service_def inner_request_def)
qed

text \<open>
  What the agent reports as its hash is the answer of the daemon: with the request read as the agent
  means it, the entry is stored under the agent's name, and the hash is the one of the store.
\<close>

definition status_entry :: "string \<Rightarrow> json" where
  "status_entry name =
     JObj [(''method'', JStr ''write''), (''agent_id'', JStr name), (''key'', JStr ''agent.status''), (''value'', JStr ''booted'')]"

lemma status_entry_dispatched:
  assumes "dv_parse denv (write_line name) = Inr (status_entry name)" "name \<noteq> []"
    "store_write denv name ''agent.status'' (JStr ''booted'') s = (Inr h, s')"
  shows "dispatch_request denv (write_line name) s = (s', JObj [(''ok'', JBool True), (''hash'', JStr h)])"
  using assms by (simp add: dispatch_request_def status_entry_def ctx_handle_write_def str_or_def value_field_def Let_def)

lemma agent_reports_hash:
  assumes "dv_parse denv (write_line name) = Inr (status_entry name)" "name \<noteq> []"
    "store_write denv name ''agent.status'' (JStr ''booted'') s = (Inr h, s')"
    "ta_address env addr = None" "ta_connect env k = None" "ta_timeout env k = None" "ta_write env k = None"
    "ta_answer env k (write_line name) = Some (Inr t)"
    "ta_parse env t = Inr (snd (dispatch_request denv (write_line name) s))"
  shows "write_to_ctxgraph env k addr name = Inr h"
  using assms(4-9) by (simp add: status_entry_dispatched [OF assms(1-3)] write_to_ctxgraph_def hash_of_answer_def)

end
