(* ===== verification/Test_Lib.thy ===== *)
theory Test_Lib
  imports Manifest
begin

text \<open>
  What the unit tests of the repository use: documents as lines, \<open>position\<close>, \<open>contains\<close>. A test is a
  bool-valued definition, the conjunction of its assertions, with an \<open>unwrap\<close> of an error as \<open>False\<close>; the
  parsers and the iteration order of hash maps are its arguments. A test passes for every order of
  iteration, and for every parser that reads its document as the value it denotes.
\<close>

section \<open>Documents\<close>

definition doc :: "string list \<Rightarrow> string" where
  "doc ls = concat (map (\<lambda>l. l @ [CHR 10]) ls)"

text \<open>A quoted TOML string, and a line that binds one.\<close>

definition dquote :: "string \<Rightarrow> string" where
  "dquote s = [CHR 0x22] @ s @ [CHR 0x22]"

definition binds :: "string \<Rightarrow> string \<Rightarrow> string" where
  "binds k s = k @ '' = '' @ dquote s"

text \<open>A raw string indented by twelve blanks, whose last line is the indentation of the closing quote.\<close>

definition indented :: "string list \<Rightarrow> string" where
  "indented ls = doc ([] # map (\<lambda>l. if l = [] then [] else replicate 12 (CHR '' '') @ l) ls) @ replicate 12 (CHR '' '')"

section \<open>Searching\<close>

fun position :: "('a \<Rightarrow> bool) \<Rightarrow> 'a list \<Rightarrow> nat option" where
  "position P [] = None"
| "position P (x # xs) = (if P x then Some 0 else map_option Suc (position P xs))"

text \<open>Both positions are there, the first before the second.\<close>

definition ordered :: "('a \<Rightarrow> bool) \<Rightarrow> ('a \<Rightarrow> bool) \<Rightarrow> 'a list \<Rightarrow> bool" where
  "ordered P Q xs \<longleftrightarrow>
     (case (position P xs, position Q xs) of (Some i, Some j) \<Rightarrow> i < j | _ \<Rightarrow> False)"

lemma contains_prefix: "contains_str p (p @ s)"
proof (cases "p @ s")
  case (Cons c r)
  have "starts_with (p @ s) p" by simp
  with Cons show ?thesis by simp
qed simp

lemma contains_iff: "contains_str p s \<longleftrightarrow> (\<exists>a b. s = a @ p @ b)"
proof
  show "\<exists>a b. s = a @ p @ b" if "contains_str p s"
    using that
  proof (induction s)
    case Nil
    then show ?case by simp
  next
    case (Cons c s)
    then consider "starts_with (c # s) p" | "contains_str p s" by auto
    then show ?case
    proof cases
      case 1
      then show ?thesis by (metis append_Nil starts_with_iff)
    next
      case 2
      with Cons.IH show ?thesis by (metis append_Cons)
    qed
  qed
  show "contains_str p s" if "\<exists>a b. s = a @ p @ b"
  proof -
    from that obtain a b where "s = a @ p @ b" by blast
    then show ?thesis by (induction a arbitrary: s) (simp_all add: contains_prefix)
  qed
qed

lemma contains_left: "contains_str p s \<Longrightarrow> contains_str p (s @ t)"
  unfolding contains_iff by (metis append.assoc)

lemma contains_right: "contains_str p t \<Longrightarrow> contains_str p (s @ t)"
  unfolding contains_iff by (metis append.assoc)

lemma contains_concat: "l \<in> set ls \<Longrightarrow> contains_str p (f l) \<Longrightarrow> contains_str p (concat (map f ls))"
  by (induction ls) (auto intro: contains_left contains_right)

section \<open>Numerals\<close>

lemma digit_chars:
  "digit 0 = CHR ''0''" "digit 1 = CHR ''1''" "digit (Suc 0) = CHR ''1''" "digit 2 = CHR ''2''"
  "digit 3 = CHR ''3''" "digit 4 = CHR ''4''" "digit 5 = CHR ''5''" "digit 6 = CHR ''6''"
  "digit 7 = CHR ''7''" "digit 8 = CHR ''8''" "digit 9 = CHR ''9''"
  by code_simp+

section \<open>Small hash maps in any order\<close>

lemma iter_none: "is_iter it \<Longrightarrow> it [] = []"
  by (metis is_iter_length length_0_conv)

lemma iter_one: "is_iter it \<Longrightarrow> it [x] = [x]"
  by (metis is_iter_def mset_single_iff mset.simps)

lemma mset_two: "mset xs = {#a, b#} \<Longrightarrow> xs = [a, b] \<or> xs = [b, a]"
proof -
  assume m: "mset xs = {#a, b#}"
  then have "length xs = 2" by (metis size_mset size_add_mset size_single numeral_2_eq_2 One_nat_def)
  then obtain x y where "xs = [x, y]" by (metis (no_types) length_0_conv length_Suc_conv numeral_2_eq_2)
  with m show ?thesis by (auto simp: add_eq_conv_ex)
qed

lemma iter_two: "is_iter it \<Longrightarrow> it [a, b] = [a, b] \<or> it [a, b] = [b, a]"
  by (rule mset_two) (simp add: is_iter_def)

lemma mset_three:
  assumes "mset xs = {#a, b, c#}"
  shows "xs \<in> {[a, b, c], [a, c, b], [b, a, c], [b, c, a], [c, a, b], [c, b, a]}"
proof -
  have "length xs = 3" using arg_cong [OF assms, of size] by (simp add: numeral_3_eq_3)
  then obtain x ys where xs: "xs = x # ys" by (cases xs) auto
  have "x \<in># {#a, b, c#}" using assms xs by (metis list.set_intros(1) set_mset_mset)
  then consider "x = a" | "x = b" | "x = c" by auto
  then show ?thesis
  proof cases
    case 1
    with assms xs have "mset ys = {#b, c#}" by simp
    from mset_two [OF this] 1 xs show ?thesis by auto
  next
    case 2
    with assms xs have "mset ys = {#a, c#}" by (simp add: add_mset_commute)
    from mset_two [OF this] 2 xs show ?thesis by auto
  next
    case 3
    with assms xs have "mset ys = {#a, b#}" by (simp add: add_mset_commute)
    from mset_two [OF this] 3 xs show ?thesis by auto
  qed
qed

lemma iter_three:
  "is_iter it \<Longrightarrow> it [a, b, c] \<in> {[a, b, c], [a, c, b], [b, a, c], [b, c, a], [c, a, b], [c, b, a]}"
  by (rule mset_three) (simp add: is_iter_def)

lemma iter_ready:
  "is_iter it \<Longrightarrow> mset (map f (filter P (it xs))) = mset (map f (filter P xs))"
  by (simp add: is_iter_def)

end
