(* ===== verification/Tests_Nulld.thy ===== *)
theory Tests_Nulld
  imports Test_Lib Nulld
begin

text \<open>
  The unit tests of \<open>cmd/nulld\<close>: \<open>service.rs\<close>, \<open>supervisor.rs\<close>, \<open>mount.rs\<close>, \<open>signal.rs\<close> and \<open>config.rs\<close>.
\<close>

section \<open>Service graph\<close>

definition make_service :: "string \<Rightarrow> string list \<Rightarrow> service_def" where
  "make_service n deps =
     \<lparr>name = n, binary = ''/system/bin/'' @ n, args = [], depends_on = deps, restart = Always\<rparr>"

type_synonym degree_order = "(string \<times> nat) list \<Rightarrow> (string \<times> nat) list"

definition unwrap_order :: "(dep_error + string list) option \<Rightarrow> (string list \<Rightarrow> bool) \<Rightarrow> bool" where
  "unwrap_order r P = (case r of Some (Inr order) \<Rightarrow> P order | _ \<Rightarrow> False)"

definition simple_dependency_order :: "degree_order \<Rightarrow> bool" where
  "simple_dependency_order it =
     unwrap_order (resolve_start_order it
         [make_service ''cage'' [''egress'', ''ctxgraph''], make_service ''egress'' [], make_service ''ctxgraph'' []])
       (\<lambda>order. ordered (\<lambda>s. s = ''egress'') (\<lambda>s. s = ''cage'') order \<and>
          ordered (\<lambda>s. s = ''ctxgraph'') (\<lambda>s. s = ''cage'') order)"

definition no_dependencies :: "degree_order \<Rightarrow> bool" where
  "no_dependencies it =
     unwrap_order (resolve_start_order it [make_service ''a'' [], make_service ''b'' [], make_service ''c'' []])
       (\<lambda>order. length order = 3)"

definition cycle_detected :: "degree_order \<Rightarrow> bool" where
  "cycle_detected it \<longleftrightarrow>
     resolve_start_order it [make_service ''a'' [''b''], make_service ''b'' [''a'']] = Some (Inl CycleDetected)"

definition missing_dependency :: "degree_order \<Rightarrow> bool" where
  "missing_dependency it =
     (case resolve_start_order it [make_service ''a'' [''nonexistent'']] of
        Some (Inl (MissingDependency _ _)) \<Rightarrow> True
      | _ \<Rightarrow> False)"

definition stop_order_is_reverse_of_start :: "degree_order \<Rightarrow> bool" where
  "stop_order_is_reverse_of_start it =
     (let svcs = [make_service ''cage'' [''egress''], make_service ''egress'' []]
      in unwrap_order (resolve_start_order it svcs) (\<lambda>start.
         unwrap_order (resolve_stop_order it svcs) (\<lambda>stop.
           length start = 2 \<and> length stop = 2 \<and> start ! 0 = stop ! 1 \<and> start ! 1 = stop ! 0)))"

definition chain_dependency :: "degree_order \<Rightarrow> bool" where
  "chain_dependency it =
     unwrap_order (resolve_start_order it
         [make_service ''c'' [''b''], make_service ''b'' [''a''], make_service ''a'' []])
       (\<lambda>order. order = [''a'', ''b'', ''c''])"

text \<open>The services that are ready at the start, in any order of the map.\<close>

lemma ready_one:
  assumes "is_iter it" and "filter (\<lambda>(_, d). d = 0) indeg = [x]"
  shows "map fst (filter (\<lambda>(_, d). d = 0) (it indeg)) = [fst x]"
proof -
  have "mset (map fst (filter (\<lambda>(_, d). d = 0) (it indeg))) = mset (map fst [x])"
    unfolding iter_ready [OF assms(1)] assms(2) ..
  then show ?thesis by (metis list.simps(8,9) mset.simps mset_single_iff)
qed

lemma ready_none:
  assumes "is_iter it" and "filter (\<lambda>(_, d). d = 0) indeg = []"
  shows "map fst (filter (\<lambda>(_, d). d = 0) (it indeg)) = []"
  using iter_ready [OF assms(1), of fst "\<lambda>(_, d). d = 0" indeg] unfolding assms(2) by (metis list.simps(8) mset_zero_iff)

lemma kahn_isolated: "kahn_loop [] indeg queue order = Some (order @ queue)"
  by (induction queue arbitrary: order) simp_all

lemmas graph_simps = make_service_def hm_or_insert_def Let_def

lemma simple_dependency_order_passes: "is_iter it \<Longrightarrow> simple_dependency_order it"
proof -
  assume it: "is_iter it"
  let ?in = "[(''cage'', Suc (Suc 0)), (''egress'', 0), (''ctxgraph'', 0 :: nat)]"
  from iter_ready [OF it, of fst "\<lambda>(_, d). d = 0" ?in]
  have "map fst (filter (\<lambda>(_, d). d = 0) (it ?in)) = [''egress'', ''ctxgraph''] \<or>
    map fst (filter (\<lambda>(_, d). d = 0) (it ?in)) = [''ctxgraph'', ''egress'']"
    by (intro mset_two) simp
  then show ?thesis
    by (elim disjE) (simp_all add: simple_dependency_order_def unwrap_order_def ordered_def resolve_start_order_def
      graph_simps)
qed

lemma no_dependencies_passes: "is_iter it \<Longrightarrow> no_dependencies it"
proof -
  assume it: "is_iter it"
  let ?in = "[(''a'', 0), (''b'', 0), (''c'', 0 :: nat)]"
  have "length (map fst (filter (\<lambda>(_, d). d = 0) (it ?in))) = 3"
    using arg_cong [OF iter_ready [OF it, of fst "\<lambda>(_, d). d = 0" ?in], of size] unfolding size_mset by simp
  then show ?thesis
    by (simp add: no_dependencies_def unwrap_order_def resolve_start_order_def graph_simps kahn_isolated)
qed

lemma cycle_detected_passes: "is_iter it \<Longrightarrow> cycle_detected it"
  using ready_none [of it "[(''a'', 1), (''b'', 1)]"]
  by (simp add: cycle_detected_def resolve_start_order_def graph_simps)

lemma missing_dependency_passes: "missing_dependency it"
  by (simp add: missing_dependency_def resolve_start_order_def make_service_def)

lemma stop_order_is_reverse_of_start_passes: "is_iter it \<Longrightarrow> stop_order_is_reverse_of_start it"
  using ready_one [of it "[(''cage'', 1), (''egress'', 0)]" "(''egress'', 0)"]
  by (simp add: stop_order_is_reverse_of_start_def unwrap_order_def resolve_stop_order_def resolve_start_order_def
    graph_simps)

lemma chain_dependency_passes: "is_iter it \<Longrightarrow> chain_dependency it"
  using ready_one [of it "[(''c'', 1), (''b'', 1), (''a'', 0)]" "(''a'', 0)"]
  by (simp add: chain_dependency_def unwrap_order_def resolve_start_order_def graph_simps)

section \<open>Supervisor\<close>

definition backoff_increases_exponentially :: bool where
  "backoff_increases_exponentially \<longleftrightarrow>
     calculate_backoff 0 = secs 1 \<and> calculate_backoff 1 = secs 2 \<and> calculate_backoff 2 = secs 4 \<and>
     calculate_backoff 3 = secs 8 \<and> calculate_backoff 4 = secs 16"

definition backoff_caps_at_max :: bool where
  "backoff_caps_at_max \<longleftrightarrow> calculate_backoff 5 = max_backoff \<and> calculate_backoff 10 = max_backoff"

definition supervisor_creates_from_defs :: bool where
  "supervisor_creates_from_defs \<longleftrightarrow>
     map_of (services (new_supervisor
       [\<lparr>name = ''test'', binary = ''/bin/true'', args = [], depends_on = [], restart = Always\<rparr>])) ''test'' \<noteq> None"

lemma backoff_increases_exponentially_passes: backoff_increases_exponentially
  by (simp add: backoff_increases_exponentially_def calculate_backoff_secs)

lemma backoff_caps_at_max_passes: backoff_caps_at_max
  by (simp add: backoff_caps_at_max_def calculate_backoff_secs max_backoff_def)

lemma supervisor_creates_from_defs_passes: supervisor_creates_from_defs
  by (simp add: supervisor_creates_from_defs_def new_supervisor_def)

section \<open>Mounts\<close>

definition mount_entries_have_valid_targets :: bool where
  "mount_entries_have_valid_targets = list_all (\<lambda>m. starts_with (me_target m) ''/'') MOUNTS"

definition mount_order_proc_before_sys :: bool where
  "mount_order_proc_before_sys = ordered (\<lambda>m. me_target m = ''/proc'') (\<lambda>m. me_target m = ''/sys'') MOUNTS"

definition mount_order_dev_before_devpts :: bool where
  "mount_order_dev_before_devpts = ordered (\<lambda>m. me_target m = ''/dev'') (\<lambda>m. me_target m = ''/dev/pts'') MOUNTS"

lemma mount_tests_pass:
  "mount_entries_have_valid_targets" "mount_order_proc_before_sys" "mount_order_dev_before_devpts"
  by code_simp+

section \<open>Signals\<close>

text \<open>\<open>Display\<close> of \<open>ExitReason\<close>, which the log lines use.\<close>

fun show_exit_reason :: "exit_reason \<Rightarrow> string" where
  "show_exit_reason (Exited code) = ''exited with code '' @ show_int code"
| "show_exit_reason (Signaled sig) = ''killed by signal '' @ show_int sig"

text \<open>Without children, \<open>waitpid\<close> fails with \<open>ECHILD\<close>.\<close>

definition reap_children_returns_empty_when_no_children :: bool where
  "reap_children_returns_empty_when_no_children \<longleftrightarrow> reap_children [WaitOther] = []"

definition exit_reason_display :: bool where
  "exit_reason_display \<longleftrightarrow>
     show_exit_reason (Exited 0) = ''exited with code 0'' \<and> show_exit_reason (Signaled 9) = ''killed by signal 9''"

lemma signal_tests_pass: "reap_children_returns_empty_when_no_children" "exit_reason_display"
  by code_simp+

section \<open>Configuration\<close>

text \<open>
  The parser returns the tables of the document by name; \<open>reads\<close> says that it does so for one document.
\<close>

type_synonym config_toml = "string \<Rightarrow> string + (string, raw_entry) hashmap"
type_synonym entry_order = "(string \<times> service_entry) list \<Rightarrow> (string \<times> service_entry) list"

definition valid_config :: string where
  "valid_config = doc
     [[], ''[service.egress]'', binds ''binary'' ''/system/bin/egress'', ''args = []'', ''depends_on = []'',
      binds ''restart'' ''always'', [],
      ''[service.ctxgraph]'', binds ''binary'' ''/system/bin/ctxgraph'', ''depends_on = []'', [],
      ''[service.cage]'', binds ''binary'' ''/system/bin/cage'',
      ''depends_on = ['' @ dquote ''egress'' @ '', '' @ dquote ''ctxgraph'' @ '']'', binds ''restart'' ''on-failure'']"

definition valid_tables :: "(string, raw_entry) hashmap" where
  "valid_tables =
     [(''egress'', \<lparr>raw_binary = Some ''/system/bin/egress'', raw_args = Some [], raw_depends_on = Some [],
        raw_restart = Some ''always''\<rparr>),
      (''ctxgraph'', \<lparr>raw_binary = Some ''/system/bin/ctxgraph'', raw_args = None, raw_depends_on = Some [],
        raw_restart = None\<rparr>),
      (''cage'', \<lparr>raw_binary = Some ''/system/bin/cage'', raw_args = None,
        raw_depends_on = Some [''egress'', ''ctxgraph''], raw_restart = Some ''on-failure''\<rparr>)]"

definition parse_valid_config :: "config_toml \<Rightarrow> entry_order \<Rightarrow> bool" where
  "parse_valid_config toml it =
     (case parse_config toml it valid_config of
        Inr svcs \<Rightarrow> length svcs = 3 \<and>
          (case find (\<lambda>s. name s = ''cage'') svcs of
             Some cage \<Rightarrow> depends_on cage = [''egress'', ''ctxgraph''] \<and> restart cage = OnFailure
           | None \<Rightarrow> False)
      | Inl _ \<Rightarrow> False)"

definition parse_empty_config :: "config_toml \<Rightarrow> entry_order \<Rightarrow> bool" where
  "parse_empty_config toml it = (case parse_config toml it [] of Inr svcs \<Rightarrow> svcs = [] | Inl _ \<Rightarrow> False)"

definition bad_config :: string where
  "bad_config = doc [[], ''[service.bad]'', binds ''binary'' ''/bin/bad'', binds ''restart'' ''bogus'']"

definition parse_invalid_restart_policy :: "config_toml \<Rightarrow> entry_order \<Rightarrow> bool" where
  "parse_invalid_restart_policy toml it = (case parse_config toml it bad_config of Inr _ \<Rightarrow> False | Inl _ \<Rightarrow> True)"

definition builtin_services_have_correct_deps :: bool where
  "builtin_services_have_correct_deps =
     (case find (\<lambda>s. name s = ''cage'') builtin_services of
        Some cage \<Rightarrow> ''egress'' \<in> set (depends_on cage) \<and> ''ctxgraph'' \<in> set (depends_on cage)
      | None \<Rightarrow> False)"

lemma parse_valid_config_passes:
  assumes "toml valid_config = Inr valid_tables" and "is_iter it"
  shows "parse_valid_config toml it"
proof -
  let ?e = "\<lambda>b ds r. \<lparr>e_binary = ''/system/bin/'' @ b, e_args = [], e_depends_on = ds, e_restart = r\<rparr>"
  let ?es = "[(''egress'', ?e ''egress'' [] ''always''), (''ctxgraph'', ?e ''ctxgraph'' [] ''always''),
    (''cage'', ?e ''cage'' [''egress'', ''ctxgraph''] ''on-failure'')]"
  have "parse_config toml it valid_config = to_services (it ?es)"
    using assms(1) by (simp add: parse_config_def valid_tables_def deserialize_entry_def default_restart_def)
  then show ?thesis
    using iter_three [OF assms(2), of "?es ! 0" "?es ! 1" "?es ! 2"] unfolding parse_valid_config_def
    by (elim insertE emptyE) (simp_all add: parse_restart_def)
qed

lemma parse_empty_config_passes: "toml [] = Inr [] \<Longrightarrow> is_iter it \<Longrightarrow> parse_empty_config toml it"
  by (simp add: parse_empty_config_def parse_config_def iter_none)

lemma parse_invalid_restart_policy_passes:
  assumes "toml bad_config = Inr [(''bad'', \<lparr>raw_binary = Some ''/bin/bad'', raw_args = None, raw_depends_on = None,
      raw_restart = Some ''bogus''\<rparr>)]"
    and "is_iter it"
  shows "parse_invalid_restart_policy toml it"
  using assms by (simp add: parse_invalid_restart_policy_def parse_config_def deserialize_entry_def iter_one
    parse_restart_def)

lemma builtin_services_have_correct_deps_passes: builtin_services_have_correct_deps
  by (simp add: builtin_services_have_correct_deps_def builtin_services_def builtin_service_def base_services_def)

end
