(* ===== verification/Tests_Egress.thy ===== *)
theory Tests_Egress
  imports Test_Lib Egress
begin

text \<open>
  The unit tests of \<open>pkg/egress\<close>: \<open>blocklist.rs\<close>, \<open>resolve.rs\<close> and \<open>firewall.rs\<close>. IPv4 literals go through
  the model of the parser of addresses; the parser of IPv6 text is a parameter.
\<close>

section \<open>Block list\<close>

type_synonym v6_parser = "string \<Rightarrow> 128 word option"

definition unwrap_ip :: "v6_parser \<Rightarrow> string \<Rightarrow> (ip_addr \<Rightarrow> bool) \<Rightarrow> bool" where
  "unwrap_ip p6 s P = (case parse_ip p6 s of Some ip \<Rightarrow> P ip | None \<Rightarrow> False)"

definition blocks_cloud_metadata :: "v6_parser \<Rightarrow> bool" where
  "blocks_cloud_metadata p6 = unwrap_ip p6 ''169.254.169.254'' is_blocked"

definition blocks_rfc1918_10 :: "v6_parser \<Rightarrow> bool" where
  "blocks_rfc1918_10 p6 = unwrap_ip p6 ''10.0.0.1'' is_blocked"

definition blocks_rfc1918_172 :: "v6_parser \<Rightarrow> bool" where
  "blocks_rfc1918_172 p6 \<longleftrightarrow> unwrap_ip p6 ''172.16.0.1'' is_blocked \<and> unwrap_ip p6 ''172.31.255.255'' is_blocked"

definition blocks_rfc1918_192 :: "v6_parser \<Rightarrow> bool" where
  "blocks_rfc1918_192 p6 = unwrap_ip p6 ''192.168.1.1'' is_blocked"

definition allows_public_ip :: "v6_parser \<Rightarrow> bool" where
  "allows_public_ip p6 = unwrap_ip p6 ''104.18.0.1'' (Not \<circ> is_blocked)"

definition allows_cloudflare_dns :: "v6_parser \<Rightarrow> bool" where
  "allows_cloudflare_dns p6 = unwrap_ip p6 ''1.1.1.1'' (Not \<circ> is_blocked)"

definition blocks_alibaba_metadata :: "v6_parser \<Rightarrow> bool" where
  "blocks_alibaba_metadata p6 = unwrap_ip p6 ''100.100.100.200'' is_blocked"

definition blocks_ipv6 :: "v6_parser \<Rightarrow> bool" where
  "blocks_ipv6 p6 = unwrap_ip p6 ''2001:db8::1'' is_blocked"

definition does_not_block_172_outside_range :: "v6_parser \<Rightarrow> bool" where
  "does_not_block_172_outside_range p6 = unwrap_ip p6 ''172.32.0.1'' (Not \<circ> is_blocked)"

lemma test_addresses:
  "parse_v4 ''169.254.169.254'' = Some (V4 169 254 169 254)" "parse_v4 ''10.0.0.1'' = Some (V4 10 0 0 1)"
  "parse_v4 ''172.16.0.1'' = Some (V4 172 16 0 1)" "parse_v4 ''172.31.255.255'' = Some (V4 172 31 255 255)"
  "parse_v4 ''192.168.1.1'' = Some (V4 192 168 1 1)" "parse_v4 ''104.18.0.1'' = Some (V4 104 18 0 1)"
  "parse_v4 ''104.18.0.2'' = Some (V4 104 18 0 2)" "parse_v4 ''1.1.1.1'' = Some (V4 1 1 1 1)"
  "parse_v4 ''100.100.100.200'' = Some (V4 100 100 100 200)" "parse_v4 ''172.32.0.1'' = Some (V4 172 32 0 1)"
  "parse_v4 ''2001:db8::1'' = None" "parse_v4 ''::1'' = None"
  by (simp_all add: parse_v4_def parse_octet_def is_digit_def digit_val_def)

lemma v4_tests_pass:
  "blocks_cloud_metadata p6" "blocks_rfc1918_10 p6" "blocks_rfc1918_172 p6" "blocks_rfc1918_192 p6"
  "allows_public_ip p6" "allows_cloudflare_dns p6" "blocks_alibaba_metadata p6" "does_not_block_172_outside_range p6"
  by (simp_all add: blocks_cloud_metadata_def blocks_rfc1918_10_def blocks_rfc1918_172_def blocks_rfc1918_192_def
    allows_public_ip_def allows_cloudflare_dns_def blocks_alibaba_metadata_def does_not_block_172_outside_range_def
    unwrap_ip_def parse_ip_def test_addresses)

lemma blocks_ipv6_passes: "p6 ''2001:db8::1'' = Some w \<Longrightarrow> blocks_ipv6 p6"
  by (simp add: blocks_ipv6_def unwrap_ip_def parse_ip_def test_addresses)

section \<open>Resolver\<close>

definition ip_passthrough :: "egress_env \<Rightarrow> nat \<Rightarrow> bool" where
  "ip_passthrough env n =
     (let ips = fst (resolve_domains env [''1.1.1.1''] n [])
      in unwrap_ip (ev_p6 env) ''1.1.1.1'' (\<lambda>ip. ip \<in> set ips))"

definition ipv6_passthrough :: "egress_env \<Rightarrow> nat \<Rightarrow> bool" where
  "ipv6_passthrough env n =
     (let ips = fst (resolve_domains env [''::1''] n [])
      in unwrap_ip (ev_p6 env) ''::1'' (\<lambda>ip. ip \<in> set ips))"

definition empty_list :: "egress_env \<Rightarrow> nat \<Rightarrow> bool" where
  "empty_list env n \<longleftrightarrow> fst (resolve_domains env [] n []) = []"

lemma resolver_tests_pass:
  "ip_passthrough env n" "ev_p6 env ''::1'' = Some 1 \<Longrightarrow> ipv6_passthrough env n" "empty_list env n"
  by (simp_all add: ip_passthrough_def ipv6_passthrough_def empty_list_def unwrap_ip_def parse_ip_def test_addresses
    ip_insert_def set_insort_insert)

section \<open>Rulesets\<close>

definition empty_agent_rules_produces_default_deny :: bool where
  "empty_agent_rules_produces_default_deny \<longleftrightarrow>
     (let ruleset = generate_ruleset []
      in contains_str ''policy drop'' ruleset \<and> contains_str ''flush ruleset'' ruleset \<and>
         contains_str ''169.254.169.254'' ruleset)"

definition agent_allow_rule_appears_in_output :: "v6_parser \<Rightarrow> bool" where
  "agent_allow_rule_appears_in_output p6 =
     unwrap_ip p6 ''104.18.0.1'' (\<lambda>ip.
       let ruleset = generate_ruleset
             [\<lparr>aa_name = ''researcher'', aa_tap = ''tap-researcher'', aa_ips = [ip]\<rparr>]
       in contains_str ''tap-researcher'' ruleset \<and> contains_str ''104.18.0.1'' ruleset \<and>
          contains_str ''# Agent: researcher'' ruleset)"

definition rfc1918_blocked_per_agent :: bool where
  "rfc1918_blocked_per_agent \<longleftrightarrow>
     (let ruleset = generate_ruleset [\<lparr>aa_name = ''test'', aa_tap = ''tap-test'', aa_ips = []\<rparr>]
      in contains_str ''10.0.0.0/8'' ruleset \<and> contains_str ''172.16.0.0/12'' ruleset \<and>
         contains_str ''192.168.0.0/16'' ruleset)"

definition host_output_is_allowed :: bool where
  "host_output_is_allowed \<longleftrightarrow>
     (let ruleset = generate_ruleset [] in contains_str ''chain output'' ruleset \<and> contains_str ''policy accept'' ruleset)"

definition tsi_empty_blocks_all_external :: bool where
  "tsi_empty_blocks_all_external \<longleftrightarrow>
     (let ruleset = generate_tsi_ruleset []
      in contains_str ''policy drop'' ruleset \<and> contains_str ''oif lo accept'' ruleset \<and>
         contains_str ''No agents registered'' ruleset)"

definition tsi_allows_loopback_and_dns :: bool where
  "tsi_allows_loopback_and_dns \<longleftrightarrow>
     (let ruleset = generate_tsi_ruleset []
      in contains_str ''oif lo accept'' ruleset \<and> contains_str ''udp dport 53 accept'' ruleset)"

definition tsi_agent_ips_allowed :: "v6_parser \<Rightarrow> bool" where
  "tsi_agent_ips_allowed p6 =
     unwrap_ip p6 ''104.18.0.1'' (\<lambda>ip1. unwrap_ip p6 ''104.18.0.2'' (\<lambda>ip2.
       let ruleset = generate_tsi_ruleset [\<lparr>ta_name = ''researcher'', ta_ips = ip_insert ip2 (ip_insert ip1 [])\<rparr>]
       in contains_str ''104.18.0.1'' ruleset \<and> contains_str ''104.18.0.2'' ruleset \<and>
          contains_str ''# Agent: researcher'' ruleset))"

definition tsi_blocks_cloud_metadata :: bool where
  "tsi_blocks_cloud_metadata \<longleftrightarrow>
     (let ruleset = generate_tsi_ruleset []
      in contains_str ''169.254.169.254'' ruleset \<and> contains_str ''block cloud metadata'' ruleset)"

definition tsi_blocks_private_ranges :: bool where
  "tsi_blocks_private_ranges \<longleftrightarrow>
     (let ruleset = generate_tsi_ruleset []
      in contains_str ''10.0.0.0/8'' ruleset \<and> contains_str ''172.16.0.0/12'' ruleset \<and>
         contains_str ''192.168.0.0/16'' ruleset)"

definition tsi_logs_denied_traffic :: bool where
  "tsi_logs_denied_traffic \<longleftrightarrow>
     (let ruleset = generate_tsi_ruleset []
      in contains_str ''log prefix'' ruleset \<and> contains_str ''nullbox-deny'' ruleset)"

lemma test_address_texts: "show_ip (V4 104 18 0 1) = ''104.18.0.1''" "show_ip (V4 104 18 0 2) = ''104.18.0.2''"
  by (simp_all add: show_v4_def show_nat.simps digit_chars)

text \<open>The lines of the ruleset for tap devices.\<close>

definition forward_lines :: "agent_allow_rule list \<Rightarrow> string list" where
  "forward_lines agents =
     [''flush ruleset'', [], ''table inet nullbox {'', ''  chain forward {'',
      ''    type filter hook forward priority 0; policy drop;'', [],
      ''    ct state established,related accept'', []] @
     map (\<lambda>c. ''    '' @ family_of c @ '' daddr '' @ c @ '' drop comment '' @ dq @ ''block cloud metadata'' @ dq)
       CLOUD_METADATA_CIDRS @ [[]] @
     concat (map (\<lambda>c. map (\<lambda>a. ''    iifname '' @ dq @ aa_tap a @ dq @ '' ip daddr '' @ c @ '' drop comment '' @ dq @
         ''block RFC-1918 from '' @ aa_name a @ dq) agents) RFC1918_CIDRS) @ [[]] @
     concat (map (\<lambda>a. [''    # Agent: '' @ aa_name a] @
       map (\<lambda>ip. ''    iifname '' @ dq @ aa_tap a @ dq @ '' ip daddr '' @ show_ip ip @ '' accept'') (aa_ips a) @ [[]]) agents) @
     [''  }'', [], ''  chain output {'', ''    type filter hook output priority 0; policy accept;'', ''  }'', [],
      ''  chain input {'', ''    type filter hook input priority 0; policy drop;'',
      ''    iif lo accept'', ''    ct state established,related accept'', ''  }'', ''}'']"

lemma map_concat_lines: "concat (map line (concat xss)) = concat (map (\<lambda>xs. concat (map line xs)) xss)"
  by (induction xss) simp_all

lemma generate_forward_lines: "generate_ruleset agents = concat (map line (forward_lines agents))"
  by (simp add: generate_ruleset_def forward_lines_def metadata_lines_def drop_line_def input_chain_def
    map_concat_lines comp_def line_def nl_def)

lemma contains_line: "contains_str p (line (a @ p @ b))"
  unfolding contains_iff line_def by (metis append.assoc)

text \<open>A text occurs if it is the middle of a line.\<close>

lemma in_ruleset: "a @ p @ b \<in> set (forward_lines agents) \<Longrightarrow> contains_str p (generate_ruleset agents)"
  unfolding generate_forward_lines by (rule contains_concat [where f = line, OF _ contains_line])

lemma in_tsi_ruleset: "a @ p @ b \<in> set (tsi_lines agents) \<Longrightarrow> contains_str p (generate_tsi_ruleset agents)"
  unfolding generate_tsi_lines by (rule contains_concat [where f = line, OF _ contains_line])

lemmas forward_defs = forward_lines_def CLOUD_METADATA_CIDRS_def RFC1918_CIDRS_def family_of_def
lemmas tsi_defs = tsi_lines_def body_lines_def CLOUD_METADATA_CIDRS_def RFC1918_CIDRS_def LINK_LOCAL_CIDRS_def
  family_of_def

lemma empty_agent_rules_produces_default_deny_passes: empty_agent_rules_produces_default_deny
  unfolding empty_agent_rules_produces_default_deny_def Let_def
  by (intro conjI,
    rule in_ruleset [of "''    type filter hook forward priority 0; ''" _ "'';''"],
    simp add: forward_defs,
    rule in_ruleset [of "[]" _ "[]"],
    simp add: forward_defs,
    rule in_ruleset [of "''    ip daddr ''" _ "''/32 drop comment '' @ dq @ ''block cloud metadata'' @ dq"],
    simp add: forward_defs)

lemma agent_allow_rule_appears_in_output_passes: "agent_allow_rule_appears_in_output p6"
  unfolding agent_allow_rule_appears_in_output_def Let_def unwrap_ip_def parse_ip_def test_addresses option.case
  by (intro conjI,
    rule in_ruleset [of "''    iifname '' @ dq" _ "dq @ '' ip daddr 104.18.0.1 accept''"],
    simp add: forward_defs test_address_texts del: show_ip.simps,
    rule in_ruleset [of "''    iifname '' @ dq @ ''tap-researcher'' @ dq @ '' ip daddr ''" _ "'' accept''"],
    simp add: forward_defs test_address_texts del: show_ip.simps,
    rule in_ruleset [of "''    ''" _ "[]"],
    simp add: forward_defs test_address_texts del: show_ip.simps)

lemma rfc1918_blocked_per_agent_passes: rfc1918_blocked_per_agent
  unfolding rfc1918_blocked_per_agent_def Let_def
  by (intro conjI,
    rule in_ruleset [of "''    iifname '' @ dq @ ''tap-test'' @ dq @ '' ip daddr ''" _ "'' drop comment '' @ dq @ ''block RFC-1918 from test'' @ dq"],
    simp add: forward_defs,
    rule in_ruleset [of "''    iifname '' @ dq @ ''tap-test'' @ dq @ '' ip daddr ''" _ "'' drop comment '' @ dq @ ''block RFC-1918 from test'' @ dq"],
    simp add: forward_defs,
    rule in_ruleset [of "''    iifname '' @ dq @ ''tap-test'' @ dq @ '' ip daddr ''" _ "'' drop comment '' @ dq @ ''block RFC-1918 from test'' @ dq"],
    simp add: forward_defs)

lemma host_output_is_allowed_passes: host_output_is_allowed
  unfolding host_output_is_allowed_def Let_def
  by (intro conjI,
    rule in_ruleset [of "''  ''" _ "'' {''"],
    simp add: forward_defs,
    rule in_ruleset [of "''    type filter hook output priority 0; ''" _ "'';''"],
    simp add: forward_defs)

lemma tsi_empty_blocks_all_external_passes: tsi_empty_blocks_all_external
  unfolding tsi_empty_blocks_all_external_def Let_def
  by (intro conjI,
    rule in_tsi_ruleset [of "''    type filter hook output priority 0; ''" _ "'';''"],
    simp add: tsi_defs,
    rule in_tsi_ruleset [of "''    ''" _ "[]"],
    simp add: tsi_defs,
    rule in_tsi_ruleset [of "''    # ''" _ "'' '' @ em_dash @ '' all external traffic blocked''"],
    simp add: tsi_defs)

lemma tsi_allows_loopback_and_dns_passes: tsi_allows_loopback_and_dns
  unfolding tsi_allows_loopback_and_dns_def Let_def
  by (intro conjI,
    rule in_tsi_ruleset [of "''    ''" _ "[]"],
    simp add: tsi_defs,
    rule in_tsi_ruleset [of "''    ''" _ "'' comment '' @ dq @ ''allow DNS'' @ dq"],
    simp add: tsi_defs)

lemma tsi_agent_ips_allowed_passes: "tsi_agent_ips_allowed p6"
proof -
  have s: "ip_insert (V4 104 18 0 2) (ip_insert (V4 104 18 0 1) []) = [V4 104 18 0 1, V4 104 18 0 2]"
    by (simp add: ip_insert_def insort_insert_key_def less_eq_ip_addr_def v4_num_def)
  show ?thesis
    unfolding tsi_agent_ips_allowed_def Let_def unwrap_ip_def parse_ip_def test_addresses option.case s
    by (intro conjI, rule in_tsi_ruleset [of "''    ip daddr ''" _ "'' accept comment '' @ dq @ ''allow for researcher'' @ dq"],
    simp add: tsi_defs test_address_texts del: show_ip.simps,
      rule in_tsi_ruleset [of "''    ip daddr ''" _ "'' accept comment '' @ dq @ ''allow for researcher'' @ dq"],
    simp add: tsi_defs test_address_texts del: show_ip.simps,
      rule in_tsi_ruleset [of "''    ''" _ "[]"],
    simp add: tsi_defs test_address_texts del: show_ip.simps)
qed

lemma tsi_blocks_cloud_metadata_passes: tsi_blocks_cloud_metadata
  unfolding tsi_blocks_cloud_metadata_def Let_def
  by (intro conjI,
    rule in_tsi_ruleset [of "''    ip daddr ''" _ "''/32 drop comment '' @ dq @ ''block cloud metadata'' @ dq"],
    simp add: tsi_defs,
    rule in_tsi_ruleset [of "''    ip daddr 169.254.169.254/32 drop comment '' @ dq" _ "dq"],
    simp add: tsi_defs)

lemma tsi_blocks_private_ranges_passes: tsi_blocks_private_ranges
  unfolding tsi_blocks_private_ranges_def Let_def
  by (intro conjI,
    rule in_tsi_ruleset [of "''    ip daddr ''" _ "'' drop comment '' @ dq @ ''block private ranges'' @ dq"],
    simp add: tsi_defs,
    rule in_tsi_ruleset [of "''    ip daddr ''" _ "'' drop comment '' @ dq @ ''block private ranges'' @ dq"],
    simp add: tsi_defs,
    rule in_tsi_ruleset [of "''    ip daddr ''" _ "'' drop comment '' @ dq @ ''block private ranges'' @ dq"],
    simp add: tsi_defs)

lemma tsi_logs_denied_traffic_passes: tsi_logs_denied_traffic
  unfolding tsi_logs_denied_traffic_def Let_def
  by (intro conjI,
    rule in_tsi_ruleset [of "''    ''" _ "'' '' @ dq @ ''nullbox-deny: '' @ dq @ '' drop''"],
    simp add: tsi_defs,
    rule in_tsi_ruleset [of "''    log prefix '' @ dq" _ "'': '' @ dq @ '' drop''"],
    simp add: tsi_defs)

end
