(* ===== verification/Tests_Manifest.thy ===== *)
theory Tests_Manifest
  imports Test_Lib
begin

text \<open>
  The unit tests of \<open>pkg/cage/src/manifest.rs\<close>. The TOML parser \<open>toml\<close> is a parameter; a test passes with
  every parser that reads its document as the value given beside it.
\<close>

section \<open>Documents and values\<close>

type_synonym toml_parser = "string \<Rightarrow> string + json"

definition unwrap_manifest ::
    "toml_parser \<Rightarrow> (string \<Rightarrow> string) \<Rightarrow> string \<Rightarrow> (agent_manifest \<Rightarrow> bool) \<Rightarrow> bool" where
  "unwrap_manifest toml err text' P = (case parse_manifest toml err text' of Inr m \<Rightarrow> P m | Inl _ \<Rightarrow> False)"

definition rejects :: "toml_parser \<Rightarrow> (string \<Rightarrow> string) \<Rightarrow> string \<Rightarrow> bool" where
  "rejects toml err text' = (case parse_manifest toml err text' of Inr _ \<Rightarrow> False | Inl _ \<Rightarrow> True)"

text \<open>A document with the table \<open>agent\<close> and further lines, and its value.\<close>

definition agent_lines_of :: "string \<Rightarrow> string list \<Rightarrow> string list" where
  "agent_lines_of n ls = [''[agent]'', binds ''name'' n] @ ls"

definition agent_doc :: "string \<Rightarrow> string list \<Rightarrow> string" where
  "agent_doc n ls = doc ([] # agent_lines_of n ls)"

definition agent_value :: "string \<Rightarrow> (string \<times> json) list \<Rightarrow> json" where
  "agent_value n ms = JObj ((''agent'', JObj [(''name'', JStr n)]) # ms)"

definition VALID_MANIFEST :: string where
  "VALID_MANIFEST = agent_doc ''researcher''
     [binds ''version'' ''1.2.0'', [],
      ''[capabilities]'', ''shell = false'',
      ''credential_refs = ['' @ dquote ''OPENAI_KEY'' @ '', '' @ dquote ''EXA_KEY'' @ '']'',
      binds ''accelerator'' ''none'', ''max_cpu_percent = 40'', ''max_memory_mb = 512'',
      ''max_api_calls_per_hour = 200'', [],
      ''[capabilities.network]'',
      ''allow = ['' @ dquote ''api.perplexity.ai'' @ '', '' @ dquote ''api.exa.ai'' @ '', '' @ dquote ''api.openai.com'' @ '']'',
      [], ''[capabilities.filesystem]'', ''read = ['' @ dquote ''/data/research'' @ '']'',
      ''write = ['' @ dquote ''/data/research/output'' @ '']'', [],
      ''[tools]'',
      ''send_email = { risk = '' @ dquote ''low'' @ '' }'', ''read_files = { risk = '' @ dquote ''low'' @ '' }'',
      ''write_files = { risk = '' @ dquote ''medium'' @ '' }'', ''delete_files = { risk = '' @ dquote ''critical'' @ '' }'',
      ''execute_payment = { risk = '' @ dquote ''critical'' @ '' }'']"

definition valid_value :: json where
  "valid_value = JObj
     [(''agent'', JObj [(''name'', JStr ''researcher''), (''version'', JStr ''1.2.0'')]),
      (''capabilities'', JObj
        [(''shell'', JBool False), (''credential_refs'', strs [''OPENAI_KEY'', ''EXA_KEY'']),
         (''accelerator'', JStr ''none''), (''max_cpu_percent'', JNum 40), (''max_memory_mb'', JNum 512),
         (''max_api_calls_per_hour'', JNum 200),
         (''network'', JObj [(''allow'', strs [''api.perplexity.ai'', ''api.exa.ai'', ''api.openai.com''])]),
         (''filesystem'', JObj [(''read'', strs [''/data/research'']), (''write'', strs [''/data/research/output''])])]),
      (''tools'', JObj
        [(''send_email'', JObj [(''risk'', JStr ''low'')]), (''read_files'', JObj [(''risk'', JStr ''low'')]),
         (''write_files'', JObj [(''risk'', JStr ''medium'')]), (''delete_files'', JObj [(''risk'', JStr ''critical'')]),
         (''execute_payment'', JObj [(''risk'', JStr ''critical'')])])]"

definition health_doc :: "string list \<Rightarrow> string" where
  "health_doc ls = agent_doc ''healthy'' ([[], ''[capabilities.health_check]''] @ ls)"

definition health_value :: "(string \<times> json) list \<Rightarrow> json" where
  "health_value ms = agent_value ''healthy'' [(''capabilities'', JObj [(''health_check'', JObj ms)])]"

section \<open>Tests\<close>

definition parse_full_manifest :: "toml_parser \<Rightarrow> (string \<Rightarrow> string) \<Rightarrow> bool" where
  "parse_full_manifest toml err = unwrap_manifest toml err VALID_MANIFEST (\<lambda>m.
     am_name (mf_agent m) = ''researcher'' \<and> am_version (mf_agent m) = ''1.2.0'' \<and>
     length (nc_allow (cp_network (mf_capabilities m))) = 3 \<and> cp_max_memory_mb (mf_capabilities m) = 512 \<and>
     \<not> cp_shell (mf_capabilities m) \<and> length (mf_tools m) = 5 \<and>
     map_of (mf_tools m) ''delete_files'' = Some Critical)"

definition parse_minimal_manifest :: "toml_parser \<Rightarrow> (string \<Rightarrow> string) \<Rightarrow> bool" where
  "parse_minimal_manifest toml err = unwrap_manifest toml err (agent_doc ''minimal'' []) (\<lambda>m.
     am_name (mf_agent m) = ''minimal'' \<and> cp_max_cpu_percent (mf_capabilities m) = 25 \<and>
     cp_max_memory_mb (mf_capabilities m) = 256)"

definition reject_empty_name :: "toml_parser \<Rightarrow> (string \<Rightarrow> string) \<Rightarrow> bool" where
  "reject_empty_name toml err = rejects toml err (agent_doc [] [])"

definition reject_cpu_over_100 :: "toml_parser \<Rightarrow> (string \<Rightarrow> string) \<Rightarrow> bool" where
  "reject_cpu_over_100 toml err =
     rejects toml err (agent_doc ''bad'' [[], ''[capabilities]'', ''max_cpu_percent = 150''])"

definition reject_relative_filesystem_path :: "toml_parser \<Rightarrow> (string \<Rightarrow> string) \<Rightarrow> bool" where
  "reject_relative_filesystem_path toml err =
     rejects toml err (agent_doc ''bad''
       [[], ''[capabilities.filesystem]'', ''read = ['' @ dquote ''relative/path'' @ '']''])"

definition parse_runtime_python :: "toml_parser \<Rightarrow> (string \<Rightarrow> string) \<Rightarrow> bool" where
  "parse_runtime_python toml err =
     unwrap_manifest toml err (agent_doc ''py-agent'' [binds ''runtime'' ''python''])
       (\<lambda>m. am_runtime (mf_agent m) = Python)"

definition default_runtime_is_binary :: "toml_parser \<Rightarrow> (string \<Rightarrow> string) \<Rightarrow> bool" where
  "default_runtime_is_binary toml err =
     unwrap_manifest toml err (agent_doc ''bin-agent'' []) (\<lambda>m. am_runtime (mf_agent m) = Binary)"

definition parse_health_check :: "toml_parser \<Rightarrow> (string \<Rightarrow> string) \<Rightarrow> bool" where
  "parse_health_check toml err =
     unwrap_manifest toml err
       (health_doc [''port = 8080'', binds ''path'' ''/healthz'', ''interval_secs = 10'', ''max_failures = 5''])
       (\<lambda>m. cp_health_check (mf_capabilities m) =
          Some \<lparr>hc_port = 8080, hc_path = ''/healthz'', hc_interval_secs = 10, hc_max_failures = 5\<rparr>)"

definition health_check_defaults :: "toml_parser \<Rightarrow> (string \<Rightarrow> string) \<Rightarrow> bool" where
  "health_check_defaults toml err =
     unwrap_manifest toml err (health_doc [''port = 3000''])
       (\<lambda>m. cp_health_check (mf_capabilities m) =
          Some \<lparr>hc_port = 3000, hc_path = ''/health'', hc_interval_secs = 30, hc_max_failures = 3\<rparr>)"

definition reject_invalid_domain :: "toml_parser \<Rightarrow> (string \<Rightarrow> string) \<Rightarrow> bool" where
  "reject_invalid_domain toml err =
     rejects toml err (agent_doc ''bad''
       [[], ''[capabilities.network]'', ''allow = ['' @ dquote ''valid.com'' @ '', '' @ dquote ''has space'' @ '']''])"

section \<open>They pass\<close>

lemmas de_defs = de_manifest_def de_agent_meta_def de_capabilities_def de_network_def de_filesystem_def de_tools_def
  de_tool_def de_risk_def de_runtime_def de_health_check_def de_option_def de_u8_def de_u16_def de_u32_def
  struct_fields_def required_def defaulted_def capability_names_def
  default_capabilities_def default_version_def default_runtime_def default_accelerator_def default_cpu_def
  default_memory_def default_health_path_def default_health_interval_def default_health_failures_def

text \<open>What a document that is read as \<open>v\<close> gives, for a value that deserializes to \<open>m\<close>.\<close>

lemma unwrap_manifest_iff:
  assumes "toml d = Inr v" and "de_manifest v = Some m"
  shows "unwrap_manifest toml err d P \<longleftrightarrow> validate m = Inr () \<and> P m"
    and "rejects toml err d \<longleftrightarrow> validate m \<noteq> Inr ()"
  using assms validate_cases [of m]
  by (auto simp: unwrap_manifest_def rejects_def parse_manifest_def)

definition agent_manifest_of :: "string \<Rightarrow> capabilities \<Rightarrow> agent_manifest" where
  "agent_manifest_of n c =
     \<lparr>mf_agent = \<lparr>am_name = n, am_version = ''0.0.0'', am_runtime = Binary\<rparr>, mf_capabilities = c, mf_tools = []\<rparr>"

lemma de_minimal: "de_manifest (agent_value n []) = Some (agent_manifest_of n default_capabilities)"
  by (simp add: agent_value_def agent_manifest_of_def de_defs)

lemma de_with_capabilities:
  "de_capabilities v = Some c \<Longrightarrow> de_manifest (agent_value n [(''capabilities'', v)]) = Some (agent_manifest_of n c)"
  by (simp add: agent_value_def agent_manifest_of_def de_manifest_def de_agent_meta_def struct_fields_def required_def
    defaulted_def default_version_def default_runtime_def)

lemmas name_defs = valid_name_def name_char_def is_ascii_alphanumeric_def byte_def

lemma parse_minimal_manifest_passes:
  "toml (agent_doc ''minimal'' []) = Inr (agent_value ''minimal'' []) \<Longrightarrow> parse_minimal_manifest toml err"
  unfolding parse_minimal_manifest_def
  by (subst unwrap_manifest_iff [where toml = toml, OF _ de_minimal], assumption)
    (simp add: validate_iff agent_manifest_of_def default_capabilities_def default_cpu_def default_memory_def name_defs)

lemma parse_full_manifest_passes:
  assumes "toml VALID_MANIFEST = Inr valid_value"
  shows "parse_full_manifest toml err"
proof -
  let ?c = "\<lparr>cp_network = \<lparr>nc_allow = [''api.perplexity.ai'', ''api.exa.ai'', ''api.openai.com'']\<rparr>,
      cp_filesystem = \<lparr>fc_read = [''/data/research''], fc_write = [''/data/research/output'']\<rparr>, cp_shell = False,
      cp_credential_refs = [''OPENAI_KEY'', ''EXA_KEY''], cp_accelerator = ''none'', cp_max_cpu_percent = 40,
      cp_max_memory_mb = 512, cp_max_api_calls_per_hour = 200, cp_health_check = None\<rparr>"
  let ?m = "\<lparr>mf_agent = \<lparr>am_name = ''researcher'', am_version = ''1.2.0'', am_runtime = Binary\<rparr>, mf_capabilities = ?c,
      mf_tools = [(''send_email'', Low), (''read_files'', Low), (''write_files'', Medium),
        (''delete_files'', Critical), (''execute_payment'', Critical)]\<rparr>"
  have "de_manifest valid_value = Some ?m" by (simp add: valid_value_def de_defs)
  moreover have "validate ?m = Inr ()" by (simp add: validate_iff name_defs starts_with_def)
  ultimately show ?thesis unfolding parse_full_manifest_def by (simp add: unwrap_manifest_iff [where toml = toml, OF assms])
qed

lemma reject_empty_name_passes:
  "toml (agent_doc [] []) = Inr (agent_value [] []) \<Longrightarrow> reject_empty_name toml err"
  by (simp add: reject_empty_name_def unwrap_manifest_iff(2) [where toml = toml, OF _ de_minimal] validate_iff agent_manifest_of_def
    valid_name_def)

lemma reject_cpu_over_100_passes:
  assumes "toml (agent_doc ''bad'' [[], ''[capabilities]'', ''max_cpu_percent = 150'']) =
    Inr (agent_value ''bad'' [(''capabilities'', JObj [(''max_cpu_percent'', JNum 150)])])"
  shows "reject_cpu_over_100 toml err"
proof -
  have "de_capabilities (JObj [(''max_cpu_percent'', JNum 150)]) = Some (default_capabilities\<lparr>cp_max_cpu_percent := 150\<rparr>)"
    by (simp add: de_defs)
  from unwrap_manifest_iff(2) [where toml = toml, OF assms de_with_capabilities [OF this]] show ?thesis
    by (simp add: reject_cpu_over_100_def validate_iff agent_manifest_of_def)
qed

lemma reject_relative_filesystem_path_passes:
  assumes "toml (agent_doc ''bad'' [[], ''[capabilities.filesystem]'', ''read = ['' @ dquote ''relative/path'' @ '']'']) =
    Inr (agent_value ''bad'' [(''capabilities'', JObj [(''filesystem'', JObj [(''read'', strs [''relative/path''])])])])"
  shows "reject_relative_filesystem_path toml err"
proof -
  have "de_capabilities (JObj [(''filesystem'', JObj [(''read'', strs [''relative/path''])])]) =
      Some (default_capabilities\<lparr>cp_filesystem := \<lparr>fc_read = [''relative/path''], fc_write = []\<rparr>\<rparr>)"
    by (simp add: de_defs)
  from unwrap_manifest_iff(2) [where toml = toml, OF assms de_with_capabilities [OF this]] show ?thesis
    by (simp add: reject_relative_filesystem_path_def validate_iff agent_manifest_of_def starts_with_def)
qed

lemma reject_invalid_domain_passes:
  assumes "toml (agent_doc ''bad'' [[], ''[capabilities.network]'',
      ''allow = ['' @ dquote ''valid.com'' @ '', '' @ dquote ''has space'' @ '']'']) =
    Inr (agent_value ''bad'' [(''capabilities'', JObj [(''network'', JObj [(''allow'', strs [''valid.com'', ''has space''])])])])"
  shows "reject_invalid_domain toml err"
proof -
  have "de_capabilities (JObj [(''network'', JObj [(''allow'', strs [''valid.com'', ''has space''])])]) =
      Some (default_capabilities\<lparr>cp_network := \<lparr>nc_allow = [''valid.com'', ''has space'']\<rparr>\<rparr>)"
    by (simp add: de_defs)
  from unwrap_manifest_iff(2) [where toml = toml, OF assms de_with_capabilities [OF this]] show ?thesis
    by (simp add: reject_invalid_domain_def validate_iff agent_manifest_of_def)
qed

lemma parse_runtime_python_passes:
  assumes "toml (agent_doc ''py-agent'' [binds ''runtime'' ''python'']) =
    Inr (JObj [(''agent'', JObj [(''name'', JStr ''py-agent''), (''runtime'', JStr ''python'')])])"
  shows "parse_runtime_python toml err"
proof -
  let ?m = "\<lparr>mf_agent = \<lparr>am_name = ''py-agent'', am_version = ''0.0.0'', am_runtime = Python\<rparr>,
    mf_capabilities = default_capabilities, mf_tools = []\<rparr>"
  have "de_manifest (JObj [(''agent'', JObj [(''name'', JStr ''py-agent''), (''runtime'', JStr ''python'')])]) = Some ?m"
    by (simp add: de_defs)
  moreover have "validate ?m = Inr ()"
    by (simp add: validate_iff default_capabilities_def default_cpu_def default_memory_def name_defs)
  ultimately show ?thesis unfolding parse_runtime_python_def by (simp add: unwrap_manifest_iff [where toml = toml, OF assms])
qed

lemma default_runtime_is_binary_passes:
  "toml (agent_doc ''bin-agent'' []) = Inr (agent_value ''bin-agent'' []) \<Longrightarrow> default_runtime_is_binary toml err"
  unfolding default_runtime_is_binary_def
  by (subst unwrap_manifest_iff [where toml = toml, OF _ de_minimal], assumption)
    (simp add: validate_iff agent_manifest_of_def default_capabilities_def default_cpu_def default_memory_def name_defs)

text \<open>The health check of the capabilities.\<close>

lemma unwrap_health:
  assumes "toml d = Inr (health_value ms)" and "de_health_check (JObj ms) = Some hc"
  shows "unwrap_manifest toml err d P \<longleftrightarrow>
    P (agent_manifest_of ''healthy'' (default_capabilities\<lparr>cp_health_check := Some hc\<rparr>))"
proof -
  have "de_capabilities (JObj [(''health_check'', JObj ms)]) = Some (default_capabilities\<lparr>cp_health_check := Some hc\<rparr>)"
    using assms(2) by (simp add: de_capabilities_def de_option_def struct_fields_def defaulted_def capability_names_def
      default_capabilities_def)
  from unwrap_manifest_iff(1) [where toml = toml, OF assms(1) [unfolded health_value_def] de_with_capabilities [OF this]] show ?thesis
    by (simp add: validate_iff agent_manifest_of_def default_capabilities_def default_cpu_def default_memory_def name_defs)
qed

lemma parse_health_check_passes:
  assumes "toml (health_doc [''port = 8080'', binds ''path'' ''/healthz'', ''interval_secs = 10'', ''max_failures = 5'']) =
    Inr (health_value [(''port'', JNum 8080), (''path'', JStr ''/healthz''), (''interval_secs'', JNum 10),
      (''max_failures'', JNum 5)])"
  shows "parse_health_check toml err"
  unfolding parse_health_check_def
  by (subst unwrap_health [where toml = toml, OF assms]) (simp_all add: de_defs agent_manifest_of_def)

lemma health_check_defaults_passes:
  assumes "toml (health_doc [''port = 3000'']) = Inr (health_value [(''port'', JNum 3000)])"
  shows "health_check_defaults toml err"
  unfolding health_check_defaults_def
  by (subst unwrap_health [where toml = toml, OF assms]) (simp_all add: de_defs agent_manifest_of_def)

end
