(* ===== verification/Tests_Cage.thy ===== *)
theory Tests_Cage
  imports Tests_Manifest Cage
begin

text \<open>
  The unit tests of \<open>krun.rs\<close>, \<open>vm.rs\<close>, \<open>seccomp.rs\<close> and \<open>fs_sandbox.rs\<close> of \<open>pkg/cage\<close>. The JSON parser and
  printer and the TOML parser are parameters, as is the order of the hash map of VMs; system calls have
  their x86_64 numbers.
\<close>

section \<open>VM configuration\<close>

definition round_config :: vm_config where
  "round_config =
     \<lparr>vc_name = ''test'', vc_vcpus = 2, vc_ram_mib = 512, vc_root_path = ''/rootfs'', vc_exec_path = ''/agent/bin/test'',
      vc_args = [], vc_env = [''FOO=bar''], vc_port_map = [], vc_workdir = ''/'',
      vc_virtiofs = [\<lparr>vm_tag = ''data_research'', vm_host_path = ''/var/lib/cage/test/data/research''\<rparr>],
      vc_rlimits = [''RLIMIT_AS=536870912:536870912'', ''RLIMIT_NPROC=64:64''],
      vc_console = Some ''/var/log/cage/test.log'', vc_manifest = None\<rparr>"

definition unwrap_config :: "(string \<Rightarrow> string + json) \<Rightarrow> string \<Rightarrow> (vm_config \<Rightarrow> bool) \<Rightarrow> bool" where
  "unwrap_config parse s P =
     (case parse s of Inl _ \<Rightarrow> False | Inr v \<Rightarrow> (case de_vm_config v of None \<Rightarrow> False | Some c \<Rightarrow> P c))"

definition vmconfig_roundtrip_with_new_fields ::
    "(json \<Rightarrow> string + string) \<Rightarrow> (string \<Rightarrow> string + json) \<Rightarrow> bool" where
  "vmconfig_roundtrip_with_new_fields print parse =
     (case print (vm_config_json round_config) of
        Inl _ \<Rightarrow> False
      | Inr json \<Rightarrow> unwrap_config parse json (\<lambda>c.
          vc_name c = ''test'' \<and> length (vc_virtiofs c) = 1 \<and> vm_tag (vc_virtiofs c ! 0) = ''data_research'' \<and>
          length (vc_rlimits c) = 2 \<and> vc_console c = Some ''/var/log/cage/test.log''))"

definition old_config :: string where
  "old_config =
     (let m = (\<lambda>k v. replicate 12 (CHR '' '') @ dquote k @ '': '' @ v)
      in join [CHR 10]
        [''{'', m ''name'' (dquote ''old'') @ '','', m ''vcpus'' ''1,'', m ''ram_mib'' ''256,'',
         m ''root_path'' (dquote ''/rootfs'') @ '','', m ''exec_path'' (dquote ''/bin/agent'') @ '','',
         m ''args'' ''[],'', m ''env'' ''[],'', m ''port_map'' ''[],'', m ''workdir'' (dquote ''/''),
         replicate 8 (CHR '' '') @ ''}''])"

definition old_value :: json where
  "old_value = JObj
     [(''name'', JStr ''old''), (''vcpus'', JNum 1), (''ram_mib'', JNum 256), (''root_path'', JStr ''/rootfs''),
      (''exec_path'', JStr ''/bin/agent''), (''args'', JArr []), (''env'', JArr []), (''port_map'', JArr []),
      (''workdir'', JStr ''/'')]"

definition vmconfig_backwards_compatible :: "(string \<Rightarrow> string + json) \<Rightarrow> bool" where
  "vmconfig_backwards_compatible parse =
     unwrap_config parse old_config
       (\<lambda>c. vc_virtiofs c = [] \<and> vc_rlimits c = [] \<and> vc_console c = None \<and> vc_manifest c = None)"

definition path_to_tag_sanitization :: bool where
  "path_to_tag_sanitization \<longleftrightarrow>
     path_to_virtiofs_tag ''/data/research'' = ''data_research'' \<and>
     path_to_virtiofs_tag ''/var/lib/my-data'' = ''var_lib_my_data'' \<and>
     path_to_virtiofs_tag ''/data'' = ''data'' \<and>
     path_to_virtiofs_tag ''/data/.hidden/output'' = ''data__hidden_output''"

lemma vmconfig_roundtrip_with_new_fields_passes:
  assumes "print (vm_config_json round_config) = Inr s" and "parse s = Inr (vm_config_json round_config)"
  shows "vmconfig_roundtrip_with_new_fields print parse"
  using assms by (simp add: vmconfig_roundtrip_with_new_fields_def unwrap_config_def de_vm_config_json)
    (simp add: round_config_def)

lemma vmconfig_backwards_compatible_passes: "parse old_config = Inr old_value \<Longrightarrow> vmconfig_backwards_compatible parse"
  by (simp add: vmconfig_backwards_compatible_def unwrap_config_def old_value_def de_vm_config_def vm_config_names_def
    struct_fields_def required_def defaulted_def de_strings_def de_u8_def de_u32_def)

lemma path_to_tag_sanitization_passes: path_to_tag_sanitization
  by code_simp

section \<open>VM manager\<close>

text \<open>A manifest in a raw string: an agent with further lines.\<close>

definition raw_doc :: "string \<Rightarrow> string list \<Rightarrow> string" where
  "raw_doc n ls = indented (agent_lines_of n ls)"

definition memory_doc :: "string \<Rightarrow> string \<Rightarrow> string" where
  "memory_doc n mb = raw_doc n [[], ''[capabilities]'', ''max_memory_mb = '' @ mb]"

definition rlimits_from_manifest :: "toml_parser \<Rightarrow> (string \<Rightarrow> string) \<Rightarrow> bool" where
  "rlimits_from_manifest toml err =
     unwrap_manifest toml err (memory_doc ''test'' ''512'') (\<lambda>m.
       let rlimits = build_rlimits m
       in length rlimits = 2 \<and> rlimits ! 0 = ''RLIMIT_AS=536870912:536870912'' \<and> rlimits ! 1 = ''RLIMIT_NPROC=64:64'')"

definition rlimits_minimum_memory :: "toml_parser \<Rightarrow> (string \<Rightarrow> string) \<Rightarrow> bool" where
  "rlimits_minimum_memory toml err =
     unwrap_manifest toml err (memory_doc ''tiny'' ''64'')
       (\<lambda>m. build_rlimits m ! 0 = ''RLIMIT_AS=67108864:67108864'')"

definition files_doc :: "string \<Rightarrow> string" where
  "files_doc n = raw_doc n
     [[], ''[capabilities.filesystem]'', ''read = ['' @ dquote ''/data/corpus'' @ '']'',
      ''write = ['' @ dquote ''/data/output'' @ '']'']"

definition virtiofs_mounts_from_manifest :: "toml_parser \<Rightarrow> (string \<Rightarrow> string) \<Rightarrow> bool" where
  "virtiofs_mounts_from_manifest toml err =
     unwrap_manifest toml err (files_doc ''researcher'') (\<lambda>m.
       let mounts = build_virtiofs_mounts ''researcher'' (cp_filesystem (mf_capabilities m))
       in length mounts = 2 \<and> vm_tag (mounts ! 0) = ''data_corpus_ro'' \<and>
          vm_host_path (mounts ! 0) = ''/var/lib/cage/researcher/data/corpus'' \<and>
          vm_tag (mounts ! 1) = ''data_output_rw'' \<and>
          vm_host_path (mounts ! 1) = ''/var/lib/cage/researcher/data/output'')"

definition should_restart_logic :: bool where
  "should_restart_logic \<longleftrightarrow> vm_should_restart 1 \<and> vm_should_restart 137 \<and> \<not> vm_should_restart 0"

definition handle_exit_returns_status :: "vm_os \<Rightarrow> bool" where
  "handle_exit_returns_status os =
     (let mgr = new_vm_manager ''/tmp/rootfs'';
          vm = \<lparr>rv_agent_name = ''test'', rv_pid = 1234, rv_vcpus = 1, rv_ram_mib = 256, rv_health = None\<rparr>
      in case handle_exit os 1234 137 (mgr\<lparr>vmm_vms := AList.update ''test'' vm (vmm_vms mgr)\<rparr>) of
           (Some r, mgr') \<Rightarrow> ve_agent_name r = ''test'' \<and> ve_exit_status r = 137 \<and> list_vms os mgr' = []
         | (None, _) \<Rightarrow> False)"

definition handle_exit_unknown_pid :: "vm_os \<Rightarrow> bool" where
  "handle_exit_unknown_pid os \<longleftrightarrow> fst (handle_exit os 9999 0 (new_vm_manager ''/tmp/rootfs'')) = None"

lemma unwrap_capabilities:
  assumes "toml d = Inr (agent_value n [(''capabilities'', v)])" and "de_capabilities v = Some c"
    and "validate (agent_manifest_of n c) = Inr ()"
  shows "unwrap_manifest toml err d P \<longleftrightarrow> P (agent_manifest_of n c)"
  using unwrap_manifest_iff(1) [where toml = toml, OF assms(1) de_with_capabilities [OF assms(2)]] assms(3) by simp

lemmas valid_defs = validate_iff agent_manifest_of_def default_capabilities_def default_cpu_def default_memory_def
  name_defs starts_with_def

lemma rlimits_from_manifest_passes:
  assumes "toml (memory_doc ''test'' ''512'') = Inr (agent_value ''test'' [(''capabilities'', JObj [(''max_memory_mb'', JNum 512)])])"
  shows "rlimits_from_manifest toml err"
  unfolding rlimits_from_manifest_def
  by (subst unwrap_capabilities [where toml = toml, OF assms, of "default_capabilities\<lparr>cp_max_memory_mb := 512\<rparr>"])
    (simp_all add: de_defs valid_defs build_rlimits_def show_nat.simps digit_chars)

lemma rlimits_minimum_memory_passes:
  assumes "toml (memory_doc ''tiny'' ''64'') = Inr (agent_value ''tiny'' [(''capabilities'', JObj [(''max_memory_mb'', JNum 64)])])"
  shows "rlimits_minimum_memory toml err"
  unfolding rlimits_minimum_memory_def
  by (subst unwrap_capabilities [where toml = toml, OF assms, of "default_capabilities\<lparr>cp_max_memory_mb := 64\<rparr>"])
    (simp_all add: de_defs valid_defs build_rlimits_def show_nat.simps digit_chars)

definition files_value :: "string \<Rightarrow> json" where
  "files_value n = agent_value n [(''capabilities'', JObj [(''filesystem'',
     JObj [(''read'', strs [''/data/corpus'']), (''write'', strs [''/data/output''])])])]"

definition files_capabilities :: capabilities where
  "files_capabilities = default_capabilities\<lparr>cp_filesystem := \<lparr>fc_read = [''/data/corpus''], fc_write = [''/data/output'']\<rparr>\<rparr>"

lemma unwrap_files:
  assumes "toml (files_doc n) = Inr (files_value n)" and "valid_name n"
  shows "unwrap_manifest toml err (files_doc n) P \<longleftrightarrow> P (agent_manifest_of n files_capabilities)"
  using assms(2)
  by (subst unwrap_capabilities [where toml = toml, OF assms(1) [unfolded files_value_def], of files_capabilities])
    (simp_all add: files_capabilities_def de_defs validate_iff agent_manifest_of_def starts_with_def)

lemma virtiofs_mounts_from_manifest_passes:
  "toml (files_doc ''researcher'') = Inr (files_value ''researcher'') \<Longrightarrow> virtiofs_mounts_from_manifest toml err"
  unfolding virtiofs_mounts_from_manifest_def
  by (subst unwrap_files)
    (simp_all add: name_defs agent_manifest_of_def files_capabilities_def build_virtiofs_mounts_def
      path_to_virtiofs_tag_def)

lemma should_restart_logic_passes: should_restart_logic
  by (simp add: should_restart_logic_def vm_should_restart_def)

lemma handle_exit_tests_pass:
  assumes "is_iter (vo_it_vms os)"
  shows "handle_exit_returns_status os" and "handle_exit_unknown_pid os"
  using assms by (simp_all add: handle_exit_returns_status_def handle_exit_unknown_pid_def handle_exit_def
    new_vm_manager_def list_vms_def iter_one iter_none)

section \<open>Syscall profiles\<close>

definition allows_call :: "agent_manifest \<Rightarrow> string \<Rightarrow> bool" where
  "allows_call m s \<longleftrightarrow> x86_64_sysno s \<in> set (build_profile x86_64_sysno m)"

definition test_base_profile_has_core_syscalls :: "toml_parser \<Rightarrow> (string \<Rightarrow> string) \<Rightarrow> bool" where
  "test_base_profile_has_core_syscalls toml err =
     unwrap_manifest toml err (raw_doc ''basic'' []) (\<lambda>m.
       list_all (allows_call m) [''read'', ''write'', ''close'', ''mmap'', ''exit_group'', ''futex'', ''getrandom''])"

definition test_no_shell_excludes_execve :: "toml_parser \<Rightarrow> (string \<Rightarrow> string) \<Rightarrow> bool" where
  "test_no_shell_excludes_execve toml err =
     unwrap_manifest toml err (raw_doc ''no-shell'' [[], ''[capabilities]'', ''shell = false'']) (\<lambda>m.
       list_all (\<lambda>s. \<not> allows_call m s) [''execve'', ''execveat'', ''fork'', ''vfork'', ''clone''])"

definition test_no_network_excludes_socket :: "toml_parser \<Rightarrow> (string \<Rightarrow> string) \<Rightarrow> bool" where
  "test_no_network_excludes_socket toml err =
     unwrap_manifest toml err (raw_doc ''isolated'' []) (\<lambda>m.
       list_all (\<lambda>s. \<not> allows_call m s)
         [''socket'', ''connect'', ''bind'', ''listen'', ''accept4'', ''sendto'', ''recvfrom''])"

definition full_doc :: string where
  "full_doc = raw_doc ''full''
     [[], ''[capabilities]'', ''shell = true'', [],
      ''[capabilities.network]'', ''allow = ['' @ dquote ''api.openai.com'' @ '']'', [],
      ''[capabilities.filesystem]'', ''read = ['' @ dquote ''/data'' @ '']'', ''write = ['' @ dquote ''/output'' @ '']'']"

definition full_value :: json where
  "full_value = agent_value ''full'' [(''capabilities'', JObj
     [(''shell'', JBool True), (''network'', JObj [(''allow'', strs [''api.openai.com''])]),
      (''filesystem'', JObj [(''read'', strs [''/data'']), (''write'', strs [''/output''])])])]"

definition test_full_capabilities :: "toml_parser \<Rightarrow> (string \<Rightarrow> string) \<Rightarrow> bool" where
  "test_full_capabilities toml err =
     unwrap_manifest toml err full_doc (\<lambda>m.
       list_all (allows_call m) [''execve'', ''fork'', ''socket'', ''connect'', ''read'', ''write''])"

definition unwrap_bpf :: "seccomp_error + sock_filter list \<Rightarrow> (sock_filter list \<Rightarrow> bool) \<Rightarrow> bool" where
  "unwrap_bpf r P = (case r of Inl _ \<Rightarrow> False | Inr prog \<Rightarrow> P prog)"

definition test_bpf_assembly_structure :: "toml_parser \<Rightarrow> (string \<Rightarrow> string) \<Rightarrow> bool" where
  "test_bpf_assembly_structure toml err =
     unwrap_manifest toml err (raw_doc ''test'' []) (\<lambda>m.
       let profile = build_profile x86_64_sysno m
       in unwrap_bpf (assemble_bpf profile True) (\<lambda>prog.
            sf_code (prog ! 0) = BPF_LD OR BPF_W OR BPF_ABS \<and> sf_k (prog ! 0) = SECCOMP_DATA_NR_OFFSET \<and>
            prog \<noteq> [] \<and> sf_code (last prog) = BPF_RET OR BPF_K \<and> sf_k (last prog) = SECCOMP_RET_ALLOW \<and>
            sf_code (prog ! (length prog - 2)) = BPF_RET OR BPF_K \<and>
            sf_k (prog ! (length prog - 2)) = SECCOMP_RET_KILL_PROCESS \<and>
            length prog = 1 + length profile + 2))"

definition test_bpf_audit_mode :: "toml_parser \<Rightarrow> (string \<Rightarrow> string) \<Rightarrow> bool" where
  "test_bpf_audit_mode toml err =
     unwrap_manifest toml err (raw_doc ''audit'' []) (\<lambda>m.
       unwrap_bpf (assemble_bpf (build_profile x86_64_sysno m) False) (\<lambda>prog.
         sf_k (prog ! (length prog - 2)) = SECCOMP_RET_LOG))"

lemma allows_call_iff:
  assumes "s \<in> set (VMM_BASE @ NETWORK_SYSCALLS @ SHELL_SYSCALLS)"
  shows "allows_call m s \<longleftrightarrow>
    s \<in> set VMM_BASE \<or> cp_shell (mf_capabilities m) \<and> s \<in> set SHELL_SYSCALLS \<or>
    nc_allow (cp_network (mf_capabilities m)) \<noteq> [] \<and> s \<in> set NETWORK_SYSCALLS"
  unfolding allows_call_def profile_set using assms
  by (subst inj_on_image_mem_iff [OF x86_64_inj]) (auto split: if_splits)

lemmas syscall_names = VMM_BASE_def NETWORK_SYSCALLS_def SHELL_SYSCALLS_def

lemma unwrap_minimal:
  assumes "toml (raw_doc n []) = Inr (agent_value n [])" and "valid_name n"
  shows "unwrap_manifest toml err (raw_doc n []) P \<longleftrightarrow> P (agent_manifest_of n default_capabilities)"
  using assms(2) unwrap_manifest_iff(1) [where toml = toml, OF assms(1) de_minimal]
  by (simp add: validate_iff agent_manifest_of_def default_capabilities_def default_cpu_def default_memory_def)

lemma bpf_shape:
  "unwrap_bpf (assemble_bpf (build_profile sysno m) kill) P \<longleftrightarrow>
     P ([bpf_stmt (BPF_LD OR BPF_W OR BPF_ABS) SECCOMP_DATA_NR_OFFSET] @
        jeq_chain (map of_int (build_profile sysno m)) @
        [bpf_stmt (BPF_RET OR BPF_K) (if kill then SECCOMP_RET_KILL_PROCESS else SECCOMP_RET_LOG),
         bpf_stmt (BPF_RET OR BPF_K) SECCOMP_RET_ALLOW])"
  using profile_length [of sysno m] by (simp add: unwrap_bpf_def assemble_bpf_def Let_def)

lemma minimal_profile_tests_pass:
  "toml (raw_doc ''basic'' []) = Inr (agent_value ''basic'' []) \<Longrightarrow> test_base_profile_has_core_syscalls toml err"
  "toml (raw_doc ''isolated'' []) = Inr (agent_value ''isolated'' []) \<Longrightarrow> test_no_network_excludes_socket toml err"
  unfolding test_base_profile_has_core_syscalls_def test_no_network_excludes_socket_def
  by (subst unwrap_minimal; simp add: name_defs allows_call_iff syscall_names agent_manifest_of_def
      default_capabilities_def)+

lemma test_no_shell_excludes_execve_passes:
  assumes "toml (raw_doc ''no-shell'' [[], ''[capabilities]'', ''shell = false'']) =
    Inr (agent_value ''no-shell'' [(''capabilities'', JObj [(''shell'', JBool False)])])"
  shows "test_no_shell_excludes_execve toml err"
  unfolding test_no_shell_excludes_execve_def
  by (subst unwrap_capabilities [where toml = toml, OF assms, of default_capabilities])
    (simp_all add: de_defs valid_defs allows_call_iff syscall_names)

lemma test_full_capabilities_passes:
  assumes "toml full_doc = Inr full_value"
  shows "test_full_capabilities toml err"
  unfolding test_full_capabilities_def
  by (subst unwrap_capabilities [where toml = toml, OF assms [unfolded full_value_def],
        of "default_capabilities\<lparr>cp_shell := True, cp_network := \<lparr>nc_allow = [''api.openai.com'']\<rparr>,
          cp_filesystem := \<lparr>fc_read = [''/data''], fc_write = [''/output'']\<rparr>\<rparr>"])
    (simp_all add: de_defs valid_defs allows_call_iff syscall_names)

lemma bpf_tests_pass:
  "toml (raw_doc ''test'' []) = Inr (agent_value ''test'' []) \<Longrightarrow> test_bpf_assembly_structure toml err"
  "toml (raw_doc ''audit'' []) = Inr (agent_value ''audit'' []) \<Longrightarrow> test_bpf_audit_mode toml err"
  unfolding test_bpf_assembly_structure_def test_bpf_audit_mode_def Let_def bpf_shape
  by (subst unwrap_minimal; simp add: name_defs bpf_stmt_def nth_append)+

section \<open>Sandbox\<close>

definition test_config :: vm_config where
  "test_config =
     \<lparr>vc_name = ''test-agent'', vc_vcpus = 2, vc_ram_mib = 512, vc_root_path = ''/system/rootfs/test-agent'',
      vc_exec_path = ''/agent/bin/test-agent'', vc_args = [], vc_env = [], vc_port_map = [], vc_workdir = ''/'',
      vc_virtiofs =
        [\<lparr>vm_tag = ''data_corpus_ro'', vm_host_path = ''/var/lib/cage/test-agent/data/corpus''\<rparr>,
         \<lparr>vm_tag = ''data_output_rw'', vm_host_path = ''/var/lib/cage/test-agent/data/output''\<rparr>],
      vc_rlimits = [], vc_console = None, vc_manifest = None\<rparr>"

definition test_manifest ::
    "toml_parser \<Rightarrow> (string \<Rightarrow> string) \<Rightarrow> (agent_manifest \<Rightarrow> bool) \<Rightarrow> bool" where
  "test_manifest toml err = unwrap_manifest toml err (files_doc ''test-agent'')"

text \<open>The first rule of the sandbox for a path: there is one, and its access satisfies \<open>P\<close>.\<close>

definition has_rule :: "path_rule list \<Rightarrow> string \<Rightarrow> (u64 \<Rightarrow> bool) \<Rightarrow> bool" where
  "has_rule rules p P = (case find (\<lambda>r. pr_path r = p) rules of None \<Rightarrow> False | Some r \<Rightarrow> P (pr_access r))"

definition test_sandbox_includes_rootfs :: "toml_parser \<Rightarrow> (string \<Rightarrow> string) \<Rightarrow> bool" where
  "test_sandbox_includes_rootfs toml err =
     test_manifest toml err (\<lambda>m. has_rule (build_sandbox test_config m) ''/system/rootfs/test-agent''
       (\<lambda>a. a AND LANDLOCK_ACCESS_FS_READ_FILE \<noteq> 0 \<and> a AND LANDLOCK_ACCESS_FS_EXECUTE \<noteq> 0))"

definition test_read_paths_no_write :: "toml_parser \<Rightarrow> (string \<Rightarrow> string) \<Rightarrow> bool" where
  "test_read_paths_no_write toml err =
     test_manifest toml err (\<lambda>m. has_rule (build_sandbox test_config m) ''/var/lib/cage/test-agent/data/corpus''
       (\<lambda>a. a AND LANDLOCK_ACCESS_FS_READ_FILE \<noteq> 0 \<and> a AND LANDLOCK_ACCESS_FS_WRITE_FILE = 0))"

definition test_kvm_always_included :: "toml_parser \<Rightarrow> (string \<Rightarrow> string) \<Rightarrow> bool" where
  "test_kvm_always_included toml err =
     test_manifest toml err (\<lambda>m. has_rule (build_sandbox test_config m) ''/dev/kvm''
       (\<lambda>a. a AND LANDLOCK_ACCESS_FS_READ_FILE \<noteq> 0 \<and> a AND LANDLOCK_ACCESS_FS_WRITE_FILE \<noteq> 0))"

definition test_rw_mount_has_write :: "toml_parser \<Rightarrow> (string \<Rightarrow> string) \<Rightarrow> bool" where
  "test_rw_mount_has_write toml err =
     test_manifest toml err (\<lambda>m. has_rule (build_sandbox test_config m) ''/var/lib/cage/test-agent/data/output''
       (\<lambda>a. a AND LANDLOCK_ACCESS_FS_WRITE_FILE \<noteq> 0 \<and> a AND LANDLOCK_ACCESS_FS_READ_FILE \<noteq> 0))"

definition test_dev_nodes_read_only :: "toml_parser \<Rightarrow> (string \<Rightarrow> string) \<Rightarrow> bool" where
  "test_dev_nodes_read_only toml err =
     test_manifest toml err (\<lambda>m.
       list_all (\<lambda>dev. has_rule (build_sandbox test_config m) dev
           (\<lambda>a. a AND LANDLOCK_ACCESS_FS_READ_FILE \<noteq> 0 \<and> a AND LANDLOCK_ACCESS_FS_WRITE_FILE = 0))
         [''/dev/null'', ''/dev/zero'', ''/dev/urandom''])"

lemma found_accesses:
  "has_rule (build_sandbox test_config m) ''/system/rootfs/test-agent'' P \<longleftrightarrow> P ACCESS_READ_EXEC"
  "has_rule (build_sandbox test_config m) ''/var/lib/cage/test-agent/data/corpus'' P \<longleftrightarrow> P ACCESS_READ"
  "has_rule (build_sandbox test_config m) ''/var/lib/cage/test-agent/data/output'' P \<longleftrightarrow> P ACCESS_READ_WRITE"
  "has_rule (build_sandbox test_config m) ''/dev/kvm'' P \<longleftrightarrow>
     P (LANDLOCK_ACCESS_FS_READ_FILE OR LANDLOCK_ACCESS_FS_WRITE_FILE)"
  "has_rule (build_sandbox test_config m) ''/dev/null'' P \<longleftrightarrow> P LANDLOCK_ACCESS_FS_READ_FILE"
  "has_rule (build_sandbox test_config m) ''/dev/zero'' P \<longleftrightarrow> P LANDLOCK_ACCESS_FS_READ_FILE"
  "has_rule (build_sandbox test_config m) ''/dev/urandom'' P \<longleftrightarrow> P LANDLOCK_ACCESS_FS_READ_FILE"
  by (simp_all add: has_rule_def build_sandbox_def test_config_def rule_def mount_access_def ends_with_def
    starts_with_def)

lemma sandbox_tests_pass:
  assumes "toml (files_doc ''test-agent'') = Inr (files_value ''test-agent'')"
  shows "test_sandbox_includes_rootfs toml err" "test_read_paths_no_write toml err" "test_kvm_always_included toml err"
    "test_rw_mount_has_write toml err" "test_dev_nodes_read_only toml err"
proof -
  have t: "test_manifest toml err P \<longleftrightarrow> P (agent_manifest_of ''test-agent'' files_capabilities)" for P
    unfolding test_manifest_def using assms by (rule unwrap_files) (simp add: name_defs)
  show "test_sandbox_includes_rootfs toml err" "test_read_paths_no_write toml err" "test_kvm_always_included toml err"
    "test_rw_mount_has_write toml err" "test_dev_nodes_read_only toml err"
    by (simp_all add: test_sandbox_includes_rootfs_def test_read_paths_no_write_def test_kvm_always_included_def
      test_rw_mount_has_write_def test_dev_nodes_read_only_def t found_accesses access_values)
qed

end
