(* ===== verification/Tests_Deploy.thy ===== *)
theory Tests_Deploy
  imports Tests_Manifest Deploy
begin

text \<open>
  The unit tests of \<open>pkg/cage/src/deploy.rs\<close>. A bundle is a byte string that the tar and gzip libraries,
  which are parameters, read as given entries; the temporary directory is any path below which there is
  nothing yet, on a file system without failures.
\<close>

section \<open>Tests\<close>

text \<open>An archive with the given files, as \<open>make_bundle\<close> writes it and the libraries read it back.\<close>

definition bundle_of :: "deploy_env \<Rightarrow> string \<Rightarrow> (string \<times> string) list \<Rightarrow> bool" where
  "bundle_of env data es \<longleftrightarrow> dp_entries env data = Inr (map (\<lambda>(p, c). Tar_entry (Inr p) (Inr c)) es)"

definition is_dir :: "fs \<Rightarrow> string \<Rightarrow> bool" where
  "is_dir f p \<longleftrightarrow> map_of (nodes f) p = Some Dir"

definition temp_dir :: "deploy_env \<Rightarrow> string \<Rightarrow> fs \<Rightarrow> bool" where
  "temp_dir env tmp f \<longleftrightarrow> dp_io env = (\<lambda>_. None) \<and> (\<forall>p. map_of (nodes f) (tmp @ ''/'' @ p) = None)"

definition deploy_valid_bundle :: "deploy_env \<Rightarrow> string \<Rightarrow> string \<Rightarrow> fs \<Rightarrow> bool" where
  "deploy_valid_bundle env bundle tmp f =
     (let agent_dir = tmp @ ''/agents''; rootfs_base = tmp @ ''/rootfs''
      in case unpack_bundle env bundle agent_dir rootfs_base f of
           (Inl _, _) \<Rightarrow> False
         | (Inr m, f') \<Rightarrow>
             am_name (mf_agent m) = ''test-agent'' \<and> fs_exists (agent_dir @ ''/test-agent.toml'') f' \<and>
             is_dir f' (rootfs_base @ ''/test-agent/agent/bin'') \<and> is_dir f' (rootfs_base @ ''/test-agent/tmp'') \<and>
             is_dir f' (rootfs_base @ ''/test-agent/proc'') \<and>
             fs_exists (rootfs_base @ ''/test-agent/etc/resolv.conf'') f' \<and>
             fs_exists (rootfs_base @ ''/test-agent/etc/hostname'') f' \<and>
             is_dir f' (rootfs_base @ ''/test-agent/data/output'') \<and>
             map_option trim (file_of f' (rootfs_base @ ''/test-agent/etc/hostname'')) = Some ''test-agent'')"

definition deploy_python_bundle :: "deploy_env \<Rightarrow> string \<Rightarrow> string \<Rightarrow> fs \<Rightarrow> bool" where
  "deploy_python_bundle env bundle tmp f =
     (let rootfs_base = tmp @ ''/rootfs''
      in case unpack_bundle env bundle (tmp @ ''/agents'') rootfs_base f of
           (Inl _, _) \<Rightarrow> False
         | (Inr m, f') \<Rightarrow>
             am_runtime (mf_agent m) = Python \<and> fs_exists (rootfs_base @ ''/py-bot/agent/main.py'') f' \<and>
             fs_exists (rootfs_base @ ''/py-bot/agent/requirements.txt'') f')"

definition reject_path_traversal :: "deploy_env \<Rightarrow> string \<Rightarrow> string \<Rightarrow> fs \<Rightarrow> bool" where
  "reject_path_traversal env gz_buf tmp f =
     (case fst (unpack_bundle env gz_buf (tmp @ ''/agents'') (tmp @ ''/rootfs'') f) of
        Inl (PathTraversal _) \<Rightarrow> True
      | _ \<Rightarrow> False)"

definition reject_missing_manifest :: "deploy_env \<Rightarrow> string \<Rightarrow> string \<Rightarrow> fs \<Rightarrow> bool" where
  "reject_missing_manifest env bundle tmp f =
     (case fst (unpack_bundle env bundle (tmp @ ''/agents'') (tmp @ ''/rootfs'') f) of
        Inl (InvalidBundle _) \<Rightarrow> True
      | _ \<Rightarrow> False)"

section \<open>They pass\<close>

lemmas path_defs = validate_entry_path_def starts_with_def components_def file_name_def Let_def utf8_head_def
  utf8_width_def byte_def

lemma test_paths [simp]:
  "validate_entry_path ''test-agent/AGENT.toml'' = Inr ()" "validate_entry_path ''test-agent/bin/test-agent'' = Inr ()"
  "validate_entry_path ''py-bot/AGENT.toml'' = Inr ()" "validate_entry_path ''py-bot/main.py'' = Inr ()"
  "validate_entry_path ''py-bot/requirements.txt'' = Inr ()" "validate_entry_path ''evil/AGENT.toml'' = Inr ()"
  "\<exists>m. validate_entry_path ''evil/../../../etc/passwd'' = Inl (PathTraversal m)"
  "validate_entry_path ''agent/bin/agent'' = Inr ()"
  by (simp_all add: path_defs)

lemma test_names [simp]:
  "file_name ''test-agent/AGENT.toml'' = Some ''AGENT.toml''" "file_name ''test-agent/bin/test-agent'' = Some ''test-agent''"
  "file_name ''py-bot/AGENT.toml'' = Some ''AGENT.toml''" "file_name ''py-bot/main.py'' = Some ''main.py''"
  "file_name ''py-bot/requirements.txt'' = Some ''requirements.txt''" "file_name ''evil/AGENT.toml'' = Some ''AGENT.toml''"
  "file_name ''agent/bin/agent'' = Some ''agent''"
  "length (components ''test-agent/AGENT.toml'') = 2" "length (components ''py-bot/AGENT.toml'') = 2"
  "length (components ''evil/AGENT.toml'') = 2"
  by (simp_all add: path_defs)

lemma test_lossy [simp]:
  "lossy ''AGENT.toml'' = ''AGENT.toml''" "lossy ''test-agent'' = ''test-agent''" "lossy ''main.py'' = ''main.py''"
  "lossy ''requirements.txt'' = ''requirements.txt''"
  by (simp_all add: utf8_head_def utf8_width_def byte_def)

declare lossy.simps [simp del]

lemma reject_missing_manifest_passes:
  "bundle_of env data [(''agent/bin/agent'', ''binary data'')] \<Longrightarrow> reject_missing_manifest env data tmp f"
  by (simp add: reject_missing_manifest_def bundle_of_def unpack_bundle_def)

lemma reject_path_traversal_passes:
  assumes "bundle_of env data [(''evil/AGENT.toml'', t), (''evil/../../../etc/passwd'', ''root:x:0:0'')]"
    and "valid_utf8 t"
  shows "reject_path_traversal env data tmp f"
proof -
  obtain m where "validate_entry_path ''evil/../../../etc/passwd'' = Inl (PathTraversal m)"
    using test_paths(7) by blast
  with assms show ?thesis by (simp add: reject_path_traversal_def bundle_of_def unpack_bundle_def)
qed

text \<open>Without failures, the operations only set nodes.\<close>

definition io_ok :: io_oracle where
  "io_ok = (\<lambda>_. None)"

lemma mkdirs_ok:
  assumes "map_of (nodes f) p \<in> {None, Some Dir}"
  obtains f1 where "\<And>k. io_then (fs_mkdirs io_ok p) k f = k f1"
    and "\<And>q. map_of (nodes f1) q = (if q = p then Some Dir else map_of (nodes f) q)"
proof (cases "map_of (nodes f) p")
  case None
  show ?thesis
    by (rule that [of "set_node p Dir (fs_tick f)"]) (simp_all add: None io_then_def fs_mkdirs_def io_ok_def)
next
  case (Some n)
  with assms have "map_of (nodes f) p = Some Dir" by simp
  then show ?thesis
    by (intro that [of "fs_tick f"]) (simp_all add: io_then_def fs_mkdirs_def io_ok_def)
qed

lemma write_ok:
  assumes "map_of (nodes f) p = None"
  obtains f1 where "\<And>k. io_then (fs_write io_ok p c) k f = k f1"
    and "\<And>q. map_of (nodes f1) q = (if q = p then Some (File c 420) else map_of (nodes f) q)"
  by (rule that [of "set_node p (File c 420) (fs_tick f)"])
    (simp_all add: assms io_then_def fs_write_def io_ok_def no_file_def mode_of_def default_mode_def)

lemma chmod_ok:
  assumes "map_of (nodes f) p = Some (File c m)"
  obtains f1 where "\<And>k. io_then (fs_chmod io_ok p n) k f = k f1"
    and "\<And>q. map_of (nodes f1) q = (if q = p then Some (File c n) else map_of (nodes f) q)"
  by (rule that [of "set_node p (File c n) (fs_tick f)"]) (simp_all add: assms io_then_def fs_chmod_def io_ok_def)

lemma make_dirs_ok:
  assumes "\<And>d. d \<in> set ds \<Longrightarrow> map_of (nodes f) d \<in> {None, Some Dir}"
  shows "\<exists>f1. make_dirs io_ok ds k f = k f1 \<and>
    (\<forall>q. map_of (nodes f1) q = (if q \<in> set ds then Some Dir else map_of (nodes f) q))"
  using assms
proof (induction ds arbitrary: f)
  case Nil
  show ?case by auto
next
  case (Cons d ds)
  obtain f1 where f1: "io_then (fs_mkdirs io_ok d) (make_dirs io_ok ds k) f = make_dirs io_ok ds k f1"
    "\<And>q. map_of (nodes f1) q = (if q = d then Some Dir else map_of (nodes f) q)"
    by (rule mkdirs_ok [of f d]) (use Cons.prems in auto)
  have "\<exists>f2. make_dirs io_ok ds k f1 = k f2 \<and>
      (\<forall>q. map_of (nodes f2) q = (if q \<in> set ds then Some Dir else map_of (nodes f1) q))"
    by (rule Cons.IH) (use Cons.prems f1(2) in auto)
  with f1 show ?case by auto
qed

text \<open>Below a fresh directory, the directories and the two files of the network come first.\<close>

definition base_node :: "string \<Rightarrow> string \<Rightarrow> string \<Rightarrow> node option" where
  "base_node root n q =
     (if q = root @ ''/etc/hostname'' then Some (File (n @ [CHR 10]) 420)
      else if q = root @ ''/etc/resolv.conf'' then Some (File (''nameserver 1.1.1.1'' @ [CHR 10]) 420)
      else if q \<in> set (rootfs_dirs root) then Some Dir else None)"

lemma install_ok:
  assumes "dp_io env = io_ok" and "\<And>p. map_of (nodes f) (tmp @ ''/'' @ p) = None" and "am_name (mf_agent m) = n"
  obtains f1 where "install env (tmp @ ''/agents'') (tmp @ ''/rootfs'') m buf f =
      extract_all io_ok (tmp @ ''/agents'') (tmp @ ''/rootfs/'' @ n) n buf (\<lambda>f. (Inr m, f)) f1"
    and "\<And>p. map_of (nodes f1) (tmp @ ''/'' @ p) = base_node (tmp @ ''/rootfs/'' @ n) n (tmp @ ''/'' @ p)"
proof -
  let ?r = "tmp @ ''/rootfs/'' @ n"
  let ?k = "extract_all io_ok (tmp @ ''/agents'') ?r n buf (\<lambda>f. (Inr m, f))"
  let ?k2 = "io_then (fs_write io_ok (?r @ ''/etc/hostname'') (n @ [CHR 10])) ?k"
  let ?k1 = "io_then (fs_write io_ok (?r @ ''/etc/resolv.conf'') (''nameserver 1.1.1.1'' @ [CHR 10])) ?k2"
  have fresh: "map_of (nodes f) (?r @ q) = None" for q using assms(2) [of "''rootfs/'' @ n @ q"] by simp
  have "\<exists>f1. make_dirs io_ok (rootfs_dirs ?r) ?k1 f = ?k1 f1 \<and>
      (\<forall>q. map_of (nodes f1) q = (if q \<in> set (rootfs_dirs ?r) then Some Dir else map_of (nodes f) q))"
    by (rule make_dirs_ok) (use fresh in \<open>auto simp: rootfs_dirs_def\<close>)
  then obtain f1 where f1: "make_dirs io_ok (rootfs_dirs ?r) ?k1 f = ?k1 f1"
    "\<And>q. map_of (nodes f1) q = (if q \<in> set (rootfs_dirs ?r) then Some Dir else map_of (nodes f) q)" by auto
  have "map_of (nodes f1) (?r @ ''/etc/resolv.conf'') = None"
    using fresh [of "''/etc/resolv.conf''"] by (simp add: f1(2) rootfs_dirs_def)
  then obtain f2 where f2: "?k1 f1 = ?k2 f2" "\<And>q. map_of (nodes f2) q =
      (if q = ?r @ ''/etc/resolv.conf'' then Some (File (''nameserver 1.1.1.1'' @ [CHR 10]) 420) else map_of (nodes f1) q)"
    by (rule write_ok [where c = "''nameserver 1.1.1.1'' @ [CHR 10]"]) blast
  have "map_of (nodes f2) (?r @ ''/etc/hostname'') = None"
    using fresh [of "''/etc/hostname''"] by (simp add: f1(2) f2(2) rootfs_dirs_def)
  then obtain f3 where f3: "?k2 f2 = ?k f3" "\<And>q. map_of (nodes f3) q =
      (if q = ?r @ ''/etc/hostname'' then Some (File (n @ [CHR 10]) 420) else map_of (nodes f2) q)"
    by (rule write_ok [where c = "n @ [CHR 10]"]) blast
  show ?thesis
  proof (rule that [of f3])
    show "install env (tmp @ ''/agents'') (tmp @ ''/rootfs'') m buf f = ?k f3"
      using f1(1) f2(1) f3(1) by (simp add: install_def Let_def assms(1,3))
    show "map_of (nodes f3) (tmp @ ''/'' @ p) = base_node ?r n (tmp @ ''/'' @ p)" for p
      using assms(2) [of p] by (simp add: f3(2) f2(2) f1(2) base_node_def)
  qed
qed

text \<open>The manifest of a bundle goes to the agents' directory.\<close>

lemma extract_manifest_ok:
  assumes "CHR ''/'' \<notin> set n" and "map_of (nodes f) (tmp @ ''/agents'') = None"
    and "map_of (nodes f) (tmp @ ''/agents/'' @ n @ ''.toml'') = None" and "c \<noteq> []" and "file_name p = Some ''AGENT.toml''"
  obtains f1 where "extract_all io_ok (tmp @ ''/agents'') root n ((p, c) # es) k f =
      extract_all io_ok (tmp @ ''/agents'') root n es k f1"
    and "\<And>q. map_of (nodes f1) q =
      (if q = tmp @ ''/agents/'' @ n @ ''.toml'' then Some (File c 420)
       else if q = tmp @ ''/agents'' then Some Dir else map_of (nodes f) q)"
proof -
  let ?d = "tmp @ ''/agents/'' @ n @ ''.toml''" and ?k = "extract_all io_ok (tmp @ ''/agents'') root n es k"
  have p: "path_parent ?d = tmp @ ''/agents''"
    using before_last_append [of "CHR ''/''" "n @ ''.toml''" "tmp @ ''/agents''"] assms(1) by (simp add: path_parent_def)
  obtain f1 where f1: "io_then (fs_mkdirs io_ok (tmp @ ''/agents'')) (io_then (fs_write io_ok ?d c) ?k) f = io_then (fs_write io_ok ?d c) ?k f1"
    "\<And>q. map_of (nodes f1) q = (if q = tmp @ ''/agents'' then Some Dir else map_of (nodes f) q)"
    by (rule mkdirs_ok [of f "tmp @ ''/agents''"]) (use assms(2) in auto)
  obtain f2 where f2: "io_then (fs_write io_ok ?d c) ?k f1 = ?k f2"
    "\<And>q. map_of (nodes f2) q = (if q = ?d then Some (File c 420) else map_of (nodes f1) q)"
    by (rule write_ok [of f1 ?d c]) (use assms(3) in \<open>auto simp: f1(2)\<close>)
  show ?thesis
    by (rule that [of f2]) (use assms(4,5) p f1 f2 in \<open>simp_all add: extract_file_def Let_def\<close>)
qed

text \<open>Any other file that the agent's root file system does not have yet.\<close>

lemma extract_plain_ok:
  assumes "file_name p = Some g" and "lossy g = g" and "g \<in> {''main.py'', ''requirements.txt''}" and "g \<noteq> n" and "c \<noteq> []"
    and "map_of (nodes f) (root @ ''/agent/'' @ g) = None"
  obtains f1 where "extract_all io_ok d root n ((p, c) # es) k f = extract_all io_ok d root n es k f1"
    and "\<And>q. map_of (nodes f1) q = (if q = root @ ''/agent/'' @ g then Some (File c 420) else map_of (nodes f) q)"
proof -
  let ?k = "extract_all io_ok d root n es k"
  obtain f1 where f1: "io_then (fs_write io_ok (root @ ''/agent/'' @ g) c) ?k f = ?k f1"
    "\<And>q. map_of (nodes f1) q = (if q = root @ ''/agent/'' @ g then Some (File c 420) else map_of (nodes f) q)"
    by (rule write_ok [of f "root @ ''/agent/'' @ g" c]) (use assms(6) in auto)
  show ?thesis
    by (rule that [of f1]) (use assms f1 in \<open>auto simp: extract_file_def\<close>)
qed

lemma extract_binary_ok:
  assumes "file_name p = Some n" and "lossy n = n" and "n \<noteq> ''AGENT.toml''" and "c \<noteq> []"
    and "map_of (nodes f) (root @ ''/agent/bin/'' @ n) = None"
  obtains f1 where "extract_all io_ok d root n ((p, c) # es) k f = extract_all io_ok d root n es k f1"
    and "\<And>q. map_of (nodes f1) q = (if q = root @ ''/agent/bin/'' @ n then Some (File c 493) else map_of (nodes f) q)"
proof -
  let ?d = "root @ ''/agent/bin/'' @ n" and ?k = "extract_all io_ok d root n es k"
  obtain f1 where f1: "io_then (fs_write io_ok ?d c) (io_then (fs_chmod io_ok ?d 493) ?k) f = io_then (fs_chmod io_ok ?d 493) ?k f1"
    "\<And>q. map_of (nodes f1) q = (if q = ?d then Some (File c 420) else map_of (nodes f) q)"
    by (rule write_ok [of f ?d c]) (use assms(5) in auto)
  obtain f2 where f2: "io_then (fs_chmod io_ok ?d 493) ?k f1 = ?k f2"
    "\<And>q. map_of (nodes f2) q = (if q = ?d then Some (File c 493) else map_of (nodes f1) q)"
    by (rule chmod_ok [of f1 ?d c 420 493]) (simp add: f1(2), blast)
  show ?thesis
    by (rule that [of f2]) (use assms f1 f2 in \<open>simp_all add: extract_file_def\<close>)
qed

lemma unpack_read:
  assumes "bundle_of env data es" and "read_entries env (map (\<lambda>(p, c). Tar_entry (Inr p) (Inr c)) es) None [] = Inr (Some t, es)"
    and "dp_toml env t = Inr v" and "de_manifest v = Some m" and "validate m = Inr ()"
  shows "unpack_bundle env data agents base f = install env agents base m es f"
  using assms by (simp add: unpack_bundle_def bundle_of_def parse_manifest_def)

lemma trim_newline:
  assumes "32 < byte c" "byte c < 128" "32 < byte d" "byte d < 128"
  shows "trim (c # s @ [d, CHR 10]) = c # s @ [d]"
proof -
  have c: "char_of (9 :: nat) \<noteq> CHR 10" "char_of (10 :: nat) = CHR 10" by code_simp+
  have w: "white_space = [char_of (9 :: nat)] # [char_of (10 :: nat)] # tl (tl white_space)"
    by (simp add: white_space_def)
  have "white_prefix (map rev white_space) (CHR 10 # r) = Some [CHR 10]" for r
    by (subst w) (use c in \<open>simp add: white_prefix_def starts_with_def\<close>)
  with printable_not_white assms show ?thesis by (simp add: trim_def)
qed

lemma test_hostname: "trim (''test-agent'' @ [CHR 10]) = ''test-agent''"
  using trim_newline [of "CHR ''t''" "CHR ''t''" "''est-agen''"] by (simp add: byte_def)

lemma deploy_valid_bundle_passes:
  assumes "bundle_of env data
      [(''test-agent/AGENT.toml'', agent_doc ''test-agent'' [binds ''version'' ''1.0.0'']),
       (''test-agent/bin/test-agent'', ''#!/bin/sh'' @ [CHR 10] @ ''echo hello'')]"
    and "dp_toml env (agent_doc ''test-agent'' [binds ''version'' ''1.0.0'']) =
      Inr (JObj [(''agent'', JObj [(''name'', JStr ''test-agent''), (''version'', JStr ''1.0.0'')])])"
    and t: "temp_dir env tmp f"
  shows "deploy_valid_bundle env data tmp f"
proof -
  let ?t = "agent_doc ''test-agent'' [binds ''version'' ''1.0.0'']"
  let ?sh = "''#!/bin/sh'' @ [CHR 10] @ ''echo hello''"
  let ?es = "[(''test-agent/AGENT.toml'', ?t), (''test-agent/bin/test-agent'', ?sh)]"
  let ?v = "JObj [(''agent'', JObj [(''name'', JStr ''test-agent''), (''version'', JStr ''1.0.0'')])]"
  let ?m = "\<lparr>mf_agent = \<lparr>am_name = ''test-agent'', am_version = ''1.0.0'', am_runtime = Binary\<rparr>,
    mf_capabilities = default_capabilities, mf_tools = []\<rparr>"
  let ?root = "tmp @ ''/rootfs/'' @ ''test-agent''"
  have u: "valid_utf8 ?t" by (simp add: agent_doc_def agent_lines_of_def doc_def binds_def dquote_def byte_def)
  have n: "?t \<noteq> []" by (simp add: agent_doc_def doc_def)
  have m: "de_manifest ?v = Some ?m" "validate ?m = Inr ()"
    by (simp_all add: de_defs validate_iff name_defs)
  have e: "unpack_bundle env data (tmp @ ''/agents'') (tmp @ ''/rootfs'') f =
      install env (tmp @ ''/agents'') (tmp @ ''/rootfs'') ?m ?es f"
    by (rule unpack_read [OF assms(1) _ assms(2) m]) (use u in simp)
  obtain f1 where f1: "install env (tmp @ ''/agents'') (tmp @ ''/rootfs'') ?m ?es f =
      extract_all io_ok (tmp @ ''/agents'') ?root ''test-agent'' ?es (\<lambda>f. (Inr ?m, f)) f1"
    "\<And>p. map_of (nodes f1) (tmp @ ''/'' @ p) = base_node ?root ''test-agent'' (tmp @ ''/'' @ p)"
    by (rule install_ok [of env f tmp ?m "''test-agent''" ?es]) (use t in \<open>auto simp: temp_dir_def io_ok_def\<close>)
  have b: "base_node ?root ''test-agent'' (tmp @ ''/agents'') = None"
    "base_node ?root ''test-agent'' (tmp @ ''/agents/test-agent.toml'') = None"
    "base_node ?root ''test-agent'' (?root @ ''/agent/bin/test-agent'') = None"
    by (simp_all add: base_node_def rootfs_dirs_def)
  have h: "map_of (nodes f1) (tmp @ ''/agents'') = None"
    "map_of (nodes f1) (tmp @ ''/agents/'' @ ''test-agent'' @ ''.toml'') = None"
    using b f1(2) [of "''agents''"] f1(2) [of "''agents/test-agent.toml''"] by simp_all
  obtain f2 where f2: "extract_all io_ok (tmp @ ''/agents'') ?root ''test-agent'' ?es (\<lambda>f. (Inr ?m, f)) f1 =
      extract_all io_ok (tmp @ ''/agents'') ?root ''test-agent'' [(''test-agent/bin/test-agent'', ?sh)] (\<lambda>f. (Inr ?m, f)) f2"
    "\<And>q. map_of (nodes f2) q = (if q = tmp @ ''/agents/'' @ ''test-agent'' @ ''.toml'' then Some (File ?t 420)
       else if q = tmp @ ''/agents'' then Some Dir else map_of (nodes f1) q)"
    by (rule extract_manifest_ok [of "''test-agent''" f1 tmp ?t "''test-agent/AGENT.toml''", OF _ h(1,2) n test_names(1)])
      (simp, blast)
  have h2: "map_of (nodes f2) (?root @ ''/agent/bin/'' @ ''test-agent'') = None"
    using b(3) f1(2) [of "''rootfs/test-agent/agent/bin/test-agent''"] by (simp add: f2(2))
  obtain f3 where f3: "extract_all io_ok (tmp @ ''/agents'') ?root ''test-agent'' [(''test-agent/bin/test-agent'', ?sh)]
      (\<lambda>f. (Inr ?m, f)) f2 = extract_all io_ok (tmp @ ''/agents'') ?root ''test-agent'' [] (\<lambda>f. (Inr ?m, f)) f3"
    "\<And>q. map_of (nodes f3) q = (if q = ?root @ ''/agent/bin/'' @ ''test-agent'' then Some (File ?sh 493) else map_of (nodes f2) q)"
    by (rule extract_binary_ok [of "''test-agent/bin/test-agent''" "''test-agent''" ?sh f2 ?root,
          OF test_names(2) test_lossy(2) _ _ h2]) (simp, simp, blast)
  have u: "unpack_bundle env data (tmp @ ''/agents'') (tmp @ ''/rootfs'') f = (Inr ?m, f3)"
    unfolding e f1(1) f2(1) f3(1) by simp
  have q: "map_of (nodes f3) (tmp @ ''/'' @ p) =
      (if p = ''rootfs/test-agent/agent/bin/test-agent'' then Some (File ?sh 493)
       else if p = ''agents/test-agent.toml'' then Some (File ?t 420)
       else if p = ''agents'' then Some Dir
       else base_node ?root ''test-agent'' (tmp @ ''/'' @ p))" for p
    using f1(2) [of p] by (simp add: f3(2) f2(2))
  show ?thesis
    unfolding deploy_valid_bundle_def Let_def u
    using q [of "''agents/test-agent.toml''"] q [of "''rootfs/test-agent/agent/bin''"] q [of "''rootfs/test-agent/tmp''"]
      q [of "''rootfs/test-agent/proc''"] q [of "''rootfs/test-agent/etc/resolv.conf''"]
      q [of "''rootfs/test-agent/etc/hostname''"] q [of "''rootfs/test-agent/data/output''"]
    by (simp add: is_dir_def fs_exists_def file_of_def base_node_def rootfs_dirs_def test_hostname [simplified])
qed

lemma deploy_python_bundle_passes:
  assumes "bundle_of env data
      [(''py-bot/AGENT.toml'', agent_doc ''py-bot'' [binds ''runtime'' ''python'']),
       (''py-bot/main.py'', ''print('' @ quote ''hello'' @ '')''), (''py-bot/requirements.txt'', ''requests==2.31.0'')]"
    and "dp_toml env (agent_doc ''py-bot'' [binds ''runtime'' ''python'']) =
      Inr (JObj [(''agent'', JObj [(''name'', JStr ''py-bot''), (''runtime'', JStr ''python'')])])"
    and t: "temp_dir env tmp f"
  shows "deploy_python_bundle env data tmp f"
proof -
  let ?t = "agent_doc ''py-bot'' [binds ''runtime'' ''python'']"
  let ?py = "''print('' @ quote ''hello'' @ '')''" and ?rq = "''requests==2.31.0''"
  let ?es = "[(''py-bot/AGENT.toml'', ?t), (''py-bot/main.py'', ?py), (''py-bot/requirements.txt'', ?rq)]"
  let ?v = "JObj [(''agent'', JObj [(''name'', JStr ''py-bot''), (''runtime'', JStr ''python'')])]"
  let ?m = "\<lparr>mf_agent = \<lparr>am_name = ''py-bot'', am_version = ''0.0.0'', am_runtime = Python\<rparr>,
    mf_capabilities = default_capabilities, mf_tools = []\<rparr>"
  let ?root = "tmp @ ''/rootfs/'' @ ''py-bot''" and ?ag = "tmp @ ''/agents''"
  let ?k = "\<lambda>f. (Inr ?m, f)"
  have u: "valid_utf8 ?t" by (simp add: agent_doc_def agent_lines_of_def doc_def binds_def dquote_def byte_def)
  have n: "?t \<noteq> []" by (simp add: agent_doc_def doc_def)
  have m: "de_manifest ?v = Some ?m" "validate ?m = Inr ()"
    by (simp_all add: de_defs validate_iff name_defs)
  have e: "unpack_bundle env data ?ag (tmp @ ''/rootfs'') f = install env ?ag (tmp @ ''/rootfs'') ?m ?es f"
    by (rule unpack_read [OF assms(1) _ assms(2) m]) (use u in \<open>simp add: file_name_def components_def\<close>)
  obtain f1 where f1: "install env ?ag (tmp @ ''/rootfs'') ?m ?es f = extract_all io_ok ?ag ?root ''py-bot'' ?es ?k f1"
    "\<And>p. map_of (nodes f1) (tmp @ ''/'' @ p) = base_node ?root ''py-bot'' (tmp @ ''/'' @ p)"
    by (rule install_ok [of env f tmp ?m "''py-bot''" ?es]) (use t in \<open>auto simp: temp_dir_def io_ok_def\<close>)
  have h: "map_of (nodes f1) ?ag = None" "map_of (nodes f1) (tmp @ ''/agents/'' @ ''py-bot'' @ ''.toml'') = None"
    "map_of (nodes f1) (?root @ ''/agent/'' @ ''main.py'') = None"
    "map_of (nodes f1) (?root @ ''/agent/'' @ ''requirements.txt'') = None"
    using f1(2) [of "''agents''"] f1(2) [of "''agents/py-bot.toml''"] f1(2) [of "''rootfs/py-bot/agent/main.py''"]
      f1(2) [of "''rootfs/py-bot/agent/requirements.txt''"]
    by (simp_all add: base_node_def rootfs_dirs_def)
  obtain f2 where f2: "extract_all io_ok ?ag ?root ''py-bot'' ?es ?k f1 =
      extract_all io_ok ?ag ?root ''py-bot'' [(''py-bot/main.py'', ?py), (''py-bot/requirements.txt'', ?rq)] ?k f2"
    "\<And>q. map_of (nodes f2) q = (if q = tmp @ ''/agents/'' @ ''py-bot'' @ ''.toml'' then Some (File ?t 420)
       else if q = ?ag then Some Dir else map_of (nodes f1) q)"
    by (rule extract_manifest_ok [of "''py-bot''" f1 tmp ?t "''py-bot/AGENT.toml''", OF _ h(1,2) n test_names(3)])
      (simp, blast)
  have h2: "map_of (nodes f2) (?root @ ''/agent/'' @ ''main.py'') = None" using h(3) by (simp add: f2(2))
  obtain f3 where f3: "extract_all io_ok ?ag ?root ''py-bot'' [(''py-bot/main.py'', ?py), (''py-bot/requirements.txt'', ?rq)] ?k f2 =
      extract_all io_ok ?ag ?root ''py-bot'' [(''py-bot/requirements.txt'', ?rq)] ?k f3"
    "\<And>q. map_of (nodes f3) q = (if q = ?root @ ''/agent/'' @ ''main.py'' then Some (File ?py 420) else map_of (nodes f2) q)"
    by (rule extract_plain_ok [of "''py-bot/main.py''" "''main.py''" "''py-bot''" ?py f2 ?root,
          OF test_names(4) test_lossy(3) _ _ _ h2]) (simp, simp, simp, blast)
  have h3: "map_of (nodes f3) (?root @ ''/agent/'' @ ''requirements.txt'') = None" using h(4) by (simp add: f2(2) f3(2))
  obtain f4 where f4: "extract_all io_ok ?ag ?root ''py-bot'' [(''py-bot/requirements.txt'', ?rq)] ?k f3 =
      extract_all io_ok ?ag ?root ''py-bot'' [] ?k f4"
    "\<And>q. map_of (nodes f4) q = (if q = ?root @ ''/agent/'' @ ''requirements.txt'' then Some (File ?rq 420) else map_of (nodes f3) q)"
    by (rule extract_plain_ok [of "''py-bot/requirements.txt''" "''requirements.txt''" "''py-bot''" ?rq f3 ?root,
          OF test_names(5) test_lossy(4) _ _ _ h3]) (simp, simp, simp, blast)
  have u: "unpack_bundle env data ?ag (tmp @ ''/rootfs'') f = (Inr ?m, f4)"
    unfolding e f1(1) f2(1) f3(1) f4(1) by simp
  show ?thesis
    unfolding deploy_python_bundle_def Let_def u by (simp add: fs_exists_def f4(2) f3(2))
qed

end
