(* ===== verification/Tests_Ctxgraph.thy ===== *)
theory Tests_Ctxgraph
  imports Test_Lib Ctxgraph
begin

text \<open>
  The unit tests of \<open>pkg/ctxgraph\<close>: \<open>entry.rs\<close>, \<open>store.rs\<close> and \<open>query.rs\<close>. The database in memory is an
  empty table on which no statement fails; the digest does not collide on the entries of a test, and
  their values print and parse back.
\<close>

section \<open>Content addresses\<close>

type_synonym digest = "string \<Rightarrow> string"
type_synonym printer = "json \<Rightarrow> string + string"

definition hash_is_deterministic :: "digest \<Rightarrow> printer \<Rightarrow> bool" where
  "hash_is_deterministic sha pr \<longleftrightarrow>
     (let h1 = compute_hash sha pr ''agent-1'' ''key'' (JStr ''value'');
          h2 = compute_hash sha pr ''agent-1'' ''key'' (JStr ''value'')
      in h1 = h2)"

definition different_agents_produce_different_hashes :: "digest \<Rightarrow> printer \<Rightarrow> bool" where
  "different_agents_produce_different_hashes sha pr \<longleftrightarrow>
     (let h1 = compute_hash sha pr ''agent-1'' ''key'' (JStr ''value'');
          h2 = compute_hash sha pr ''agent-2'' ''key'' (JStr ''value'')
      in h1 \<noteq> h2)"

definition different_keys_produce_different_hashes :: "digest \<Rightarrow> printer \<Rightarrow> bool" where
  "different_keys_produce_different_hashes sha pr \<longleftrightarrow>
     (let h1 = compute_hash sha pr ''agent-1'' ''key-a'' (JStr ''value'');
          h2 = compute_hash sha pr ''agent-1'' ''key-b'' (JStr ''value'')
      in h1 \<noteq> h2)"

text \<open>\<open>is_ascii_hexdigit\<close>.\<close>

definition is_hexdigit :: "char \<Rightarrow> bool" where
  "is_hexdigit c \<longleftrightarrow>
     (48 \<le> byte c \<and> byte c \<le> 57) \<or> (65 \<le> byte c \<and> byte c \<le> 70) \<or> (97 \<le> byte c \<and> byte c \<le> 102)"

definition hash_is_64_hex_chars :: "digest \<Rightarrow> printer \<Rightarrow> bool" where
  "hash_is_64_hex_chars sha pr \<longleftrightarrow>
     (let hash = compute_hash sha pr ''a'' ''b'' JNull in length hash = 64 \<and> list_all is_hexdigit hash)"

text \<open>The digest separates two framed entries.\<close>

definition separates :: "digest \<Rightarrow> printer \<Rightarrow> (string \<times> string \<times> json) list \<Rightarrow> bool" where
  "separates sha pr es \<longleftrightarrow>
     inj_on sha (set (map (\<lambda>(a, k, v). framed pr a k v) es)) \<and> list_all (\<lambda>(a, k, v). nul_free a \<and> nul_free k) es"

lemma hash_differs:
  assumes "separates sha pr es" and "(a, k, v) \<in> set es" and "(b, l, w) \<in> set es" and "a \<noteq> b \<or> k \<noteq> l"
  shows "compute_hash sha pr a k v \<noteq> compute_hash sha pr b l w"
proof
  assume "compute_hash sha pr a k v = compute_hash sha pr b l w"
  then have "sha (framed pr a k v) = sha (framed pr b l w)" by (simp add: compute_hash_def)
  moreover have "framed pr a k v \<in> set (map (\<lambda>(a, k, v). framed pr a k v) es)"
    "framed pr b l w \<in> set (map (\<lambda>(a, k, v). framed pr a k v) es)" using assms(2,3) by force+
  ultimately have "framed pr a k v = framed pr b l w"
    using assms(1) unfolding separates_def by (metis inj_onD)
  moreover have "nul_free a" "nul_free b" "nul_free k" "nul_free l"
    using assms(1-3) by (auto simp: separates_def list_all_iff)
  ultimately show False using framed_inject [of a b k l pr v w] assms(4) by simp
qed

lemma hash_is_deterministic_passes: "hash_is_deterministic sha pr"
  by (simp add: hash_is_deterministic_def)

lemma different_agents_produce_different_hashes_passes:
  "separates sha pr [(''agent-1'', ''key'', JStr ''value''), (''agent-2'', ''key'', JStr ''value'')] \<Longrightarrow>
     different_agents_produce_different_hashes sha pr"
  by (simp add: different_agents_produce_different_hashes_def hash_differs [of sha pr])

lemma different_keys_produce_different_hashes_passes:
  "separates sha pr [(''agent-1'', ''key-a'', JStr ''value''), (''agent-1'', ''key-b'', JStr ''value'')] \<Longrightarrow>
     different_keys_produce_different_hashes sha pr"
  by (simp add: different_keys_produce_different_hashes_def hash_differs [of sha pr])

lemma hex_digit_is_hexdigit: "n < 16 \<Longrightarrow> is_hexdigit (hex_digit n)"
  by (auto simp: is_hexdigit_def byte_def of_char_hex_digit)

lemma hash_is_64_hex_chars_passes:
  assumes "\<And>s. length (sha s) = 32"
  shows "hash_is_64_hex_chars sha pr"
proof -
  have "byte c div 16 < 16" for c by (simp add: less_mult_imp_div_less)
  then have "list_all is_hexdigit (hex s)" for s
    by (induction s) (auto simp: hex_def hex_byte_def intro: hex_digit_is_hexdigit)
  with assms show ?thesis by (simp add: hash_is_64_hex_chars_def compute_hash_def)
qed

section \<open>Store\<close>

definition test_store :: "db_env \<Rightarrow> (store \<Rightarrow> bool) \<Rightarrow> bool" where
  "test_store env P = (case store_open env [] of Inl _ \<Rightarrow> False | Inr s \<Rightarrow> P s)"

definition unwrap_store :: "(store_error + 'a) \<times> 's \<Rightarrow> ('a \<Rightarrow> 's \<Rightarrow> bool) \<Rightarrow> bool" where
  "unwrap_store r P = (case r of (Inl _, _) \<Rightarrow> False | (Inr x, s) \<Rightarrow> P x s)"

definition write_and_read :: "db_env \<Rightarrow> bool" where
  "write_and_read env =
     test_store env (\<lambda>st.
     unwrap_store (store_write env ''agent-1'' ''research.result'' (JObj [(''found'', JBool True)]) st) (\<lambda>hash st.
     unwrap_store (store_read env hash st) (\<lambda>r _.
       case r of None \<Rightarrow> False
       | Some e \<Rightarrow> en_agent e = ''agent-1'' \<and> en_key e = ''research.result'' \<and>
           en_value e = JObj [(''found'', JBool True)])))"

definition write_is_idempotent :: "db_env \<Rightarrow> bool" where
  "write_is_idempotent env =
     test_store env (\<lambda>st.
     unwrap_store (store_write env ''a'' ''k'' (JStr ''v'') st) (\<lambda>h1 st.
     unwrap_store (store_write env ''a'' ''k'' (JStr ''v'') st) (\<lambda>h2 _. h1 = h2)))"

definition read_nonexistent_returns_none :: "db_env \<Rightarrow> bool" where
  "read_nonexistent_returns_none env =
     test_store env (\<lambda>st. unwrap_store (store_read env ''nonexistent-hash'' st) (\<lambda>r _. r = None))"

definition query_by_prefix_test :: "db_env \<Rightarrow> bool" where
  "query_by_prefix_test env =
     test_store env (\<lambda>st.
     unwrap_store (store_write env ''a'' ''research.topic'' (JStr ''AI'') st) (\<lambda>_ st.
     unwrap_store (store_write env ''a'' ''research.result'' (JStr ''found'') st) (\<lambda>_ st.
     unwrap_store (store_write env ''a'' ''other.key'' (JStr ''nope'') st) (\<lambda>_ st.
     unwrap_store (query_by_prefix env ''research.'' st) (\<lambda>results _.
       length results = 2 \<and> list_all (\<lambda>e. starts_with (en_key e) ''research.'') results)))))"

definition history_returns_entries_for_key :: "db_env \<Rightarrow> bool" where
  "history_returns_entries_for_key env =
     test_store env (\<lambda>st.
     unwrap_store (store_write env ''agent-1'' ''status'' (JStr ''starting'') st) (\<lambda>_ st.
     unwrap_store (store_write env ''agent-2'' ''status'' (JStr ''running'') st) (\<lambda>_ st.
     unwrap_store (store_history env ''status'' st) (\<lambda>history _. length history = 2))))"

definition by_agent_filters_correctly :: "db_env \<Rightarrow> bool" where
  "by_agent_filters_correctly env =
     test_store env (\<lambda>st.
     unwrap_store (store_write env ''agent-1'' ''key-a'' (JNum 1) st) (\<lambda>_ st.
     unwrap_store (store_write env ''agent-1'' ''key-b'' (JNum 2) st) (\<lambda>_ st.
     unwrap_store (store_write env ''agent-2'' ''key-c'' (JNum 3) st) (\<lambda>_ st.
     unwrap_store (by_agent env ''agent-1'' st) (\<lambda>entries _.
       length entries = 2 \<and> list_all (\<lambda>e. en_agent e = ''agent-1'') entries)))))"

text \<open>What the tests need of the libraries, for the entries \<open>es\<close> that they write.\<close>

definition in_memory :: "db_env \<Rightarrow> (string \<times> string \<times> json) list \<Rightarrow> bool" where
  "in_memory env es \<longleftrightarrow> (\<forall>n. dv_sql env n = None) \<and> is_desc (dv_order env) \<and>
     separates (dv_sha env) (dv_print env) es \<and> list_all (\<lambda>(_, _, v). prints (dv_print env) (dv_parse env) v) es"

lemma sql_runs: "(\<forall>n. dv_sql env n = None) \<Longrightarrow> sql env s = (None, s\<lparr>st_calls := st_calls s + 1\<rparr>)"
  by (simp add: sql_def)

lemma test_store_runs: "(\<forall>n. dv_sql env n = None) \<Longrightarrow> test_store env P = P \<lparr>st_rows = [], st_calls = 2\<rparr>"
  by (simp add: test_store_def store_open_def sql_runs eval_nat_numeral)

text \<open>A write of one of the entries whose address is new to the table.\<close>

definition row_of :: "db_env \<Rightarrow> store \<Rightarrow> string \<Rightarrow> string \<Rightarrow> json \<Rightarrow> row" where
  "row_of env s a k v =
     \<lparr>r_hash = compute_hash (dv_sha env) (dv_print env) a k v, r_agent = a, r_key = k,
      r_value = projr (dv_print env v), r_time = current_timestamp env s\<rparr>"

abbreviation hash_of :: "db_env \<Rightarrow> string \<Rightarrow> string \<Rightarrow> json \<Rightarrow> string" where
  "hash_of env \<equiv> compute_hash (dv_sha env) (dv_print env)"

lemma write_runs:
  assumes "in_memory env es" and "(a, k, v) \<in> set es" and "hash_of env a k v \<notin> set (map r_hash (st_rows s))"
  shows "unwrap_store (store_write env a k v s) P =
    P (hash_of env a k v) (s\<lparr>st_calls := st_calls s + 1, st_rows := st_rows s @ [row_of env s a k v]\<rparr>)"
proof -
  obtain t where t: "dv_print env v = Inr t" using assms(1,2) by (auto simp: in_memory_def list_all_iff prints_def)
  with assms show ?thesis
    by (simp add: unwrap_store_def store_write_def sql_runs in_memory_def insert_or_ignore_def row_of_def Let_def)
qed

lemma in_memory_differs:
  assumes "in_memory env es" and "(a, k, v) \<in> set es" and "(b, l, w) \<in> set es" and "a \<noteq> b \<or> k \<noteq> l"
  shows "hash_of env a k v \<noteq> hash_of env b l w"
  using assms by (simp add: in_memory_def hash_differs [of "dv_sha env" "dv_print env" es])

lemma read_runs:
  "in_memory env es \<Longrightarrow> unwrap_store (store_read env h s) P =
     P (case filter (\<lambda>r. r_hash r = h) (st_rows s) of [] \<Rightarrow> None | r # _ \<Rightarrow> Some (entry_of_row env r)) (s\<lparr>st_calls := st_calls s + 2\<rparr>)"
  by (simp add: unwrap_store_def store_read_def sql_runs in_memory_def eval_nat_numeral)

lemma select_runs:
  "in_memory env es \<Longrightarrow> unwrap_store (select_desc env Q s) P =
     P (map (entry_of_row env) (dv_order env (filter Q (st_rows s)))) (s\<lparr>st_calls := st_calls s + 3\<rparr>)"
  by (simp add: unwrap_store_def select_desc_def sql_runs in_memory_def eval_nat_numeral)

lemma entry_of_row_of:
  "prints (dv_print env) (dv_parse env) v \<Longrightarrow> entry_of_row env (row_of env s a k v) =
     \<lparr>en_hash = compute_hash (dv_sha env) (dv_print env) a k v, en_agent = a, en_key = k, en_value = v,
      en_time = current_timestamp env s\<rparr>"
  by (auto simp: entry_of_row_def row_of_def prints_def)

lemma row_of_simps [simp]:
  "r_agent (row_of env s a k v) = a" "r_key (row_of env s a k v) = k"
  "r_hash (row_of env s a k v) = compute_hash (dv_sha env) (dv_print env) a k v"
  by (simp_all add: row_of_def)

lemma order_length: "in_memory env es \<Longrightarrow> length (dv_order env rs) = length rs"
  by (metis in_memory_def is_desc_def mset_eq_length)

lemma order_all: "in_memory env es \<Longrightarrow> list_all P (dv_order env rs) = list_all P rs"
  by (simp add: in_memory_def is_desc_set list_all_iff)

lemma write_and_read_passes:
  assumes "in_memory env [(''agent-1'', ''research.result'', JObj [(''found'', JBool True)])]"
  shows "write_and_read env"
proof -
  have "\<forall>n. dv_sql env n = None" "prints (dv_print env) (dv_parse env) (JObj [(''found'', JBool True)])"
    using assms by (simp_all add: in_memory_def)
  then show ?thesis
    by (simp add: write_and_read_def test_store_runs write_runs [OF assms] read_runs [OF assms] entry_of_row_of)
qed

lemma read_nonexistent_returns_none_passes:
  assumes "in_memory env []"
  shows "read_nonexistent_returns_none env"
  using assms by (simp add: read_nonexistent_returns_none_def test_store_runs read_runs [OF assms] in_memory_def)

lemma write_is_idempotent_passes:
  assumes "in_memory env [(''a'', ''k'', JStr ''v'')]"
  shows "write_is_idempotent env"
proof -
  have r: "\<forall>n. dv_sql env n = None" using assms by (simp add: in_memory_def)
  obtain t where "dv_print env (JStr ''v'') = Inr t" using assms by (auto simp: in_memory_def prints_def)
  with r show ?thesis
    by (simp add: write_is_idempotent_def test_store_runs unwrap_store_def store_write_def sql_runs Let_def)
qed

lemma history_returns_entries_for_key_passes:
  assumes "in_memory env [(''agent-1'', ''status'', JStr ''starting''), (''agent-2'', ''status'', JStr ''running'')]"
  shows "history_returns_entries_for_key env"
proof -
  have r: "\<forall>n. dv_sql env n = None" using assms by (simp add: in_memory_def)
  have d: "hash_of env ''agent-2'' ''status'' (JStr ''running'') \<noteq> hash_of env ''agent-1'' ''status'' (JStr ''starting'')"
    by (rule in_memory_differs [OF assms]; simp)+
  show ?thesis
    unfolding history_returns_entries_for_key_def test_store_runs [OF r]
    by (subst write_runs [OF assms], simp, simp, subst write_runs [OF assms], simp, simp add: d)
      (simp add: store_history_def select_runs [OF assms] order_length [OF assms])
qed

lemma by_agent_filters_correctly_passes:
  assumes "in_memory env [(''agent-1'', ''key-a'', JNum 1), (''agent-1'', ''key-b'', JNum 2), (''agent-2'', ''key-c'', JNum 3)]"
  shows "by_agent_filters_correctly env"
proof -
  have r: "\<forall>n. dv_sql env n = None" using assms by (simp add: in_memory_def)
  have d: "hash_of env ''agent-1'' ''key-b'' (JNum 2) \<noteq> hash_of env ''agent-1'' ''key-a'' (JNum 1)"
    "hash_of env ''agent-2'' ''key-c'' (JNum 3) \<noteq> hash_of env ''agent-1'' ''key-a'' (JNum 1)"
    "hash_of env ''agent-2'' ''key-c'' (JNum 3) \<noteq> hash_of env ''agent-1'' ''key-b'' (JNum 2)"
    by (rule in_memory_differs [OF assms]; simp)+
  show ?thesis
    unfolding by_agent_filters_correctly_def test_store_runs [OF r]
    by (subst write_runs [OF assms], simp, simp, subst write_runs [OF assms], simp, simp add: d, subst write_runs [OF assms], simp, simp add: d)
      (simp add: by_agent_def select_runs [OF assms] order_length [OF assms] list.pred_map comp_def
        order_all [OF assms] entry_of_row_def)
qed

lemma query_by_prefix_passes:
  assumes "in_memory env [(''a'', ''research.topic'', JStr ''AI''), (''a'', ''research.result'', JStr ''found''),
    (''a'', ''other.key'', JStr ''nope'')]"
  shows "query_by_prefix_test env"
proof -
  have r: "\<forall>n. dv_sql env n = None" using assms by (simp add: in_memory_def)
  have l: "sql_like (prefix_pattern ''research.'') ''research.topic''" "sql_like (prefix_pattern ''research.'') ''research.result''"
    "\<not> sql_like (prefix_pattern ''research.'') ''other.key''"
    by code_simp+
  have d: "hash_of env ''a'' ''research.result'' (JStr ''found'') \<noteq> hash_of env ''a'' ''research.topic'' (JStr ''AI'')"
    "hash_of env ''a'' ''other.key'' (JStr ''nope'') \<noteq> hash_of env ''a'' ''research.topic'' (JStr ''AI'')"
    "hash_of env ''a'' ''other.key'' (JStr ''nope'') \<noteq> hash_of env ''a'' ''research.result'' (JStr ''found'')"
    by (rule in_memory_differs [OF assms]; simp)+
  show ?thesis
    unfolding query_by_prefix_test_def test_store_runs [OF r]
    by (subst write_runs [OF assms], simp, simp, subst write_runs [OF assms], simp, simp add: d, subst write_runs [OF assms], simp, simp add: d)
      (simp add: query_by_prefix_def select_runs [OF assms] order_length [OF assms] list.pred_map comp_def
        order_all [OF assms] entry_of_row_def l starts_with_def)
qed

section \<open>Query interface\<close>

definition test_graph :: "db_env \<Rightarrow> (graph \<Rightarrow> bool) \<Rightarrow> bool" where
  "test_graph env P = (case store_open env [] of Inl _ \<Rightarrow> False | Inr s \<Rightarrow> P \<lparr>g_store = s\<rparr>)"

definition graph_write_and_read :: "db_env \<Rightarrow> bool" where
  "graph_write_and_read env =
     test_graph env (\<lambda>g.
     unwrap_store (graph_write env ''test-agent'' ''key'' (JStr ''value'') g) (\<lambda>hash g.
     unwrap_store (graph_read env hash g) (\<lambda>r _.
       case r of None \<Rightarrow> False | Some e \<Rightarrow> en_agent e = ''test-agent'')))"

definition graph_cross_agent_visibility :: "db_env \<Rightarrow> bool" where
  "graph_cross_agent_visibility env =
     test_graph env (\<lambda>g.
     unwrap_store (graph_write env ''agent-a'' ''shared.data'' (JObj [(''x'', JNum 1)]) g) (\<lambda>hash g.
     unwrap_store (graph_read env hash g) (\<lambda>r _.
       case r of None \<Rightarrow> False | Some e \<Rightarrow> en_agent e = ''agent-a'' \<and> en_value e = JObj [(''x'', JNum 1)])))"

lemma unwrap_graph:
  "unwrap_store (graph_write env a k v g) P = unwrap_store (store_write env a k v (g_store g)) (\<lambda>h s. P h (g\<lparr>g_store := s\<rparr>))"
  "unwrap_store (graph_read env h g) P' = unwrap_store (store_read env h (g_store g)) (\<lambda>r s. P' r (g\<lparr>g_store := s\<rparr>))"
  by (auto simp: unwrap_store_def graph_write_def graph_read_def split: prod.splits sum.splits)

lemma test_graph_runs: "test_graph env P = test_store env (\<lambda>s. P \<lparr>g_store = s\<rparr>)"
  by (simp add: test_graph_def test_store_def)

lemma graph_write_and_read_passes:
  assumes "in_memory env [(''test-agent'', ''key'', JStr ''value'')]"
  shows "graph_write_and_read env"
proof -
  have "\<forall>n. dv_sql env n = None" "prints (dv_print env) (dv_parse env) (JStr ''value'')"
    using assms by (simp_all add: in_memory_def)
  then show ?thesis
    by (simp add: graph_write_and_read_def test_graph_runs test_store_runs unwrap_graph write_runs [OF assms]
      read_runs [OF assms] entry_of_row_of)
qed

lemma graph_cross_agent_visibility_passes:
  assumes "in_memory env [(''agent-a'', ''shared.data'', JObj [(''x'', JNum 1)])]"
  shows "graph_cross_agent_visibility env"
proof -
  have "\<forall>n. dv_sql env n = None" "prints (dv_print env) (dv_parse env) (JObj [(''x'', JNum 1)])"
    using assms by (simp_all add: in_memory_def)
  then show ?thesis
    by (simp add: graph_cross_agent_visibility_def test_graph_runs test_store_runs unwrap_graph write_runs [OF assms]
      read_runs [OF assms] entry_of_row_of)
qed

end
