(* ===== verification/Tests_Warden.thy ===== *)
theory Tests_Warden
  imports Test_Lib Vault
begin

text \<open>
  The unit tests of \<open>pkg/warden\<close>: \<open>crypto.rs\<close>, \<open>master_key.rs\<close> and \<open>vault.rs\<close>. The variables that a test
  sets are the environment of the process, the temporary directory is that of the vault. The tests that
  look for the secret or for a fresh nonce in the text of the file are about the libraries and are left out.
\<close>

section \<open>Encryption\<close>

definition test_key :: string where
  "test_key = CHR 0xAB # replicate 30 (CHR 0x00) @ [CHR 0xCD]"

definition unwrap_crypto :: "'e + 'a \<Rightarrow> ('a \<Rightarrow> bool) \<Rightarrow> bool" where
  "unwrap_crypto r P = (case r of Inl _ \<Rightarrow> False | Inr x \<Rightarrow> P x)"

definition encrypt_decrypt_roundtrip :: "crypto_env \<Rightarrow> nat \<Rightarrow> bool" where
  "encrypt_decrypt_roundtrip cr n =
     unwrap_crypto (fst (encrypt cr ''secret-api-key-12345'' test_key n)) (\<lambda>(ciphertext, nonce).
     unwrap_crypto (decrypt cr ciphertext test_key nonce) (\<lambda>decrypted. decrypted = ''secret-api-key-12345''))"

definition wrong_key_fails_decrypt :: "crypto_env \<Rightarrow> nat \<Rightarrow> bool" where
  "wrong_key_fails_decrypt cr n =
     (let wrong_key = test_key[0 := CHR 0xFF]
      in unwrap_crypto (fst (encrypt cr ''secret'' test_key n)) (\<lambda>(ciphertext, nonce).
           case decrypt cr ciphertext wrong_key nonce of Inl _ \<Rightarrow> True | Inr _ \<Rightarrow> False))"

definition unique_nonces_per_encrypt :: "crypto_env \<Rightarrow> nat \<Rightarrow> bool" where
  "unique_nonces_per_encrypt cr n =
     (case encrypt cr ''same-input'' test_key n of
        (r1, n1) \<Rightarrow> unwrap_crypto r1 (\<lambda>(ct1, nonce1).
          unwrap_crypto (fst (encrypt cr ''same-input'' test_key n1)) (\<lambda>(ct2, nonce2).
            nonce1 \<noteq> nonce2 \<and> ct1 \<noteq> ct2)))"

definition derive_key_deterministic :: "crypto_env \<Rightarrow> bool" where
  "derive_key_deterministic cr \<longleftrightarrow>
     (let salt = replicate 16 (CHR 0x01); k1 = derive_key cr ''passphrase'' salt; k2 = derive_key cr ''passphrase'' salt
      in k1 = k2)"

definition derive_key_different_salt :: "crypto_env \<Rightarrow> bool" where
  "derive_key_different_salt cr \<longleftrightarrow>
     derive_key cr ''passphrase'' (replicate 16 (CHR 0x01)) \<noteq> derive_key cr ''passphrase'' (replicate 16 (CHR 0x02))"

definition generate_salt_unique :: "crypto_env \<Rightarrow> nat \<Rightarrow> bool" where
  "generate_salt_unique cr n =
     (case generate_salt cr n of
        (r1, n1) \<Rightarrow> unwrap_crypto r1 (\<lambda>s1. unwrap_crypto (fst (generate_salt cr n1)) (\<lambda>s2. s1 \<noteq> s2)))"

text \<open>
  The library at work: the generator does not fail, and a key of 32 bytes is accepted and seals every
  text. What a test needs of the generator not repeating itself or of a wrong key is said with it.
\<close>

definition crypto_works :: "crypto_env \<Rightarrow> bool" where
  "crypto_works cr \<longleftrightarrow> crypto_laws cr \<and> (\<forall>n l. cr_random cr n l \<noteq> None) \<and>
     (\<forall>k. length k = 32 \<longrightarrow> cr_key_ok cr k \<and> (\<forall>n p. cr_seal cr k n p \<noteq> None))"

lemma test_key_length [simp]: "length test_key = 32"
  by (simp add: test_key_def)

lemma encrypt_works:
  assumes "crypto_works cr" and "length k = 32"
  obtains c nonce where "encrypt cr p k n = (Inr (c, nonce), n + 1)" "cr_random cr n 12 = Some nonce"
    "cr_seal cr k nonce p = Some c"
proof -
  obtain nonce where r: "cr_random cr n 12 = Some nonce" using assms(1) unfolding crypto_works_def by blast
  obtain c where c: "cr_seal cr k nonce p = Some c" using assms unfolding crypto_works_def by blast
  have "cr_key_ok cr k" using assms by (simp add: crypto_works_def)
  with r c show ?thesis by (intro that [of c nonce]) (simp_all add: encrypt_def)
qed

lemma encrypt_decrypt_roundtrip_passes: "crypto_works cr \<Longrightarrow> encrypt_decrypt_roundtrip cr n"
proof -
  assume w: "crypto_works cr"
  then obtain c nonce where e: "encrypt cr ''secret-api-key-12345'' test_key n = (Inr (c, nonce), n + 1)"
    by (rule encrypt_works [OF _ test_key_length])
  have "crypto_laws cr" using w by (simp add: crypto_works_def)
  from decrypt_encrypt(1) [OF this e] e show ?thesis by (simp add: encrypt_decrypt_roundtrip_def unwrap_crypto_def)
qed

lemma wrong_key_fails_decrypt_passes:
  assumes w: "crypto_works cr"
    and x: "\<And>nonce c. cr_seal cr test_key nonce ''secret'' = Some c \<Longrightarrow> cr_open cr (test_key[0 := CHR 0xFF]) nonce c = None"
  shows "wrong_key_fails_decrypt cr n"
proof -
  obtain c nonce where e: "encrypt cr ''secret'' test_key n = (Inr (c, nonce), n + 1)"
    and c: "cr_seal cr test_key nonce ''secret'' = Some c"
    using w by (rule encrypt_works [OF _ test_key_length])
  with e x [OF c] show ?thesis by (simp add: wrong_key_fails_decrypt_def unwrap_crypto_def decrypt_def Let_def)
qed

lemma unique_nonces_per_encrypt_passes:
  assumes w: "crypto_works cr" and r: "cr_random cr n 12 \<noteq> cr_random cr (n + 1) 12"
    and x: "inj_on (\<lambda>nonce. cr_seal cr test_key nonce ''same-input'') {nonce. length nonce = 12}"
  shows "unique_nonces_per_encrypt cr n"
proof -
  obtain c1 n1 where e1: "encrypt cr ''same-input'' test_key n = (Inr (c1, n1), n + 1)" "cr_random cr n 12 = Some n1"
    "cr_seal cr test_key n1 ''same-input'' = Some c1"
    using w by (rule encrypt_works [OF _ test_key_length])
  obtain c2 n2 where e2: "encrypt cr ''same-input'' test_key (n + 1) = (Inr (c2, n2), n + 1 + 1)"
    "cr_random cr (n + 1) 12 = Some n2" "cr_seal cr test_key n2 ''same-input'' = Some c2"
    using w by (rule encrypt_works [OF _ test_key_length])
  have "n1 \<noteq> n2" using r e1(2) e2(2) by simp
  moreover have "length n1 = 12" "length n2 = 12"
    using w e1(2) e2(2) unfolding crypto_works_def crypto_laws_def by blast+
  ultimately have "n1 \<noteq> n2 \<and> c1 \<noteq> c2" using inj_onD [OF x, of n1 n2] e1(3) e2(3) by auto
  then show ?thesis using e1(1) e2(1) by (simp add: unique_nonces_per_encrypt_def unwrap_crypto_def)
qed

lemma derive_key_deterministic_passes: "derive_key_deterministic cr"
  by (simp add: derive_key_deterministic_def)

lemma derive_key_different_salt_passes:
  "inj_on (\<lambda>s. cr_pbkdf2 cr 600000 s ''passphrase'') {s. length s = 16 \<and> set s \<subseteq> {CHR 0x01, CHR 0x02}} \<Longrightarrow>
     derive_key_different_salt cr"
  by (auto simp: derive_key_different_salt_def derive_key_def dest: inj_onD)

lemma generate_salt_unique_passes:
  assumes "crypto_works cr" and "cr_random cr n 16 \<noteq> cr_random cr (n + 1) 16"
  shows "generate_salt_unique cr n"
proof -
  obtain s1 where "cr_random cr n 16 = Some s1" using assms(1) unfolding crypto_works_def by blast
  moreover obtain s2 where "cr_random cr (n + 1) 16 = Some s2" using assms(1) unfolding crypto_works_def by blast
  ultimately show ?thesis using assms(2) by (simp add: generate_salt_unique_def unwrap_crypto_def generate_salt_def)
qed

section \<open>Master key\<close>

text \<open>\<open>resolve\<close> in a process with the variables \<open>WARDEN_MASTER_KEY\<close> and \<open>WARDEN_PASSPHRASE\<close>.\<close>

definition resolve_with ::
    "crypto_env \<Rightarrow> string option \<Rightarrow> string option \<Rightarrow> string option \<Rightarrow> fs \<Rightarrow> master_key_error + string" where
  "resolve_with cr k p salt f = fst (resolve_key cr \<lparr>wv_key = k, wv_passphrase = p\<rparr> (\<lambda>_. None) salt f)"

definition ab_key :: string where
  "ab_key = concat (replicate 32 ''ab'')"

definition hex_env_var :: "crypto_env \<Rightarrow> string option \<Rightarrow> fs \<Rightarrow> bool" where
  "hex_env_var cr p f =
     unwrap_crypto (resolve_with cr (Some ab_key) p None f)
       (\<lambda>key. length key = 32 \<and> key ! 0 = CHR 0xAB \<and> key ! 31 = CHR 0xAB)"

definition invalid_hex_rejected :: "crypto_env \<Rightarrow> string option \<Rightarrow> fs \<Rightarrow> bool" where
  "invalid_hex_rejected cr p f =
     (case resolve_with cr (Some ''not-hex!'') p None f of Inl _ \<Rightarrow> True | Inr _ \<Rightarrow> False)"

definition wrong_length_rejected :: "crypto_env \<Rightarrow> string option \<Rightarrow> fs \<Rightarrow> bool" where
  "wrong_length_rejected cr p f \<longleftrightarrow> resolve_with cr (Some ''aabb'') p None f = Inl (WrongLength 2)"

definition passphrase_derivation :: "crypto_env \<Rightarrow> fs \<Rightarrow> bool" where
  "passphrase_derivation cr f =
     (let salt = replicate 16 (CHR 0x2A); r = resolve_with cr None (Some ''test-passphrase'') (Some salt) f
      in unwrap_crypto r (\<lambda>key. length key = 32 \<and>
           unwrap_crypto (resolve_with cr None (Some ''test-passphrase'') (Some salt) f) (\<lambda>key2. key = key2)))"

definition no_key_source_fails :: "crypto_env \<Rightarrow> fs \<Rightarrow> bool" where
  "no_key_source_fails cr f \<longleftrightarrow> resolve_with cr None None None f = Inl NoKeySource"

text \<open>How the library decodes the texts of the tests.\<close>

definition decodes_hex :: "crypto_env \<Rightarrow> bool" where
  "decodes_hex cr \<longleftrightarrow> cr_hex_decode cr ab_key = Some (replicate 32 (CHR 0xAB)) \<and>
     cr_hex_decode cr ''not-hex!'' = None \<and> cr_hex_decode cr ''aabb'' = Some [CHR 0xAA, CHR 0xBB]"

lemma test_trims [simp]: "trim ab_key = ab_key" "trim ''not-hex!'' = ''not-hex!''" "trim ''aabb'' = ''aabb''"
proof -
  have "ab_key = CHR ''a'' # (CHR ''b'' # concat (replicate 30 ''ab'') @ [CHR ''a'']) @ [CHR ''b'']"
    by (simp add: ab_key_def eval_nat_numeral)
  with trim_printable [of "CHR ''a''" "CHR ''b''" "CHR ''b'' # concat (replicate 30 ''ab'') @ [CHR ''a'']"]
  show "trim ab_key = ab_key" by (simp add: byte_def)
  show "trim ''not-hex!'' = ''not-hex!''" "trim ''aabb'' = ''aabb''"
    using trim_printable [of "CHR ''n''" "CHR ''!''" "''ot-hex''"] trim_printable [of "CHR ''a''" "CHR ''b''" "''ab''"]
    by (simp_all add: byte_def)
qed

lemma variable_tests_pass:
  assumes "decodes_hex cr"
  shows "hex_env_var cr p f" and "invalid_hex_rejected cr p f" and "wrong_length_rejected cr p f"
  using assms by (simp_all add: hex_env_var_def invalid_hex_rejected_def wrong_length_rejected_def resolve_with_def
    resolve_key_def decodes_hex_def key_of_bytes_def unwrap_crypto_def)

lemma passphrase_tests_pass:
  assumes "crypto_laws cr" and "\<not> fs_exists master_key_path f"
  shows "passphrase_derivation cr f" and "no_key_source_fails cr f"
  using assms by (simp_all add: passphrase_derivation_def no_key_source_fails_def resolve_with_def resolve_key_def
    unwrap_crypto_def Let_def derive_key_def crypto_laws_def)

section \<open>Vault\<close>

text \<open>\<open>setup_key\<close> and a vault file that is not there: what \<open>Vault::load\<close> gives.\<close>

definition test_setup :: "vault_env \<Rightarrow> bool" where
  "test_setup env \<longleftrightarrow> ve_vars env = \<lparr>wv_key = Some ab_key, wv_passphrase = None\<rparr> \<and> ve_io env = (\<lambda>_. None) \<and>
     decodes_hex (ve_crypto env) \<and> crypto_works (ve_crypto env) \<and> json_laws env \<and> is_iter (ve_it env)"

definition loaded :: "vault_env \<Rightarrow> string \<Rightarrow> vault_world \<Rightarrow> (vault \<Rightarrow> vault_world \<Rightarrow> bool) \<Rightarrow> bool" where
  "loaded env path w P = (case vault_load env path w of (Inl _, _) \<Rightarrow> False | (Inr v, w') \<Rightarrow> P v w')"

definition new_vault_is_empty :: "vault_env \<Rightarrow> string \<Rightarrow> vault_world \<Rightarrow> bool" where
  "new_vault_is_empty env path w = loaded env path w (\<lambda>v _. list_keys env v = [])"

definition set_save_load_roundtrip :: "vault_env \<Rightarrow> string \<Rightarrow> vault_world \<Rightarrow> bool" where
  "set_save_load_roundtrip env path w =
     loaded env path w (\<lambda>v w1.
       case vault_save env path (vault_set ''EXA_KEY'' ''exa-456'' (vault_set ''OPENAI_KEY'' ''sk-test123'' v)) w1 of
         (Inl _, _) \<Rightarrow> False
       | (Inr _, w2) \<Rightarrow> loaded env path w2 (\<lambda>v2 _.
           let all = vault_get [''OPENAI_KEY'', ''EXA_KEY''] v2
           in map_of all ''OPENAI_KEY'' = Some ''sk-test123'' \<and> map_of all ''EXA_KEY'' = Some ''exa-456''))"

definition get_filters_to_requested_keys :: "vault_env \<Rightarrow> string \<Rightarrow> vault_world \<Rightarrow> bool" where
  "get_filters_to_requested_keys env path w =
     loaded env path w (\<lambda>v _.
       let v = vault_set ''KEY_C'' ''val_c'' (vault_set ''KEY_B'' ''val_b'' (vault_set ''KEY_A'' ''val_a'' v));
           filtered = vault_get [''KEY_A'', ''KEY_C''] v
       in length filtered = 2 \<and> map_of filtered ''KEY_A'' \<noteq> None \<and> map_of filtered ''KEY_C'' \<noteq> None \<and>
          map_of filtered ''KEY_B'' = None)"

definition get_missing_keys_omitted :: "vault_env \<Rightarrow> string \<Rightarrow> vault_world \<Rightarrow> bool" where
  "get_missing_keys_omitted env path w =
     loaded env path w (\<lambda>v _.
       let filtered = vault_get [''EXISTS'', ''MISSING''] (vault_set ''EXISTS'' ''yes'' v)
       in length filtered = 1 \<and> map_of filtered ''EXISTS'' = Some ''yes'')"

definition delete_removes_key :: "vault_env \<Rightarrow> string \<Rightarrow> vault_world \<Rightarrow> bool" where
  "delete_removes_key env path w =
     loaded env path w (\<lambda>v _.
       let (r1, v1) = vault_delete ''TO_DELETE'' (vault_set ''TO_DELETE'' ''val'' v);
           (r2, v2) = vault_delete ''TO_DELETE'' v1
       in r1 \<and> \<not> r2 \<and> list_keys env v2 = [])"

definition list_keys_sorted :: "vault_env \<Rightarrow> string \<Rightarrow> vault_world \<Rightarrow> bool" where
  "list_keys_sorted env path w =
     loaded env path w (\<lambda>v _.
       list_keys env (vault_set ''MIDDLE'' ''m'' (vault_set ''ALPHA'' ''a'' (vault_set ''ZEBRA'' ''z'' v))) =
         [''ALPHA'', ''MIDDLE'', ''ZEBRA''])"

lemma loaded_new:
  assumes "test_setup env" and "\<not> fs_exists path f"
  obtains salt where "length salt = 16" "\<And>P. loaded env path (f, n) P \<longleftrightarrow>
    P \<lparr>va_secrets = [], va_key = replicate 32 (CHR 0xAB), va_salt = salt\<rparr> (f, n + 1)"
proof -
  have w: "crypto_works (ve_crypto env)" and d: "decodes_hex (ve_crypto env)" using assms(1) by (simp_all add: test_setup_def)
  obtain salt where s: "cr_random (ve_crypto env) n 16 = Some salt" using w unfolding crypto_works_def by blast
  then have "length salt = 16" using w unfolding crypto_works_def crypto_laws_def by blast
  moreover have "resolve_key (ve_crypto env) (ve_vars env) (ve_io env) (Some salt) f = (Inr (replicate 32 (CHR 0xAB)), f)"
    using assms(1) d by (simp add: test_setup_def resolve_key_def decodes_hex_def key_of_bytes_def)
  ultimately show ?thesis
    using s assms(2) by (intro that [of salt]) (simp_all add: loaded_def vault_load_def generate_salt_def)
qed

lemma new_vault_is_empty_passes:
  assumes "test_setup env" and "\<not> fs_exists path f"
  shows "new_vault_is_empty env path (f, n)"
proof -
  have "ve_it env [] = []" using assms(1) by (simp add: test_setup_def iter_none)
  then show ?thesis
    by (rule_tac loaded_new [OF assms, of n]) (simp add: new_vault_is_empty_def list_keys_def)
qed

lemma get_tests_pass:
  assumes "test_setup env" and "\<not> fs_exists path f"
  shows "get_filters_to_requested_keys env path (f, n)" and "get_missing_keys_omitted env path (f, n)"
  by (rule loaded_new [OF assms, of n], simp add: get_filters_to_requested_keys_def get_missing_keys_omitted_def
    vault_get_def vault_set_def map_filter_simps)+

lemma delete_removes_key_passes:
  assumes "test_setup env" and "\<not> fs_exists path f"
  shows "delete_removes_key env path (f, n)"
proof -
  have "ve_it env [] = []" using assms(1) by (simp add: test_setup_def iter_none)
  then show ?thesis
    by (rule_tac loaded_new [OF assms, of n]) (simp add: delete_removes_key_def vault_delete_def vault_set_def list_keys_def)
qed

lemma list_keys_sorted_passes:
  assumes "test_setup env" and "\<not> fs_exists path f"
  shows "list_keys_sorted env path (f, n)"
proof -
  have "mset (map fst (ve_it env [(''ZEBRA'', ''z''), (''ALPHA'', ''a''), (''MIDDLE'', ''m'')])) =
      mset [''ALPHA'', ''MIDDLE'', ''ZEBRA'']"
    using assms(1) by (simp add: test_setup_def is_iter_def)
  moreover have "sorted [''ALPHA'', ''MIDDLE'', ''ZEBRA'']" by code_simp
  ultimately have "sort (map fst (ve_it env [(''ZEBRA'', ''z''), (''ALPHA'', ''a''), (''MIDDLE'', ''m'')])) =
      [''ALPHA'', ''MIDDLE'', ''ZEBRA'']"
    by (rule properties_for_sort [OF sym])
  then show ?thesis
    by (rule_tac loaded_new [OF assms, of n]) (simp add: list_keys_sorted_def vault_set_def list_keys_def)
qed

lemma get_pair:
  assumes "map_of (va_secrets v) k = Some x" and "map_of (va_secrets v) l = Some y" and "k \<noteq> l"
  shows "map_of (vault_get [k, l] v) k = Some x" "map_of (vault_get [k, l] v) l = Some y"
  using assms by (simp_all add: vault_get_def map_filter_simps)

lemma save_runs:
  assumes "test_setup env" and "nodes f = []" and "length (va_key v) = 32"
    and "ve_print env (string_map_json (ve_it env (va_secrets v))) = Inr p" and "\<And>vf. ve_pretty env (vault_file_json vf) \<in> range Inr"
  obtains f' n' where "vault_save env vault_path v (f, n) = (Inr (), (f', n'))"
proof -
  have io: "ve_io env = (\<lambda>_. None)" and w: "crypto_works (ve_crypto env)" using assms(1) by (simp_all add: test_setup_def)
  obtain c nonce where e: "encrypt (ve_crypto env) p (va_key v) n = (Inr (c, nonce), n + 1)"
    using w assms(3) by (rule encrypt_works)
  obtain t where y: "ve_pretty env (vault_file_json \<lparr>vf_salt = cr_hex_encode (ve_crypto env) (va_salt v),
      vf_nonce = cr_hex_encode (ve_crypto env) nonce, vf_ciphertext = cr_hex_encode (ve_crypto env) c\<rparr>) = Inr t"
    using assms(5) by fast
  have mk: "fs_mkdirs (\<lambda>_. None) ''/run/warden'' f = (Inr (), set_node ''/run/warden'' Dir (fs_tick f))"
    by (simp add: fs_mkdirs_def assms(2))
  have "\<exists>f' n'. vault_save env vault_path v (f, n) = (Inr (), (f', n'))"
    unfolding vault_save_def Let_def prod.case io
    by (simp add: mk e y assms(4)) (simp add: fs_write_def fs_rename_def assms(2) no_file_def vault_path_def
      vault_paths(2) [unfolded vault_path_def])
  then show ?thesis using that by blast
qed

lemma set_save_load_roundtrip_passes:
  assumes "test_setup env" and "nodes f = []"
    and "\<And>m. ve_print env (string_map_json m) \<in> range Inr" and "\<And>vf. ve_pretty env (vault_file_json vf) \<in> range Inr"
  shows "set_save_load_roundtrip env vault_path (f, n)"
proof -
  have "\<not> fs_exists vault_path f" by (simp add: fs_exists_def assms(2))
  then obtain salt where salt: "length salt = 16" "\<And>P. loaded env vault_path (f, n) P \<longleftrightarrow>
      P \<lparr>va_secrets = [], va_key = replicate 32 (CHR 0xAB), va_salt = salt\<rparr> (f, n + 1)"
    by (rule loaded_new [OF assms(1)]) blast
  let ?v = "\<lparr>va_secrets = [(''OPENAI_KEY'', ''sk-test123''), (''EXA_KEY'', ''exa-456'')],
    va_key = replicate 32 (CHR 0xAB), va_salt = salt\<rparr>"
  have s: "vault_set ''EXA_KEY'' ''exa-456'' (vault_set ''OPENAI_KEY'' ''sk-test123''
      \<lparr>va_secrets = [], va_key = replicate 32 (CHR 0xAB), va_salt = salt\<rparr>) = ?v"
    by (simp add: vault_set_def)
  have env: "env\<lparr>ve_io := \<lambda>_. None\<rparr> = env" "crypto_laws (ve_crypto env)" "json_laws env" "is_iter (ve_it env)"
    using assms(1) by (auto simp: test_setup_def crypto_works_def intro: vault_env.equality)
  obtain p where p: "ve_print env (string_map_json (ve_it env (va_secrets ?v))) = Inr p" using assms(3) by fast
  obtain f' n' where v: "vault_save env vault_path ?v (f, n + 1) = (Inr (), (f', n'))"
    by (rule save_runs [OF assms(1,2) _ p assms(4)]) (simp, blast)
  have ok: "vault_ok ?v" using salt(1) by (simp add: vault_ok_def hm_ok_def)
  obtain t where t: "file_of f' vault_path = Some t" "holds_vault env t ?v"
    using vault_save_holds [OF env(2-4) ok v] by blast
  have "fst (resolve_key (ve_crypto env) (ve_vars env) (\<lambda>_. None) (Some (va_salt ?v)) f') = Inr (va_key ?v)"
    using assms(1) by (simp add: test_setup_def resolve_key_def decodes_hex_def key_of_bytes_def)
  from vault_load_holds [OF t this] env(1) obtain v' w where
    "vault_load env vault_path (f', n') = (Inr v', w)" "map_of (va_secrets v') = map_of (va_secrets ?v)" by metis
  then show ?thesis
    using get_pair [of v' "''OPENAI_KEY''" _ "''EXA_KEY''"]
    unfolding set_save_load_roundtrip_def salt(2) s v by (simp add: loaded_def)
qed

end
