(* ===== verification/Tests_Web.thy ===== *)
theory Tests_Web
  imports Web
begin

text \<open>The unit tests of \<open>pkg/nullweb/src/routes.rs\<close>.\<close>

definition base64_encode_empty :: bool where
  "base64_encode_empty \<longleftrightarrow> base64_encode [] = []"

definition base64_encode_hello :: bool where
  "base64_encode_hello \<longleftrightarrow> base64_encode ''Hello'' = ''SGVsbG8=''"

definition base64_encode_padding :: bool where
  "base64_encode_padding \<longleftrightarrow> base64_encode ''Hi'' = ''SGk='' \<and> base64_encode ''Hey'' = ''SGV5''"

lemma base64_tests_pass: base64_encode_empty base64_encode_hello base64_encode_padding
  by code_simp+

end
