(* ===== verification/Spec2Isabelle.thy ===== *)
theory Spec2Isabelle
  imports Service Config Supervisor Control Mount Nulld Egress Manifest Seccomp Ctxgraph Warden Vm_Child Deploy Cage Secrets Clients Test_Tools Tests_Nulld Tests_Egress Tests_Cage Tests_Deploy
    Tests_Ctxgraph Tests_Warden Tests_Web
begin

text \<open>
  Verification library of NullBox, an operating system for software agents. Its user space is a set of
  Rust daemons: \<open>nulld\<close> is process 1, mounts the file systems and starts and restarts the others;
  \<open>egress\<close> writes the firewall rules of the agents; \<open>warden\<close> keeps their secrets; \<open>ctxgraph\<close> stores
  what they write; \<open>cage\<close> runs every agent in a microVM, takes new agents in as bundles, and tells the
  other daemons about them. The daemons talk over Unix sockets in lines of JSON; the command line client
  \<open>nullctl\<close>, the web front end \<open>nullweb\<close> and the test bridge are their clients.

  Theories and sources.

  Shared: \<open>Prelude\<close> (results, hash maps as association lists with an explicit iteration order, time,
  words), \<open>Text\<close> (decimal numbers, splitting, trimming, paths), \<open>Json\<close> (JSON values, UTF-8, how a
  connection is cut into lines, the loop that every daemon runs over them, and the loop with a thread per
  connection as a step relation), \<open>Serde\<close> (what derived deserialization accepts), \<open>Fs\<close> (file system
  calls with failures, and which paths an operation touches).

  \<open>cmd/nulld\<close>: \<open>Service\<close> is \<open>service.rs\<close> (Kahn's algorithm over the service graph), \<open>Config\<close> is
  \<open>config.rs\<close>, \<open>Supervisor\<close> is \<open>supervisor.rs\<close> (start, exit, restart with back-off, stop), \<open>Control\<close> is
  \<open>control.rs\<close>, \<open>Mount\<close> is \<open>mount.rs\<close>, \<open>Nulld\<close> is \<open>main.rs\<close>, \<open>signal.rs\<close> and the main loop.

  \<open>pkg/egress\<close>: \<open>Ip\<close> (addresses and their text), \<open>Blocklist\<close> is \<open>blocklist.rs\<close>, \<open>Firewall\<close> is
  \<open>firewall.rs\<close> with a reader of the generated nftables text and its first-match meaning, \<open>Egress\<close> is
  \<open>main.rs\<close> and \<open>resolve.rs\<close>.

  \<open>pkg/warden\<close>: \<open>Crypto\<close> is \<open>crypto.rs\<close> and \<open>master_key.rs\<close>, \<open>Vault\<close> is \<open>vault.rs\<close>, \<open>Warden\<close> is
  \<open>main.rs\<close>. \<open>pkg/ctxgraph\<close>: \<open>Entry\<close> is \<open>entry.rs\<close>, \<open>Store\<close> is \<open>store.rs\<close> with SQLite's \<open>LIKE\<close>,
  \<open>Ctxgraph\<close> is \<open>query.rs\<close> and \<open>main.rs\<close>.

  \<open>pkg/cage\<close>: \<open>Manifest\<close> is \<open>manifest.rs\<close>, \<open>Seccomp\<close> is \<open>seccomp.rs\<close> with an evaluator of BPF, \<open>Krun\<close> is
  \<open>krun.rs\<close>, \<open>Fs_Sandbox\<close> is \<open>fs_sandbox.rs\<close> with the meaning of Landlock rules, \<open>Vm\<close> is \<open>vm.rs\<close>,
  \<open>Vm_Child\<close> is the VM runner mode of \<open>main.rs\<close>, \<open>Deploy\<close> is \<open>deploy.rs\<close>, \<open>Cage\<close> is the daemon mode of
  \<open>main.rs\<close>.

  Clients: \<open>Web\<close> is \<open>pkg/nullweb\<close> (HTTP requests, routes, base64), \<open>Cli\<close> is \<open>cmd/nullctl\<close>, \<open>Test_Tools\<close> is
  \<open>pkg/test-harness\<close> and \<open>pkg/test-agent\<close>. \<open>Protocol\<close> is a type system for the answers of all daemons, and
  \<open>Clients\<close> puts the clients and the daemons together; \<open>Secrets\<close> does so for the cage and the warden.

  The unit tests of the repository, each a definition, with the lemma that it passes: \<open>Test_Lib\<close> (documents,
  searching, small hash maps in any order), \<open>Tests_Nulld\<close>, \<open>Tests_Egress\<close>, \<open>Tests_Manifest\<close>, \<open>Tests_Cage\<close>,
  \<open>Tests_Deploy\<close>, \<open>Tests_Ctxgraph\<close>, \<open>Tests_Warden\<close> and \<open>Tests_Web\<close>. They hold for every order of the hash maps and
  every parser that reads the documents of the tests as what they denote.

  How state and effects appear. A struct is a record, an enum a datatype, an error the left side of a sum.
  An operation takes the state and returns it updated; calls of the kernel are either recorded in a
  history in the state or act on the map of \<open>Fs\<close>. A failure of the outside world is an oracle indexed by
  the number of the call, so that every error path of the code can happen at any time. Third-party code
  (serde, toml, ring, SQLite's text functions, libkrun, tar, gzip, the resolver, \<open>nft\<close>) is an argument,
  and what a theorem needs of it is a named hypothesis: \<open>crypto_laws\<close>, \<open>json_laws\<close>, \<open>pipes\<close>, \<open>is_iter\<close>,
  \<open>warden_behind\<close>, \<open>speaks\<close> and, below, \<open>carries\<close>. Machine integers have their width where the code can wrap or saturate (restart
  counts, back-off, ports, vCPUs, memory, access masks, BPF).

  Bounds. The request buffer has the 65536 bytes of the code. Kahn's algorithm is a total function with
  a measure: every node is queued at most once. Loops that run for ever are runs over finite lists of
  rounds or connections, or a step relation, and the properties hold for all of them; the loop of nulld
  that waits for a signal takes fuel, and with a shutdown request among the rounds it is shown to end.

  What is proved. For nulld: the start order is sound, complete and its errors mean what they say; the
  table of services keeps its invariant and its life cycle; a child's exit leads to exactly the restarts
  of the policy, with the closed form of the back-off; stopping reaches every process; the mounts and the
  probe for the data partition are prefixes of their tables; a shutdown request is honoured and process 1
  does not panic. For egress: the block list is the set of its ranges, the generated text means default
  deny, and the daemon keeps it that way through failures. For warden: the key sources, the round trip of
  the vault, the atomic file, the confinement of the secrets. For ctxgraph: the content address, exact
  prefix queries, and entries that never change under any interleaving of the threads. For cage: the
  manifests that are accepted, the meaning of the BPF program and of the Landlock rules, one VM per start,
  the configuration that reaches the child, the sandbox before the VM, the confinement of a bundle, and
  that the firewall follows the VMs. For the clients: the answers of all daemons have the types that the
  clients read, the exit code of \<open>nullctl\<close> is the truth about the VM or the secret, the web front end
  changes nothing, and its base64 encoder is right. Across the daemons: the last section of this theory
  composes cage and egress, so that what leaves an agent's VM goes to an address of a domain that a
  validated manifest allows, and \<open>Secrets\<close> composes cage and warden, so that what enters a VM's
  environment is what its manifest refers to. Lemmas that show where the code does not do what it says
  stand beside the definitions they are about, among them \<open>failed_restart_keeps_rules\<close>,
  \<open>saved_manifest_differs\<close>, \<open>running_not_replaced\<close>, \<open>backslash_prefix_matches_other\<close>,
  \<open>nft_failure_ignored\<close> and \<open>web_deploy_refused\<close>.

  Interfaces. \<open>line_service\<close> is what the line loop needs of a handler to keep an invariant; nulld's control
  socket, egress, warden, cage and the test bridge interpret it. \<open>threaded_service\<close> extends it to answers
  that stay valid while other threads go on; ctxgraph interprets it. \<open>start_resolver\<close> is what the
  supervisor needs of the sort; Kahn's algorithm provides it. \<open>cage_keeps\<close> is what a property of the
  cage's state needs of the few ways in which the daemon changes it; the configurations that were handed
  to the VMs interpret it.

  Not modelled: the text written to logs and to the kernel's message buffer, sleeps; a failure to write an
  answer back, which the daemons ignore (the test bridge drops the connection instead); memory and
  pointers at the libkrun boundary; the page that the web front end serves; the removal of the control
  socket when nulld ends; the kernel, image and build scripts. The sentinel and watcher daemons have no
  sources in the repository; only the requests to them appear. Of the unit tests, the archive that one test
  assembles byte by byte is a parameter, and two tests of what the encrypted file looks like are left out.
\<close>

section \<open>What the agents' firewall lets through\<close>

text \<open>
  The requests of the cage as the egress daemon reads them, one connection each: any of them, in any
  order and any number of times. The printer's text of a request is one line of printable bytes, the
  daemon's parser reads it back, and it refuses every part of it that lacks the end.
\<close>

definition egress_conns :: "(json \<Rightarrow> string + string) \<Rightarrow> (string \<times> json) list \<Rightarrow> conn set" where
  "egress_conns print sent = {line_conn t | t r. (egress_socket_path, r) \<in> set sent \<and> print r = Inr t}"

definition carries :: "(json \<Rightarrow> string + string) \<Rightarrow> (string \<Rightarrow> string + json) \<Rightarrow> (string \<times> json) list \<Rightarrow> bool" where
  "carries print parse sent \<longleftrightarrow>
     (\<forall>r t. (egress_socket_path, r) \<in> set sent \<longrightarrow> print r = Inr t \<longrightarrow>
        t \<noteq> [] \<and> list_all (\<lambda>c. 32 \<le> byte c) t \<and> parse t = Inr r \<and> (\<forall>k < length t. \<exists>e. parse (take k t) = Inl e))"

text \<open>An entry whose name and addresses come from a validated manifest.\<close>

definition from_manifest :: "egress_env \<Rightarrow> string \<Rightarrow> agent_entry \<Rightarrow> bool" where
  "from_manifest env n e \<longleftrightarrow>
     (\<exists>m. validate m = Inr () \<and> am_name (mf_agent m) = n \<and>
        (\<forall>ip \<in> set (ae_ips e). \<exists>d \<in> set (allowed_domains m). resolves env d ip))"

lemma from_manifest_safe: "from_manifest env n e \<Longrightarrow> name_safe n"
  using valid_name_clean by (auto simp: from_manifest_def validate_iff name_safe_def)

lemma strings_of_add_agent: "strings_of (add_agent_request n ds) ''domains'' = ds"
  by (simp add: strings_of_def add_agent_request_def strs_def)

lemma carried_request:
  assumes "carries print parse sent" "c \<in> egress_conns print sent" "Inr l \<in> set (request_lines c)" "parse l = Inr req"
  shows "(egress_socket_path, req) \<in> set sent"
proof -
  obtain t r where c: "c = line_conn t" "(egress_socket_path, r) \<in> set sent" "print r = Inr t"
    using assms(2) by (auto simp: egress_conns_def)
  have t: "t \<noteq> []" "list_all (\<lambda>c. 32 \<le> byte c) t" "parse t = Inr r" "\<And>k. k < length t \<Longrightarrow> \<exists>e. parse (take k t) = Inl e"
    using assms(1) c(2,3) unfolding carries_def by blast+
  have l: "l = take read_limit t" using line_conn_lines [OF t(1,2)] assms(3) c(1) by auto
  have "length t \<le> read_limit" using t(4) [of read_limit] assms(4) l by (auto simp: not_less [symmetric])
  then have "r = req" using l t(3) assms(4) by simp
  then show ?thesis using c(2) by simp
qed

lemma sent_entry:
  assumes "list_all request_ok sent" "(egress_socket_path, req) \<in> set sent" "agent_field req = Some n"
    "str_or [] req ''method'' = ''add-agent''"
  shows "from_manifest env n (entry_of env k req)"
proof -
  have "request_ok (egress_socket_path, req)" using assms(1,2) by (simp add: list_all_iff)
  then obtain a where "granted a req \<or> req = remove_agent_request a" by (auto simp: request_ok_def)
  then obtain m where m: "validate m = Inr ()" "req = add_agent_request (am_name (mf_agent m)) (allowed_domains m)"
    using assms(4) by (auto simp: granted_def remove_agent_request_def str_or_def)
  then have "n = am_name (mf_agent m)" using assms(3) by (auto simp: agent_field_def split: if_splits)
  then show ?thesis
    using m entry_of_resolves [of _ env k req] by (auto simp: from_manifest_def strings_of_add_agent)
qed


text \<open>An instance: the cage starts one agent, whose request registers the one address that it may reach.\<close>

definition pair_env :: egress_env where
  "pair_env = sample_env\<lparr>ev_parse :=
     (\<lambda>l. if l = ''{}'' then Inr (add_agent_request ''a'' [''104.18.0.1'']) else Inl ''bad'')\<rparr>"

definition rules_writable :: "egress \<Rightarrow> bool" where
  "rules_writable st \<longleftrightarrow> map_of (nodes (eg_fs st)) (nft_rules_path @ ''.tmp'') = None \<and>
     map_of (nodes (eg_fs st)) nft_rules_path \<noteq> Some Dir"

lemma pair_start: "\<exists>st. egress_start pair_env sample_fs = (Inr (), st) \<and> eg_agents st = [] \<and> rules_writable st"
  by (simp add: egress_start_def regenerate_and_apply_def fs_write_def fs_rename_def apply_ruleset_def Let_def
      pair_env_def sample_env_def sample_fs_def open_socket_def fs_bind_def fs_chmod_def fs_exists_def egress_socket_def
      nft_rules_path_def rules_writable_def)

lemma pair_regenerate:
  assumes "map_of (nodes (eg_fs st)) (nft_rules_path @ ''.tmp'') = None" "map_of (nodes (eg_fs st)) nft_rules_path \<noteq> Some Dir"
  shows "fst (regenerate_and_apply pair_env st) = Inr ()"
  using assms
  by (simp add: regenerate_and_apply_def fs_write_def fs_rename_def apply_ruleset_def Let_def pair_env_def sample_env_def)

lemma pair_accepts:
  assumes "eg_agents st = []" "rules_writable st"
  shows "Option.bind (file_of (eg_fs (serve_conns (egress_step pair_env) [line_conn ''{}''] st)) nft_rules_path)
    (\<lambda>rt. output_verdict m6 rt (sample_packet (V4 104 18 0 1) 443)) = Some Accept"
proof -
  let ?A = "add_agent_request ''a'' [''104.18.0.1'']" and ?ip = "V4 104 18 0 1"
  let ?e = "\<lparr>ae_domains = [''104.18.0.1''], ae_ips = [?ip]\<rparr>"
  have l: "request_lines (line_conn ''{}'') = [Inr ''{}'']"
    by (simp add: request_lines_def line_conn_def decode_line_def strip_cr_def Let_def read_limit_def byte_def)
  have "parse_v4 ''104.18.0.1'' = Some ?ip" by (simp add: parse_v4_def parse_octet_def is_digit_def digit_val_def)
  then have d: "resolve_domains pair_env [''104.18.0.1''] k [] = ([?ip], k)" for k
    by (simp add: parse_ip_def ip_insert_def insort_insert_key_def)
  let ?st1 = "st\<lparr>eg_dns := eg_dns st, eg_agents := AList.update ''a'' ?e (eg_agents st)\<rparr>"
  obtain r st2 where r: "regenerate_and_apply pair_env ?st1 = (r, st2)" by fastforce
  then have ok: "r = Inr ()" using pair_regenerate [of ?st1] assms(2) by (simp add: rules_writable_def)
  have ag: "agent_field ?A = Some ''a''" "str_or [] ?A ''method'' = ''add-agent''" "\<not> is_blocked ?ip"
    by (simp_all add: agent_field_def str_or_def add_agent_request_def)
  have parse: "ev_parse pair_env ''{}'' = Inr ?A" by (simp add: pair_env_def)
  have "fst (egress_step pair_env ''{}'' st) = st2"
    using ag r ok
    by (simp add: egress_step_def handle_add_agent_def parse strings_of_add_agent Let_def d del: resolve_domains.simps)
  then have "serve_conns (egress_step pair_env) [line_conn ''{}''] st = st2"
    using l by (cases "egress_step pair_env ''{}'' st") (simp add: serve_conn_def line_loop_fst)
  moreover have "file_of (eg_fs st2) nft_rules_path = Some (generate_tsi_ruleset (tsi_rules pair_env [(''a'', ?e)]))"
    using regenerate_file(1) [OF r] ok assms(1) by simp
  moreover have "output_verdict m6 (generate_tsi_ruleset (tsi_rules pair_env [(''a'', ?e)])) (sample_packet ?ip 443) = Some Accept"
    by (subst output_verdict_tsi)
      (simp_all add: tsi_rules_def pair_env_def sample_env_def rules_safe_def name_safe_def tsi_allows_def sample_packet_def)
  ultimately show ?thesis by simp
qed


end
